(* ===== verification/Prelude.thy ===== *)
theory Prelude
  imports Main "HOL-Library.Word" "HOL-Library.Char_ord" "HOL-Library.AList"
    "HOL-Library.Sublist"
begin

text \<open>
  What the component theories share.  Go's sized unsigned integers are words of the same
  width, so that \<open>+\<close> wraps as in Go; Go's \<open>int\<close> and \<open>int64\<close> are \<^typ>\<open>int\<close>, with
  \<open>i64\<close> written out where an operation can leave the range.  A Go \<open>string\<close> or \<open>[]byte\<close> is a
  \<^typ>\<open>string\<close>: a \<^typ>\<open>char\<close> of HOL is one byte.  A Go map is an association list with
  distinct keys; the order of the list stands for the iteration order, which Go leaves
  unspecified, so a theorem about every list is a theorem about every order.
\<close>

section \<open>Types\<close>

unbundle bit_operations_syntax

type_synonym u8 = "8 word"
type_synonym u16 = "16 word"
type_synonym u32 = "32 word"
type_synonym u64 = "64 word"

text \<open>A Go map with unspecified iteration order.\<close>

type_synonym ('k, 'v) gomap = "('k \<times> 'v) list"

text \<open>
  \<open>track_simps\<close>: unfolding rules of the recorders; \<open>inv_intros\<close>: preservation lemmas of the
  component invariants; \<open>byte_simps\<close>: byte classes of the string code.
\<close>

named_theorems track_simps
named_theorems inv_intros
named_theorems byte_simps

section \<open>Machine integers and time\<close>

text \<open>The value of a Go \<open>int64\<close> expression whose mathematical value is \<open>x\<close>.\<close>

definition i64 :: "int \<Rightarrow> int" where
  "i64 x = signed_take_bit 63 x"

definition max_i64 :: int where
  "max_i64 = 9223372036854775807"

definition min_i64 :: int where
  "min_i64 = - 9223372036854775808"

lemma i64_id: "min_i64 \<le> x \<Longrightarrow> x \<le> max_i64 \<Longrightarrow> i64 x = x"
  unfolding i64_def min_i64_def max_i64_def
  by (rule signed_take_bit_int_eq_self) simp_all

lemma i64_range: "min_i64 \<le> i64 x \<and> i64 x \<le> max_i64"
proof -
  have "i64 x < 2 ^ 63" and "- (2 ^ 63) \<le> i64 x"
    unfolding i64_def
    by (rule signed_take_bit_int_less_exp, rule signed_take_bit_int_greater_eq_minus_exp)
  then show ?thesis by (simp add: min_i64_def max_i64_def)
qed

text \<open>
  A \<open>time.Time\<close> is its distance in nanoseconds from Go's zero time, so \<open>IsZero\<close> is
  \<open>t = 0\<close>; a \<open>time.Duration\<close> is a number of nanoseconds.  \<open>Time.Sub\<close> saturates at the
  bounds of an int64.
\<close>

type_synonym gotime = int
type_synonym duration = int

definition time_Sub :: "gotime \<Rightarrow> gotime \<Rightarrow> duration" where
  "time_Sub t u = max min_i64 (min max_i64 (t - u))"

abbreviation (input) IsZero :: "gotime \<Rightarrow> bool" where
  "IsZero t \<equiv> t = 0"

abbreviation (input) Millisecond :: duration where
  "Millisecond \<equiv> 1000000"

abbreviation (input) Second :: duration where
  "Second \<equiv> 1000000000"

abbreviation (input) Minute :: duration where
  "Minute \<equiv> 60000000000"

lemma time_Sub_ge_iff:
  "min_i64 < d \<Longrightarrow> d \<le> max_i64 \<Longrightarrow> d \<le> time_Sub t u \<longleftrightarrow> d \<le> t - u"
  by (auto simp: time_Sub_def min_i64_def max_i64_def)

section \<open>Maps as association lists\<close>

abbreviation keys :: "('k, 'v) gomap \<Rightarrow> 'k set" where
  "keys m \<equiv> fst ` set m"

abbreviation distinct_keys :: "('k, 'v) gomap \<Rightarrow> bool" where
  "distinct_keys m \<equiv> distinct (map fst m)"

text \<open>\<open>m[k] = v\<close>, keeping the place of an existing key.\<close>

abbreviation mput :: "'k \<Rightarrow> 'v \<Rightarrow> ('k, 'v) gomap \<Rightarrow> ('k, 'v) gomap" where
  "mput \<equiv> AList.update"

text \<open>\<open>m[k]++\<close> on a map of counters: a missing key reads as zero.\<close>

definition mbump :: "'k \<Rightarrow> ('k, u64) gomap \<Rightarrow> ('k, u64) gomap" where
  "mbump k m = mput k (case map_of m k of None \<Rightarrow> 1 | Some c \<Rightarrow> c + 1) m"

text \<open>The sum of all counters of a map, at the counters' width.\<close>

definition tally :: "('k, u64) gomap \<Rightarrow> u64" where
  "tally m = sum_list (map snd m)"

lemma map_of_mput [simp]: "map_of (mput k v m) = (map_of m)(k \<mapsto> v)"
  by (rule update_conv')

lemma keys_mput [simp]: "keys (mput k v m) = insert k (keys m)"
  by (induction m) auto

lemma distinct_mput [simp, intro]: "distinct_keys m \<Longrightarrow> distinct_keys (mput k v m)"
  by (rule distinct_update)

lemma length_mput [simp]:
  "length (mput k v m) = (if k \<in> keys m then length m else Suc (length m))"
  by (induction m) auto

lemma map_of_None_keys [simp]: "map_of m k = None \<longleftrightarrow> k \<notin> keys m"
  by (rule map_of_eq_None_iff)

lemma map_of_notin [simp]: "k \<notin> keys m \<Longrightarrow> map_of m k = None"
  by (rule map_of_None_keys [THEN iffD2])

lemma map_of_Some_keys: "map_of m k = Some v \<Longrightarrow> k \<in> keys m"
  by (metis map_of_None_keys option.distinct(1))

lemma mput_new: "k \<notin> keys m \<Longrightarrow> mput k v m = m @ [(k, v)]"
  by (induction m) auto

lemma set_mput: "x \<in> set (mput k v m) \<Longrightarrow> x = (k, v) \<or> x \<in> set m"
  by (induction m) (auto split: if_splits)

lemma tally_simps [simp]:
  "tally [] = 0"
  "tally ((k, c) # m) = c + tally m"
  "tally (m @ n) = tally m + tally n"
  by (simp_all add: tally_def)

lemma tally_mput:
  "distinct_keys m \<Longrightarrow>
   tally (mput k v m) = tally m + v - (case map_of m k of None \<Rightarrow> 0 | Some c \<Rightarrow> c)"
proof (induction m)
  case Nil
  then show ?case by simp
next
  case (Cons a m)
  obtain j c where a: "a = (j, c)" by (cases a)
  show ?case
  proof (cases "k = j")
    case True
    then show ?thesis by (simp add: a)
  next
    case False
    with Cons show ?thesis by (simp add: a add.commute add.left_commute add_diff_eq)
  qed
qed

lemma map_of_mbump:
  "map_of (mbump k m) = (map_of m)(k \<mapsto> (case map_of m k of None \<Rightarrow> 1 | Some c \<Rightarrow> c + 1))"
  by (simp add: mbump_def)

lemma keys_mbump [simp]: "keys (mbump k m) = insert k (keys m)"
  by (simp add: mbump_def)

lemma distinct_mbump [simp, intro]: "distinct_keys m \<Longrightarrow> distinct_keys (mbump k m)"
  by (simp add: mbump_def distinct_update)

lemma length_mbump [simp]:
  "length (mbump k m) = (if k \<in> keys m then length m else Suc (length m))"
  by (simp add: mbump_def)

lemma tally_mbump: "distinct_keys m \<Longrightarrow> tally (mbump k m) = tally m + 1"
  by (cases "map_of m k") (simp_all add: mbump_def tally_mput del: map_of_None_keys)

lemma mbump_new: "k \<notin> keys m \<Longrightarrow> mbump k m = m @ [(k, 1)]"
  by (simp add: mbump_def mput_new map_of_None_keys [THEN iffD2])

section \<open>Lists\<close>

lemma unat_inc:
  fixes x y :: "'a::len word"
  assumes "x < y"
  shows "unat (x + 1) = Suc (unat x)"
proof -
  have "Suc (unat x) \<le> unat y" using assms by (simp add: word_less_nat_alt)
  then have "unat x + unat (1 :: 'a word) < 2 ^ LENGTH('a)"
    using unsigned_less [of y, where ?'a = nat] by (simp add: le_less_trans)
  then have "unat (x + 1) = unat x + unat (1 :: 'a word)" by (simp only: unat_add_lem)
  then show ?thesis by simp
qed

lemma sum_list_map_update:
  fixes f :: "'a \<Rightarrow> 'b::ab_group_add"
  assumes "i < length xs"
  shows "sum_list (map f (xs[i := y])) = sum_list (map f xs) - f (xs ! i) + f y"
  using assms
proof (induction xs arbitrary: i)
  case Nil
  then show ?case by simp
next
  case (Cons x xs)
  then show ?case by (cases i) (auto simp: algebra_simps)
qed

text \<open>The total of a measure over the values of a map, and what an update does to it.\<close>

definition weigh :: "('v \<Rightarrow> u64) \<Rightarrow> ('k, 'v) gomap \<Rightarrow> u64" where
  "weigh f m = sum_list (map (f \<circ> snd) m)"

lemma weigh_simps [simp]:
  "weigh f [] = 0" "weigh f ((k, v) # m) = f v + weigh f m" "weigh f (m @ n) = weigh f m + weigh f n"
  by (simp_all add: weigh_def)

lemma weigh_mput:
  "distinct_keys m \<Longrightarrow>
   weigh f (mput k v m) = weigh f m + f v - (case map_of m k of None \<Rightarrow> 0 | Some c \<Rightarrow> f c)"
proof (induction m)
  case Nil
  then show ?case by simp
next
  case (Cons a m)
  obtain j c where a: "a = (j, c)" by (cases a)
  show ?case
  proof (cases "k = j")
    case True
    then show ?thesis by (simp add: a)
  next
    case False
    with Cons show ?thesis by (simp add: a algebra_simps)
  qed
qed

text \<open>Folding a step that keeps an invariant keeps it.\<close>

lemma fold_invariant_step:
  "(\<And>x s. P s \<Longrightarrow> P (f x s)) \<Longrightarrow> P s \<Longrightarrow> P (fold f xs s)"
  by (induction xs arbitrary: s) auto

end
