(* ===== verification/Rows.thy ===== *)
theory Rows
  imports Prelude
begin

text \<open>
  The data model of the analytics batch: the keys under which the recorders aggregate, the
  counters they hold and the raw rows, one record per Go struct.  Field names carry a prefix
  for the struct, since Isabelle record fields share one name space.  A Go struct with one
  \<open>uint64\<close> field (\<open>l4SniCounter\<close>, \<open>fingerprintCounter\<close>, \<open>l7HttpversionCounter\<close>) is that word.
\<close>

section \<open>HTTP counters (event.go, app.go, histogram.go)\<close>

definition HistogramBuckets :: nat where
  "HistogramBuckets = 16"

record Key =
  k_TsUnixMin :: u32
  k_VhostID :: u32
  k_Method :: string
  k_Status :: u16
  k_Origin :: string
  k_Country :: string
  k_ASN :: u32
  k_DefenseExempt :: bool

record uniqueKey =
  uk_TsUnixMin :: u32
  uk_VhostID :: u32

record Counter =
  c_RequestCount :: u64
  c_BytesIn :: u64
  c_BytesOut :: u64
  c_DurationUsSum :: u64
  c_LatBuckets :: "u64 list"

definition newCounter :: Counter where
  "newCounter = \<lparr>c_RequestCount = 0, c_BytesIn = 0, c_BytesOut = 0, c_DurationUsSum = 0,
     c_LatBuckets = replicate HistogramBuckets 0\<rparr>"

record CounterDelta =
  d_BytesIn :: u64
  d_BytesOut :: u64
  d_DurationUs :: u64
  d_LatBucket :: int

definition OriginUpstream :: string where "OriginUpstream = ''upstream''"

definition OriginCluster :: string where "OriginCluster = ''cluster''"

definition OriginClusterBlocked :: string where "OriginClusterBlocked = ''cluster_blocked''"

definition OriginClusterProxyError :: string where
  "OriginClusterProxyError = ''cluster_proxy_error''"

section \<open>Layer 4 rows (l4\_event.go, l4\_block.go, l4\_ip\_event.go, fingerprint\_event.go)\<close>

record L4SniKey =
  sk_TsUnixMin :: u32
  sk_SNI :: string

definition L4SniOverflowSNI :: string where "L4SniOverflowSNI = ''__overflow__''"

definition L4SniEmptySNI :: string where "L4SniEmptySNI = ''__empty__''"

definition l4SniMaxBytes :: nat where "l4SniMaxBytes = 255"

record l4BlockKey =
  bk_Minute :: u32
  bk_IP :: string
  bk_Reason :: string

record fingerprintKey =
  fk_TsUnixMin :: u32
  fk_JA3 :: string
  fk_JA4 :: string
  fk_Outcome :: string

record fingerprintIpKey =
  fi_TsUnixMin :: u32
  fi_JA4 :: string
  fi_IP :: string

definition FingerprintOutcomeAllowed :: string where
  "FingerprintOutcomeAllowed = ''allowed''"

record topkRow =
  tr_IP :: string
  tr_Count :: u64

section \<open>Challenge, Edge Verify and L7 rows\<close>

record challengeAttemptKey =
  ck_vhost :: string
  ck_ip :: string
  ck_outcome :: string

record edgeVerifyAttemptKey =
  ek_vhost :: string
  ek_pathBucket :: string
  ek_outcome :: string

record L7HttpversionKey =
  hk_TsUnixMin :: u32
  hk_VhostID :: u32
  hk_HttpVersion :: string
  hk_StatusBucket :: u8

record L7PathKey =
  pk_TsUnixMin :: u32
  pk_VhostID :: u32
  pk_PathBucket :: string
  pk_StatusBucket :: u8

section \<open>Raw rows (request\_event.go, coraza\_event.go)\<close>

record requestEventRow =
  re_TsUnixSec :: u32
  re_VhostID :: u32
  re_ClientIP :: string
  re_ForwardedIP :: string
  re_FrontProxy :: string
  re_Method :: string
  re_Path :: string
  re_PathBucket :: string
  re_Status :: u16
  re_HTTPVersion :: string
  re_UA :: string
  re_Origin :: string
  re_BytesIn :: u64
  re_BytesOut :: u64
  re_DurationUs :: u64
  re_SampleRate :: u16
  re_DefenseExempt :: bool
  re_TsUnixMs :: int
  re_MachineID :: string
  re_MachineSeq :: u64
  re_Disposition :: string
  re_Host :: string
  re_RequestID :: string
  re_UpstreamFailureReason :: string
  re_V2 :: bool

record corazaDetection =
  cd_TsUnixSec :: u32
  cd_VhostID :: u32
  cd_RuleID :: u32
  cd_Severity :: string
  cd_RuleMsg :: string
  cd_Tags :: "string list"
  cd_TxID :: string
  cd_RequestURI :: string
  cd_RequestMethod :: string
  cd_RequestHost :: string
  cd_ClientIP :: string
  cd_MatchData :: string
  cd_WasBlocked :: bool
  cd_DefenseExempt :: bool

section \<open>Node state and domain health (node\_state.go, domain\_health.go)\<close>

text \<open>The eight overload counters, in the order of the wire.\<close>

definition nsCounters :: nat where "nsCounters = 8"

definition nodeStateCounterNames :: "string list" where
  "nodeStateCounterNames =
     [''waf_skipped_detect'', ''waf_skipped_static'', ''waf_would_skip'',
      ''shed_p0'', ''shed_p1'', ''shed_p2'', ''shed_p3'', ''would_shed'']"

record nodeStateMinute =
  nm_ts :: u32
  nm_levelMax :: int
  nm_l1Seconds :: int
  nm_l2Seconds :: int
  nm_reasons :: u32
  nm_schedP99UsMax :: int
  nm_burstEstSMin :: int
  nm_burstModel :: string
  nm_inflightMax :: int
  nm_admissionLimitMin :: int
  nm_counts :: "u64 list"
  nm_gomaxprocs :: int

record domainHealthKey =
  dk_TsUnixMin :: u32
  dk_VhostID :: u32
  dk_ConfigurationKey :: string

record domainHealthCounter =
  dc_RequestCount :: u64
  dc_RoutingResponses :: u64
  dc_UpstreamResponses :: u64
  dc_UpstreamSuccesses :: u64
  dc_Upstream5xx :: u64
  dc_ProxyErrors :: u64

end
