(* ===== verification/Go_Text.thy ===== *)
theory Go_Text
  imports Prelude
begin

text \<open>
  The operations of Go's \<open>strings\<close>, \<open>strconv\<close> and \<open>unicode/utf8\<close> packages that the program
  calls, over bytes, and the package's own text helpers: \<open>truncateBytes\<close>, \<open>ownedTruncate\<close>
  (coraza\_event.go), \<open>trimSpace\<close>, \<open>lastIndexByte\<close> (handler.go) and \<open>firstNonEmpty\<close>,
  \<open>intDefault\<close> (app.go).  An index result of \<open>-1\<close> is \<open>None\<close>.
\<close>

section \<open>Bytes\<close>

abbreviation byte :: "char \<Rightarrow> nat" where
  "byte c \<equiv> of_char c"

text \<open>A byte literal by its code.\<close>

abbreviation chr :: "nat \<Rightarrow> char" where
  "chr n \<equiv> char_of n"

definition is_lower :: "char \<Rightarrow> bool" where
  "is_lower c = (97 \<le> byte c \<and> byte c \<le> 122)"

definition is_upper :: "char \<Rightarrow> bool" where
  "is_upper c = (65 \<le> byte c \<and> byte c \<le> 90)"

definition is_digit :: "char \<Rightarrow> bool" where
  "is_digit c = (48 \<le> byte c \<and> byte c \<le> 57)"

text \<open>ASCII lower case of one byte.\<close>

definition lower_byte :: "char \<Rightarrow> char" where
  "lower_byte c = (if is_upper c then chr (byte c + 32) else c)"

lemma byte_less_256 [simp]: "byte c < 256"
  by (metis of_char_mod_256 mod_less_divisor zero_less_numeral)

lemma byte_chr [simp]: "n < 256 \<Longrightarrow> byte (chr n) = n"
  by simp

lemma byte_inject [simp]: "byte c = byte d \<longleftrightarrow> c = d"
  by simp

lemma chr_byte [simp]: "chr (byte c) = c"
  by simp

lemma byte_lower_byte:
  "byte (lower_byte c) = (if 65 \<le> byte c \<and> byte c \<le> 90 then byte c + 32 else byte c)"
  by (simp add: lower_byte_def is_upper_def)

lemma lower_byte_idem [simp]: "lower_byte (lower_byte c) = lower_byte c"
  by (simp add: lower_byte_def is_upper_def)

section \<open>Package strings\<close>

fun indexByte :: "string \<Rightarrow> char \<Rightarrow> nat option" where
  "indexByte [] c = None"
| "indexByte (x # xs) c = (if x = c then Some 0 else map_option Suc (indexByte xs c))"

fun LastIndexByte :: "string \<Rightarrow> char \<Rightarrow> nat option" where
  "LastIndexByte [] c = None"
| "LastIndexByte (x # xs) c =
     (case LastIndexByte xs c of Some i \<Rightarrow> Some (Suc i) | None \<Rightarrow> if x = c then Some 0 else None)"

abbreviation HasPrefix :: "string \<Rightarrow> string \<Rightarrow> bool" where
  "HasPrefix s p \<equiv> prefix p s"

abbreviation HasSuffix :: "string \<Rightarrow> string \<Rightarrow> bool" where
  "HasSuffix s p \<equiv> suffix p s"

abbreviation Contains :: "string \<Rightarrow> string \<Rightarrow> bool" where
  "Contains s t \<equiv> sublist t s"

definition ContainsAny :: "string \<Rightarrow> string \<Rightarrow> bool" where
  "ContainsAny s cs = list_ex (\<lambda>c. c \<in> set cs) s"

text \<open>\<open>strings.Split\<close> with a separator of one byte; never the empty list.\<close>

fun splitOn :: "char \<Rightarrow> string \<Rightarrow> string list" where
  "splitOn c [] = [[]]"
| "splitOn c (x # xs) =
     (if x = c then [] # splitOn c xs
      else (case splitOn c xs of [] \<Rightarrow> [[x]] | y # ys \<Rightarrow> (x # y) # ys))"

fun joinWith :: "char \<Rightarrow> string list \<Rightarrow> string" where
  "joinWith c [] = []"
| "joinWith c [x] = x"
| "joinWith c (x # y # ys) = x @ c # joinWith c (y # ys)"

text \<open>\<open>strings.Cut\<close> at the first \<open>c\<close>: before, after, found.\<close>

fun cutOn :: "char \<Rightarrow> string \<Rightarrow> string \<times> string \<times> bool" where
  "cutOn c [] = ([], [], False)"
| "cutOn c (x # xs) =
     (if x = c then ([], xs, True)
      else (case cutOn c xs of (b, a, f) \<Rightarrow> (x # b, a, f)))"

text \<open>
  \<open>strings.EqualFold s t\<close> where \<open>t\<close> is ASCII.  The code points that fold to an ASCII letter
  are its two cases, U+017F (bytes C5 BF) with the letter s and U+212A (bytes E2 84 AA) with
  the letter k.
\<close>

fun equalFold :: "string \<Rightarrow> string \<Rightarrow> bool" where
  "equalFold [] t = (t = [])"
| "equalFold s [] = (s = [])"
| "equalFold (x # s) (y # t) =
     (if byte x < 128 then lower_byte x = lower_byte y \<and> equalFold s t
      else if lower_byte y = CHR ''s'' \<and> byte x = 197 \<and> s \<noteq> [] \<and> byte (hd s) = 191
        then equalFold (tl s) t
      else if lower_byte y = CHR ''k'' \<and> byte x = 226 \<and> 2 \<le> length s \<and> byte (hd s) = 132
        \<and> byte (s ! 1) = 170 then equalFold (drop 2 s) t
      else False)"

text \<open>
  \<open>strings.ToLower\<close>: an ASCII string is mapped byte by byte; otherwise Go maps code points
  through the Unicode tables, the parameter \<open>uni\<close>.
\<close>

definition isASCII :: "string \<Rightarrow> bool" where
  "isASCII s = list_all (\<lambda>c. byte c < 128) s"

definition ToLower :: "(string \<Rightarrow> string) \<Rightarrow> string \<Rightarrow> string" where
  "ToLower uni s = (if isASCII s then map lower_byte s else uni s)"

section \<open>Package strconv\<close>

definition digit :: "nat \<Rightarrow> char" where
  "digit n = chr (48 + n)"

text \<open>\<open>strconv.FormatUint n 10\<close>.\<close>

fun FormatUint :: "nat \<Rightarrow> string" where
  "FormatUint n = (if n < 10 then [digit n] else FormatUint (n div 10) @ [digit (n mod 10)])"

declare FormatUint.simps [simp del]

definition FormatInt :: "int \<Rightarrow> string" where
  "FormatInt i = (if i < 0 then CHR ''-'' # FormatUint (nat (- i)) else FormatUint (nat i))"

fun digits_val :: "nat \<Rightarrow> string \<Rightarrow> nat option" where
  "digits_val acc [] = Some acc"
| "digits_val acc (c # cs) =
     (if is_digit c then digits_val (10 * acc + (byte c - 48)) cs else None)"

text \<open>\<open>strconv.ParseUint s 10 bits\<close>; \<open>None\<close> is a syntax or range error.\<close>

definition ParseUint :: "nat \<Rightarrow> string \<Rightarrow> nat option" where
  "ParseUint bits s =
     (if s = [] then None
      else case digits_val 0 s of None \<Rightarrow> None | Some n \<Rightarrow> if n < 2 ^ bits then Some n else None)"

section \<open>Package unicode/utf8\<close>

abbreviation is_cont :: "char \<Rightarrow> bool" where
  "is_cont c \<equiv> 128 \<le> byte c \<and> byte c < 192"

text \<open>
  \<open>utf8.DecodeRuneInString\<close> on a non-empty string: the code point and its width, or \<open>None\<close>
  where Go returns \<open>(RuneError, 1)\<close>.
\<close>

fun decodeRune :: "string \<Rightarrow> (nat \<times> nat) option" where
  "decodeRune [] = None"
| "decodeRune (a # s) =
     (if byte a < 128 then Some (byte a, 1)
      else if 194 \<le> byte a \<and> byte a < 224 then
        (case s of b # _ \<Rightarrow>
           if is_cont b then Some ((byte a - 192) * 64 + (byte b - 128), 2) else None
         | _ \<Rightarrow> None)
      else if 224 \<le> byte a \<and> byte a < 240 then
        (case s of b # c # _ \<Rightarrow>
           if is_cont b \<and> is_cont c \<and> (byte a = 224 \<longrightarrow> 160 \<le> byte b)
              \<and> (byte a = 237 \<longrightarrow> byte b < 160)
           then Some ((byte a - 224) * 4096 + (byte b - 128) * 64 + (byte c - 128), 3) else None
         | _ \<Rightarrow> None)
      else if 240 \<le> byte a \<and> byte a < 245 then
        (case s of b # c # d # _ \<Rightarrow>
           if is_cont b \<and> is_cont c \<and> is_cont d \<and> (byte a = 240 \<longrightarrow> 144 \<le> byte b)
              \<and> (byte a = 244 \<longrightarrow> byte b < 144)
           then Some ((byte a - 240) * 262144 + (byte b - 128) * 4096
                      + (byte c - 128) * 64 + (byte d - 128), 4) else None
         | _ \<Rightarrow> None)
      else None)"

text \<open>Width of the next code point of a non-empty string, as the \<open>range\<close> loop advances.\<close>

definition runeWidth :: "string \<Rightarrow> nat" where
  "runeWidth s = (case decodeRune s of None \<Rightarrow> 1 | Some (_, n) \<Rightarrow> n)"

lemma decodeRune_width:
  "decodeRune s = Some (r, n) \<Longrightarrow> 0 < n \<and> n \<le> 4 \<and> n \<le> length s"
  by (cases s) (auto split: if_splits list.splits)

lemma runeWidth_pos [simp]: "0 < runeWidth s"
  by (auto simp: runeWidth_def decodeRune_width split: option.split)

text \<open>\<open>utf8.ValidString\<close>.\<close>

function ValidString :: "string \<Rightarrow> bool" where
  "ValidString s =
     (if s = [] then True
      else decodeRune s \<noteq> None \<and> ValidString (drop (runeWidth s) s))"
  by pat_completeness auto
termination
  by (relation "measure length") (auto simp: diff_less)

declare ValidString.simps [simp del]

section \<open>Text helpers of the package\<close>

fun lastIndexByte :: "string \<Rightarrow> char \<Rightarrow> nat option" where
  "lastIndexByte [] c = None"
| "lastIndexByte s c = (if last s = c then Some (length s - 1) else lastIndexByte (butlast s) c)"

definition is_blank :: "char \<Rightarrow> bool" where
  "is_blank c = (byte c = 32 \<or> byte c = 9)"

definition trimSpace :: "string \<Rightarrow> string" where
  "trimSpace s = rev (dropWhile is_blank (rev (dropWhile is_blank s)))"

definition firstNonEmpty :: "string list \<Rightarrow> string" where
  "firstNonEmpty args = (case dropWhile (\<lambda>s. s = []) args of [] \<Rightarrow> [] | s # _ \<Rightarrow> s)"

definition intDefault :: "int \<Rightarrow> int \<Rightarrow> int" where
  "intDefault n d = (if n > 0 then n else d)"

text \<open>The loop that walks back over continuation bytes: \<open>s[end] & 0xC0 == 0x80\<close>.\<close>

definition contMask :: "char \<Rightarrow> bool" where
  "contMask c = ((of_nat (byte c) :: u8) AND 0xC0 = 0x80)"

fun backUp :: "string \<Rightarrow> nat \<Rightarrow> nat" where
  "backUp s 0 = 0"
| "backUp s (Suc e) = (if contMask (s ! Suc e) then backUp s e else Suc e)"

definition truncateBytes :: "string \<Rightarrow> nat \<Rightarrow> string" where
  "truncateBytes s mx = (if length s \<le> mx then s else take (backUp s mx) s)"

definition ownedTruncate :: "string \<Rightarrow> nat \<Rightarrow> string" where
  "ownedTruncate s mx = (if length s \<le> mx then s else truncateBytes s mx)"

section \<open>Laws of the library operations\<close>

lemma indexByte_None [simp]: "indexByte s c = None \<longleftrightarrow> c \<notin> set s"
  by (induction s) auto

lemma indexByte_Some:
  "indexByte s c = Some i \<Longrightarrow> i < length s \<and> s ! i = c \<and> c \<notin> set (take i s)"
proof (induction s arbitrary: i)
  case Nil
  then show ?case by simp
next
  case (Cons x s)
  then show ?case by (cases i) (auto split: if_splits)
qed

lemma indexByte_append_hit: "c \<notin> set s \<Longrightarrow> indexByte (s @ c # t) c = Some (length s)"
  by (induction s) auto

lemma LastIndexByte_None [simp]: "LastIndexByte s c = None \<longleftrightarrow> c \<notin> set s"
  by (induction s) (auto split: option.splits)

lemma LastIndexByte_Some:
  "LastIndexByte s c = Some i \<Longrightarrow> i < length s \<and> s ! i = c \<and> c \<notin> set (drop (Suc i) s)"
  by (induction s arbitrary: i) (auto split: option.splits if_splits)

lemma LastIndexByte_append_hit: "c \<notin> set t \<Longrightarrow> LastIndexByte (s @ c # t) c = Some (length s)"
  by (induction s) (auto simp: LastIndexByte_None [THEN iffD2])

lemma splitOn_not_Nil [simp]: "splitOn c s \<noteq> []"
  by (cases s) (auto split: list.splits)

lemma joinWith_Cons: "xs \<noteq> [] \<Longrightarrow> joinWith c (x # xs) = x @ c # joinWith c xs"
  by (cases xs) auto

lemma join_split [simp]: "joinWith c (splitOn c s) = s"
proof (induction s)
  case Nil
  then show ?case by simp
next
  case (Cons x s)
  obtain y ys where "splitOn c s = y # ys" by (cases "splitOn c s") auto
  with Cons show ?case by (cases ys) (auto simp: joinWith_Cons)
qed

lemma splitOn_no_sep: "c \<notin> set s \<Longrightarrow> splitOn c s = [s]"
  by (induction s) auto

lemma splitOn_append_sep: "c \<notin> set s \<Longrightarrow> splitOn c (s @ c # t) = s # splitOn c t"
  by (induction s) auto

lemma splitOn_parts: "x \<in> set (splitOn c s) \<Longrightarrow> c \<notin> set x"
proof (induction s arbitrary: x)
  case Nil
  then show ?case by simp
next
  case (Cons a s)
  obtain y ys where sp: "splitOn c s = y # ys" by (cases "splitOn c s") auto
  with Cons show ?case by (auto split: if_splits)
qed

lemma split_join: "xs \<noteq> [] \<Longrightarrow> \<forall>x \<in> set xs. c \<notin> set x \<Longrightarrow> splitOn c (joinWith c xs) = xs"
proof (induction c xs rule: joinWith.induct)
  case (2 c x)
  then show ?case by (simp add: splitOn_no_sep)
next
  case (3 c x y ys)
  then show ?case by (simp add: splitOn_append_sep)
qed simp

lemma set_joinWith: "set (joinWith c xs) \<subseteq> insert c (\<Union> (set ` set xs))"
  by (induction c xs rule: joinWith.induct) auto

lemma cutOn_spec:
  "cutOn c s = (b, a, f) \<Longrightarrow>
   c \<notin> set b \<and> (if f then s = b @ c # a else b = s \<and> a = [])"
proof (induction s arbitrary: b a f)
  case Nil
  then show ?case by simp
next
  case (Cons x s)
  then show ?case by (cases "cutOn c s") (auto split: if_splits)
qed

text \<open>On two ASCII strings, \<open>EqualFold\<close> is equality of the folded strings.\<close>

lemma equalFold_ascii:
  "isASCII s \<Longrightarrow> equalFold s t \<longleftrightarrow> map lower_byte s = map lower_byte t"
  by (induction s t rule: equalFold.induct) (auto simp: isASCII_def)

text \<open>A fold match never makes the matched text shorter than the ASCII pattern.\<close>

lemma equalFold_length: "equalFold s t \<Longrightarrow> length t \<le> length s"
proof (induction s t rule: equalFold.induct)
  case (3 x s y t)
  then show ?case by (auto simp: Suc_le_eq neq_Nil_conv split: if_splits)
qed auto

text \<open>
  Where the code also compares the lengths, only the ASCII cases of a letter match: a wider
  code point would make the text longer than the pattern.
\<close>

lemma equalFold_same_length:
  "length s = length t \<Longrightarrow> equalFold s t \<Longrightarrow> map lower_byte s = map lower_byte t"
proof (induction s t rule: equalFold.induct)
  case (3 x s y t)
  show ?case
  proof (cases "byte x < 128")
    case True
    with 3 show ?thesis by simp
  next
    case False
    from False 3 have "equalFold (tl s) t \<and> s \<noteq> [] \<or> equalFold (drop 2 s) t \<and> 2 \<le> length s"
      by (auto split: if_splits)
    then have "length t < length s"
      by (auto dest!: equalFold_length simp: neq_Nil_conv)
    with 3 show ?thesis by simp
  qed
qed auto

section \<open>Decimal numbers\<close>

lemma is_digit_digit [simp]: "n < 10 \<Longrightarrow> is_digit (digit n)"
  by (simp add: is_digit_def digit_def)

lemma byte_digit [simp]: "n < 10 \<Longrightarrow> byte (digit n) = 48 + n"
  by (simp add: digit_def)

lemma FormatUint_digits: "c \<in> set (FormatUint n) \<Longrightarrow> is_digit c"
proof (induction n rule: FormatUint.induct)
  case (1 n)
  then show ?case
    by (cases "n < 10") (auto simp: FormatUint.simps [of n])
qed

lemma FormatUint_not_Nil [simp]: "FormatUint n \<noteq> []"
  by (subst FormatUint.simps) simp

lemma digits_val_append:
  "digits_val acc (xs @ ys) =
     (case digits_val acc xs of None \<Rightarrow> None | Some v \<Rightarrow> digits_val v ys)"
  by (induction xs arbitrary: acc) auto

lemma digits_val_FormatUint: "digits_val 0 (FormatUint n) = Some n"
proof (induction n rule: FormatUint.induct)
  case (1 n)
  show ?case
  proof (cases "n < 10")
    case True
    then show ?thesis by (simp add: FormatUint.simps [of n])
  next
    case False
    with 1 show ?thesis by (simp add: FormatUint.simps [of n] digits_val_append)
  qed
qed

lemma ParseUint_FormatUint: "n < 2 ^ bits \<Longrightarrow> ParseUint bits (FormatUint n) = Some n"
  by (simp add: ParseUint_def digits_val_FormatUint)

lemma FormatUint_inject [simp]: "FormatUint m = FormatUint n \<longleftrightarrow> m = n"
  by (metis digits_val_FormatUint option.inject)

lemma ParseUint_bound: "ParseUint bits s = Some n \<Longrightarrow> n < 2 ^ bits"
  by (auto simp: ParseUint_def split: if_splits option.splits)

text \<open>No leading zero, so the decimal form is canonical.\<close>

lemma FormatUint_hd: "0 < n \<Longrightarrow> hd (FormatUint n) \<noteq> CHR ''0''"
proof (induction n rule: FormatUint.induct)
  case (1 n)
  show ?case
  proof (cases "n < 10")
    case True
    have "digit n \<noteq> CHR ''0''"
    proof
      assume "digit n = CHR ''0''"
      then have "byte (digit n) = 48" by simp
      with True 1 show False by simp
    qed
    with True show ?thesis by (simp add: FormatUint.simps [of n])
  next
    case False
    with 1 show ?thesis by (simp add: FormatUint.simps [of n])
  qed
qed

section \<open>Truncation on a code-point boundary\<close>

lemma contMask_iff: "contMask c \<longleftrightarrow> is_cont c"
proof -
  have "\<forall>n < 256. ((of_nat n :: u8) AND 0xC0 = 0x80) = (128 \<le> n \<and> n < (192::nat))"
    by code_simp
  then show ?thesis by (simp add: contMask_def)
qed

lemma backUp_le: "backUp s e \<le> e"
  by (induction e) (auto intro: le_SucI)

lemma backUp_boundary: "backUp s e = 0 \<or> \<not> contMask (s ! backUp s e)"
  by (induction e) auto

lemma backUp_skipped: "backUp s e < i \<Longrightarrow> i \<le> e \<Longrightarrow> contMask (s ! i)"
proof (induction e)
  case (Suc e)
  then show ?case by (cases "i = Suc e") (auto split: if_splits)
qed simp

lemma truncateBytes_length: "length (truncateBytes s mx) \<le> mx"
  using backUp_le [of s mx] by (auto simp: truncateBytes_def)

lemma truncateBytes_prefix: "prefix (truncateBytes s mx) s"
  by (simp add: truncateBytes_def take_is_prefix)

lemma ownedTruncate_eq: "ownedTruncate s mx = truncateBytes s mx"
  by (simp add: ownedTruncate_def truncateBytes_def)

lemma truncateBytes_id [simp]: "length s \<le> mx \<Longrightarrow> truncateBytes s mx = s"
  by (simp add: truncateBytes_def)

text \<open>The first code point of a string, and the bytes after its lead byte.\<close>

lemma decodeRune_cases:
  assumes "decodeRune s = Some (r, n)"
  obtains (one) a t where "s = a # t" "n = 1" "byte a < 128" "r = byte a"
  | (two) a b t where "s = a # b # t" "n = 2" "194 \<le> byte a" "byte a < 224" "is_cont b"
      "r = (byte a - 192) * 64 + (byte b - 128)"
  | (three) a b c t where "s = a # b # c # t" "n = 3" "224 \<le> byte a" "byte a < 240"
      "is_cont b" "is_cont c" "r = (byte a - 224) * 4096 + (byte b - 128) * 64 + (byte c - 128)"
  | (four) a b c d t where "s = a # b # c # d # t" "n = 4" "240 \<le> byte a" "byte a < 245"
      "is_cont b" "is_cont c" "is_cont d" "65536 \<le> r"
proof (cases s)
  case Nil
  with assms show ?thesis by simp
next
  case (Cons a t)
  consider "byte a < 128" | "194 \<le> byte a" "byte a < 224" | "224 \<le> byte a" "byte a < 240"
    | "240 \<le> byte a" "byte a < 245"
    using assms Cons by (auto split: if_splits)
  then show ?thesis
  proof cases
    case 1
    with assms Cons show ?thesis by (intro one) auto
  next
    case 2
    with assms Cons show ?thesis by (cases t) (auto intro: two split: if_splits)
  next
    case 3
    with assms Cons show ?thesis by (auto intro: three split: if_splits list.splits)
  next
    case 4
    with assms Cons obtain b c d u where t: "t = b # c # d # u"
      "is_cont b" "is_cont c" "is_cont d" "byte a = 240 \<longrightarrow> 144 \<le> byte b" "n = 4"
      "r = (byte a - 240) * 262144 + (byte b - 128) * 4096 + (byte c - 128) * 64 + (byte d - 128)"
      by (auto split: if_splits list.splits)
    have "65536 \<le> r"
    proof (cases "byte a = 240")
      case True
      with t have "16 * 4096 \<le> (byte b - 128) * 4096" by (intro mult_le_mono1) auto
      with t show ?thesis by linarith
    next
      case False
      with 4 have "1 * 262144 \<le> (byte a - 240) * 262144" by (intro mult_le_mono1) auto
      with t show ?thesis by linarith
    qed
    with 4 t Cons show ?thesis using four [of a b c d u] by simp
  qed
qed

lemma decodeRune_prefix:
  "decodeRune s = Some (r, n) \<Longrightarrow> decodeRune (take n s @ t) = Some (r, n)"
  by (rule decodeRune_cases, assumption) auto

lemma decodeRune_take:
  assumes "decodeRune s = Some (r, n)" and "n \<le> k"
  shows "decodeRune (take k s) = Some (r, n)"
proof -
  have "take k s = take n s @ take (k - n) (drop n s)"
    using assms(2) by (metis le_add_diff_inverse take_add)
  then show ?thesis using decodeRune_prefix [OF assms(1)] by simp
qed

lemma decodeRune_lead: "decodeRune s = Some (r, n) \<Longrightarrow> \<not> is_cont (s ! 0)"
  by (rule decodeRune_cases, assumption) auto

lemma decodeRune_conts:
  assumes "decodeRune s = Some (r, n)" and "0 < i" and "i < n"
  shows "is_cont (s ! i)"
proof -
  have "n \<le> 4" using decodeRune_width [OF assms(1)] by simp
  with assms(2,3) have "i = 1 \<or> i = 2 \<or> i = 3" by auto
  with assms show ?thesis
    by (elim disjE; elim decodeRune_cases) auto
qed

lemma ValidString_Nil [simp]: "ValidString []"
  by (subst ValidString.simps) simp

lemma ValidString_step:
  "s \<noteq> [] \<Longrightarrow> ValidString s \<Longrightarrow>
   \<exists>r n. decodeRune s = Some (r, n) \<and> ValidString (drop n s)"
  by (subst (asm) ValidString.simps) (auto simp: runeWidth_def)

lemma ValidString_take:
  "ValidString s \<Longrightarrow> e \<le> length s \<Longrightarrow> e = 0 \<or> e = length s \<or> \<not> is_cont (s ! e) \<Longrightarrow>
   ValidString (take e s)"
proof (induction "length s" arbitrary: s e rule: less_induct)
  case less
  show ?case
  proof (cases "s = [] \<or> e = 0")
    case True
    then show ?thesis by auto
  next
    case False
    then obtain r n where dr: "decodeRune s = Some (r, n)" and rest: "ValidString (drop n s)"
      using less.prems ValidString_step by blast
    from decodeRune_width [OF dr] have n: "0 < n" "n \<le> length s" by auto
    have "n \<le> e"
    proof (rule ccontr)
      assume "\<not> n \<le> e"
      then have "is_cont (s ! e)" using decodeRune_conts [OF dr] False by simp
      with less.prems(3) False n \<open>\<not> n \<le> e\<close> show False by simp
    qed
    have "drop n s ! (e - n) = s ! e"
      using \<open>n \<le> e\<close> n by simp
    then have "e - n = 0 \<or> e - n = length (drop n s) \<or> \<not> is_cont (drop n s ! (e - n))"
      using less.prems(3) False by (metis length_drop)
    then have "ValidString (take (e - n) (drop n s))"
      using less.hyps [of "drop n s" "e - n"] n rest less.prems(2) False by simp
    moreover have "decodeRune (take e s) = Some (r, n)"
      using dr \<open>n \<le> e\<close> by (rule decodeRune_take)
    moreover have "drop n (take e s) = take (e - n) (drop n s)"
      by (simp add: drop_take)
    ultimately show ?thesis
      using False by (subst ValidString.simps) (simp add: runeWidth_def)
  qed
qed

lemma ValidString_lead_near:
  "ValidString s \<Longrightarrow> e < length s \<Longrightarrow> \<exists>j \<le> e. e \<le> j + 3 \<and> \<not> is_cont (s ! j)"
proof (induction "length s" arbitrary: s e rule: less_induct)
  case less
  then have "s \<noteq> []" by auto
  then obtain r n where dr: "decodeRune s = Some (r, n)" and rest: "ValidString (drop n s)"
    using less.prems ValidString_step by blast
  from decodeRune_width [OF dr] have n: "0 < n" "n \<le> 4" "n \<le> length s" by auto
  show ?case
  proof (cases "e < n")
    case True
    then have "0 \<le> e" and "e \<le> 0 + 3" and "\<not> is_cont (s ! 0)"
      using n decodeRune_lead [OF dr] by auto
    then show ?thesis by blast
  next
    case False
    then obtain j where "j \<le> e - n" "e - n \<le> j + 3" "\<not> is_cont (drop n s ! j)"
      using less.hyps [of "drop n s" "e - n"] n rest less.prems(2) by force
    then have "n + j \<le> e" "e \<le> (n + j) + 3" "\<not> is_cont (s ! (n + j))"
      using False n less.prems(2) by auto
    then show ?thesis by blast
  qed
qed

lemma truncateBytes_valid:
  assumes "ValidString s"
  shows "ValidString (truncateBytes s mx)"
proof (cases "length s \<le> mx")
  case True
  with assms show ?thesis by simp
next
  case False
  then have le: "backUp s mx \<le> length s" using backUp_le [of s mx] by simp
  have "backUp s mx = 0 \<or> \<not> is_cont (s ! backUp s mx)"
    using backUp_boundary [of s mx] unfolding contMask_iff .
  with assms le have "ValidString (take (backUp s mx) s)"
    by (intro ValidString_take) auto
  with False show ?thesis by (simp add: truncateBytes_def)
qed

lemma truncateBytes_keeps:
  assumes "ValidString s" and "mx < length s"
  shows "mx \<le> length (truncateBytes s mx) + 3"
proof -
  obtain j where j: "j \<le> mx" "mx \<le> j + 3" "\<not> is_cont (s ! j)"
    using ValidString_lead_near [OF assms] by auto
  have "j \<le> backUp s mx"
    using backUp_skipped [of s mx j] j contMask_iff by (meson not_le_imp_less)
  then have "mx \<le> backUp s mx + 3" using j by simp
  moreover have "length (truncateBytes s mx) = backUp s mx"
    using assms(2) backUp_le [of s mx] by (simp add: truncateBytes_def)
  ultimately show ?thesis by simp
qed

declare decodeRune.simps [simp del]

lemma decodeRune_ascii [simp]: "byte c < 128 \<Longrightarrow> decodeRune (c # s) = Some (byte c, 1)"
  by (simp add: decodeRune.simps)

lemma chr_eq_iff: "n < 256 \<Longrightarrow> chr n = c \<longleftrightarrow> n = byte c"
  by (metis byte_chr chr_byte)

end
