(* ===== verification/Json.thy ===== *)
theory Json
  imports Go_Text
begin

text \<open>
  The JSON text the row encoders emit.  First the string writer of app.go
  (\<open>writeString\<close>, \<open>needsJSONEscape\<close>, \<open>jsonEscape\<close>), with \<open>encoding/json\<close>'s escaping of a
  string; then a JSON reader, the specification against which the writers are proved: it
  reads back every string with each invalid UTF-8 byte as U+FFFD, and every flat object.
\<close>

abbreviation dq :: char where "dq \<equiv> CHR 0x22"

abbreviation bs :: char where "bs \<equiv> CHR 0x5C"

abbreviation nl :: char where "nl \<equiv> CHR 0x0A"

section \<open>The string writer\<close>

definition needsJSONEscape :: "string \<Rightarrow> bool" where
  "needsJSONEscape s = list_ex (\<lambda>c. byte c < 32 \<or> c = dq \<or> c = bs \<or> 128 \<le> byte c) s"

definition hexdig :: "nat \<Rightarrow> char" where
  "hexdig n = (if n < 10 then chr (48 + n) else chr (87 + n))"

text \<open>What \<open>json.Marshal\<close> writes for one ASCII byte of a string, HTML escaping on.\<close>

definition escByte :: "char \<Rightarrow> string" where
  "escByte c =
     (if c = bs \<or> c = dq then [bs, c]
      else if byte c = 8 then bs # ''b''
      else if byte c = 12 then bs # ''f''
      else if byte c = 10 then bs # ''n''
      else if byte c = 13 then bs # ''r''
      else if byte c = 9 then bs # ''t''
      else if byte c < 32 \<or> c = CHR ''<'' \<or> c = CHR ''>'' \<or> c = CHR ''&''
        then bs # ''u00'' @ [hexdig (byte c div 16), hexdig (byte c mod 16)]
      else [c])"

function jsonBody :: "string \<Rightarrow> string" where
  "jsonBody [] = []"
| "jsonBody (c # s) =
     (if byte c < 128 then escByte c @ jsonBody s
      else case decodeRune (c # s) of
        None \<Rightarrow> bs # ''ufffd'' @ jsonBody s
      | Some (r, n) \<Rightarrow>
          (if r = 8232 \<or> r = 8233 then bs # ''u202'' @ [hexdig (r mod 16)] else take n (c # s))
          @ jsonBody (drop (n - 1) s))"
  by pat_completeness auto
termination
  by (relation "measure length") auto

definition jsonEscape :: "string \<Rightarrow> string" where
  "jsonEscape s = dq # jsonBody s @ [dq]"

text \<open>The value part of \<open>writeString\<close>, shared with \<open>writeStringArray\<close>.\<close>

definition jsonValue :: "string \<Rightarrow> string" where
  "jsonValue s = (if needsJSONEscape s then jsonEscape s else dq # s @ [dq])"

definition writeString :: "string \<Rightarrow> string \<Rightarrow> string" where
  "writeString key val = dq # key @ [dq, CHR '':''] @ jsonValue val"

definition writeUint16 :: "string \<Rightarrow> u16 \<Rightarrow> string" where
  "writeUint16 key n = dq # key @ [dq, CHR '':''] @ FormatUint (unat n)"

definition writeUint32 :: "string \<Rightarrow> u32 \<Rightarrow> string" where
  "writeUint32 key n = dq # key @ [dq, CHR '':''] @ FormatUint (unat n)"

definition writeUint64 :: "string \<Rightarrow> u64 \<Rightarrow> string" where
  "writeUint64 key n = dq # key @ [dq, CHR '':''] @ FormatUint (unat n)"

definition writeInt64 :: "string \<Rightarrow> int \<Rightarrow> string" where
  "writeInt64 key n = dq # key @ [dq, CHR '':''] @ FormatInt n"

definition writeStringArray :: "string \<Rightarrow> string list \<Rightarrow> string" where
  "writeStringArray key vals =
     dq # key @ [dq, CHR '':'', CHR ''[''] @ joinWith (CHR '','') (map jsonValue vals) @ '']''"

section \<open>A JSON reader\<close>

definition unhex :: "char \<Rightarrow> nat option" where
  "unhex c = (if is_digit c then Some (byte c - 48)
              else if 97 \<le> byte c \<and> byte c \<le> 102 then Some (byte c - 87)
              else if 65 \<le> byte c \<and> byte c \<le> 70 then Some (byte c - 55) else None)"

definition hex4 :: "char \<Rightarrow> char \<Rightarrow> char \<Rightarrow> char \<Rightarrow> nat option" where
  "hex4 a b c d = (case (unhex a, unhex b, unhex c, unhex d) of
      (Some w, Some x, Some y, Some z) \<Rightarrow> Some (((w * 16 + x) * 16 + y) * 16 + z)
    | _ \<Rightarrow> None)"

text \<open>UTF-8 of a code point of the basic plane.\<close>

definition utf8enc :: "nat \<Rightarrow> string" where
  "utf8enc r = (if r < 128 then [chr r]
                else if r < 2048 then [chr (192 + r div 64), chr (128 + r mod 64)]
                else [chr (224 + r div 4096), chr (128 + r div 64 mod 64), chr (128 + r mod 64)])"

definition unescape :: "char \<Rightarrow> char option" where
  "unescape e = (if e = dq \<or> e = bs \<or> e = CHR ''/'' then Some e
                 else if e = CHR ''b'' then Some (CHR 0x08) else if e = CHR ''f'' then Some (CHR 0x0C)
                 else if e = CHR ''n'' then Some (CHR 0x0A) else if e = CHR ''r'' then Some (CHR 0x0D)
                 else if e = CHR ''t'' then Some (CHR 0x09) else None)"

text \<open>The text of a JSON string after its opening quote, and what follows the closing one.\<close>

fun readStr :: "string \<Rightarrow> (string \<times> string) option" where
  "readStr [] = None"
| "readStr (c # s) =
     (if c = dq then Some ([], s)
      else if c = bs then
        (case s of
           [] \<Rightarrow> None
         | e # t \<Rightarrow>
             if e = CHR ''u'' then
               (case t of
                  w # x # y # z # t' \<Rightarrow>
                    (case hex4 w x y z of
                       None \<Rightarrow> None
                     | Some r \<Rightarrow> if 55296 \<le> r \<and> r < 57344 then None
                                 else map_option (apfst ((@) (utf8enc r))) (readStr t'))
                | _ \<Rightarrow> None)
             else (case unescape e of
                     None \<Rightarrow> None
                   | Some d \<Rightarrow> map_option (apfst (Cons d)) (readStr t)))
      else if byte c < 32 then None
      else map_option (apfst (Cons c)) (readStr s))"

text \<open>What a reader of the wire sees of a Go string: each invalid byte is U+FFFD.\<close>

function sanitize :: "string \<Rightarrow> string" where
  "sanitize [] = []"
| "sanitize (c # s) =
     (case decodeRune (c # s) of
        None \<Rightarrow> [CHR 0xEF, CHR 0xBF, CHR 0xBD] @ sanitize s
      | Some (r, n) \<Rightarrow> take n (c # s) @ sanitize (drop (n - 1) s))"
  by pat_completeness auto
termination
  by (relation "measure length") auto

section \<open>Reading back a string\<close>

lemma unhex_hexdig: "n < 16 \<Longrightarrow> unhex (hexdig n) = Some n"
  by (auto simp: unhex_def hexdig_def is_digit_def)

lemma unhex_lits [simp]:
  "unhex (CHR ''0'') = Some 0" "unhex (CHR ''2'') = Some 2"
  "unhex (CHR ''f'') = Some 15" "unhex (CHR ''d'') = Some 13"
  by (simp_all add: unhex_def is_digit_def)

lemma byte_eq_char: "byte c = byte d \<Longrightarrow> c = d"
  by simp

lemma readStr_escByte:
  assumes "byte c < 128"
  shows "readStr (escByte c @ t) = map_option (apfst (Cons c)) (readStr t)"
proof (cases "byte c \<in> {8, 12, 10, 13, 9}")
  case True
  then have "c \<in> {CHR 0x08, CHR 0x0C, CHR 0x0A, CHR 0x0D, CHR 0x09}"
    by (auto intro!: byte_eq_char)
  then show ?thesis by (auto simp: escByte_def unescape_def)
next
  case ordinary: False
  have "byte c div 16 < 16" using assms by simp
  then have hex: "hex4 (CHR ''0'') (CHR ''0'') (hexdig (byte c div 16)) (hexdig (byte c mod 16))
      = Some (byte c)"
    by (simp add: hex4_def unhex_hexdig)
  consider "c = bs \<or> c = dq" | "c \<noteq> bs" "c \<noteq> dq"
      "byte c < 32 \<or> c = CHR ''<'' \<or> c = CHR ''>'' \<or> c = CHR ''&''"
    | "c \<noteq> bs" "c \<noteq> dq" "\<not> (byte c < 32 \<or> c = CHR ''<'' \<or> c = CHR ''>'' \<or> c = CHR ''&'')"
    by blast
  then show ?thesis
  proof cases
    case 1
    then show ?thesis by (auto simp: escByte_def unescape_def)
  next
    case 2
    with ordinary have "escByte c = bs # ''u00'' @ [hexdig (byte c div 16), hexdig (byte c mod 16)]"
      by (simp add: escByte_def)
    then show ?thesis using assms hex by (cases "readStr t") (simp_all add: utf8enc_def)
  next
    case 3
    with ordinary have "escByte c = [c]" by (simp add: escByte_def)
    with 3 show ?thesis by simp
  qed
qed

lemma readStr_high:
  "\<forall>c \<in> set x. 128 \<le> byte c \<Longrightarrow> readStr (x @ t) = map_option (apfst ((@) x)) (readStr t)"
proof (induction x)
  case Nil
  then show ?case by (cases "readStr t") auto
next
  case (Cons c x)
  from Cons.prems have "c \<noteq> dq" "c \<noteq> bs" "\<not> byte c < 32" by auto
  with Cons show ?case by (simp add: option.map_comp o_def apfst_def map_prod_def case_prod_beta)
qed

lemma readStr_plain:
  "\<not> needsJSONEscape s \<Longrightarrow> readStr (s @ dq # rest) = Some (s, rest)"
  by (induction s) (auto simp: needsJSONEscape_def)

lemma decodeRune_high:
  assumes "decodeRune (c # s) = Some (r, n)" and "128 \<le> byte c"
  shows "\<forall>x \<in> set (take n (c # s)). 128 \<le> byte x"
  using assms(1) by (cases rule: decodeRune_cases) (use assms(2) in auto)

lemma decodeRune_separator:
  assumes "decodeRune s = Some (r, n)" and "r = 8232 \<or> r = 8233"
  shows "take n s = utf8enc r"
  using assms(1)
proof (cases rule: decodeRune_cases)
  case (two a b t)
  have "(byte a - 192) * 64 \<le> 31 * 64" using two by (intro mult_le_mono1) auto
  with two assms(2) show ?thesis by auto
next
  case (three a b c t)
  define x y z where "x = byte a - 224" and "y = byte b - 128" and "z = byte c - 128"
  have "x * 4096 + y * 64 + z = r" "y < 64" "z < 64"
    using three by (auto simp: x_def y_def z_def)
  moreover from this have "x = 2"
    using assms(2) by linarith
  moreover from calculation have "y = 0"
    using assms(2) by linarith
  ultimately have "byte a = 226" "byte b = 128" "byte c = r - 8064"
    using three assms(2) by (auto simp: x_def y_def z_def)
  then have "a = chr 226" "b = chr 128" "c = chr (r - 8064)"
    by (metis chr_byte)+
  moreover have "utf8enc r = [chr 226, chr 128, chr (r - 8064)]"
    using assms(2) by (auto simp: utf8enc_def)
  ultimately show ?thesis using three by simp
qed (use assms(2) in auto)

theorem readStr_jsonBody: "readStr (jsonBody s @ dq # rest) = Some (sanitize s, rest)"
proof (induction s rule: jsonBody.induct)
  case 1
  then show ?case by simp
next
  case (2 c s)
  show ?case
  proof (cases "byte c < 128")
    case True
    with 2 show ?thesis by (simp add: readStr_escByte)
  next
    case False
    then have hi: "128 \<le> byte c" by simp
    show ?thesis
    proof (cases "decodeRune (c # s)")
      case None
      with False 2 show ?thesis by (simp add: hex4_def utf8enc_def chr_eq_iff)
    next
      case (Some rn)
      then obtain r n where dr: "decodeRune (c # s) = Some (r, n)" by (cases rn) auto
      have IH: "readStr (jsonBody (drop (n - 1) s) @ dq # rest)
          = Some (sanitize (drop (n - 1) s), rest)"
        using 2(3) [OF False dr refl] by simp
      show ?thesis
      proof (cases "r = 8232 \<or> r = 8233")
        case True
        have "take n (c # s) = utf8enc r" using decodeRune_separator [OF dr True] .
        moreover have "hex4 (CHR ''2'') (CHR ''0'') (CHR ''2'') (hexdig (r mod 16)) = Some r"
          using True by (auto simp: hex4_def unhex_hexdig)
        ultimately show ?thesis
          using False dr IH True by (auto simp del: take_Suc_Cons)
      next
        case other: False
        have "readStr (take n (c # s) @ jsonBody (drop (n - 1) s) @ dq # rest)
            = Some (take n (c # s) @ sanitize (drop (n - 1) s), rest)"
          using readStr_high [OF decodeRune_high [OF dr hi]] IH by simp
        with False dr other show ?thesis by simp
      qed
    qed
  qed
qed

lemma sanitize_ascii: "\<forall>c \<in> set s. byte c < 128 \<Longrightarrow> sanitize s = s"
  by (induction s) auto

lemma readStr_jsonValue: "readStr (tl (jsonValue s) @ rest) = Some (sanitize s, rest)"
proof (cases "needsJSONEscape s")
  case True
  then show ?thesis by (simp add: jsonValue_def jsonEscape_def readStr_jsonBody)
next
  case False
  then have "\<forall>c \<in> set s. byte c < 128"
    unfolding needsJSONEscape_def list_ex_iff by (meson not_le_imp_less)
  then have "sanitize s = s" by (rule sanitize_ascii)
  with False show ?thesis by (simp add: jsonValue_def readStr_plain)
qed

lemma sanitize_valid: "ValidString s \<Longrightarrow> sanitize s = s"
proof (induction s rule: sanitize.induct)
  case 1
  then show ?case by simp
next
  case (2 c s)
  then obtain r n where dr: "decodeRune (c # s) = Some (r, n)" "ValidString (drop n (c # s))"
    using ValidString_step by blast
  then obtain m where m: "n = Suc m" using decodeRune_width [OF dr(1)] by (cases n) auto
  have "sanitize (drop m s) = drop m s"
    using "2.IH"(2) [OF dr(1) refl] dr(2) m by simp
  with dr(1) m show ?case by simp
qed

end
