(* ===== verification/Json_Object.thy ===== *)
theory Json_Object
  imports Json
begin

text \<open>
  Flat JSON objects: the abstract content of a row, how it is written, a reader for it, and
  the two facts every row encoder rests on: the reader recovers the fields, and the only
  newline of a row is the one that ends it.
\<close>

section \<open>Values and their text\<close>

datatype jscalar = JStr string | JNum int | JTrue

datatype jvalue = JS jscalar | JArr "jscalar list"

type_synonym jfields = "(string \<times> jvalue) list"

fun showScalar :: "jscalar \<Rightarrow> string" where
  "showScalar (JStr s) = jsonValue s"
| "showScalar (JNum n) = FormatInt n"
| "showScalar JTrue = ''true''"

fun showValue :: "jvalue \<Rightarrow> string" where
  "showValue (JS x) = showScalar x"
| "showValue (JArr xs) = ''['' @ joinWith (CHR '','') (map showScalar xs) @ '']''"

definition showField :: "string \<times> jvalue \<Rightarrow> string" where
  "showField f = dq # fst f @ [dq, CHR '':''] @ showValue (snd f)"

definition showRow :: "jfields \<Rightarrow> string" where
  "showRow fs = ''{'' @ joinWith (CHR '','') (map showField fs) @ ''}'' @ [nl]"

section \<open>The reader\<close>

definition readNum :: "string \<Rightarrow> (jscalar \<times> string) option" where
  "readNum s =
     (let neg = (s \<noteq> [] \<and> hd s = CHR ''-''); t = (if neg then tl s else s);
          ds = takeWhile is_digit t
      in case digits_val 0 ds of
           None \<Rightarrow> None
         | Some n \<Rightarrow> if ds = [] then None
                     else Some (JNum (if neg then - int n else int n), dropWhile is_digit t))"

definition readScalar :: "string \<Rightarrow> (jscalar \<times> string) option" where
  "readScalar s =
     (case s of
        [] \<Rightarrow> None
      | c # t \<Rightarrow>
          if c = dq then map_option (apfst JStr) (readStr t)
          else if c = CHR ''t'' then (if prefix ''rue'' t then Some (JTrue, drop 3 t) else None)
          else readNum s)"

fun readElems :: "nat \<Rightarrow> string \<Rightarrow> (jscalar list \<times> string) option" where
  "readElems 0 s = None"
| "readElems (Suc n) s =
     (case readScalar s of
        Some (x, c # t) \<Rightarrow>
          if c = CHR '','' then map_option (apfst (Cons x)) (readElems n t)
          else if c = CHR '']'' then Some ([x], t) else None
      | _ \<Rightarrow> None)"

definition readValue :: "string \<Rightarrow> (jvalue \<times> string) option" where
  "readValue s =
     (case s of
        [] \<Rightarrow> None
      | c # t \<Rightarrow>
          if c = CHR ''['' then
            (if t \<noteq> [] \<and> hd t = CHR '']'' then Some (JArr [], tl t)
             else map_option (apfst JArr) (readElems (length t) t))
          else map_option (apfst JS) (readScalar s))"

fun readFields :: "nat \<Rightarrow> string \<Rightarrow> (jfields \<times> string) option" where
  "readFields 0 s = None"
| "readFields (Suc n) s =
     (if s = [] \<or> hd s \<noteq> dq then None
      else case readStr (tl s) of
        Some (k, c # u) \<Rightarrow>
          if c \<noteq> CHR '':'' then None
          else (case readValue u of
                  Some (v, d # w) \<Rightarrow>
                    if d = CHR '','' then map_option (apfst (Cons (k, v))) (readFields n w)
                    else if d = CHR ''}'' then Some ([(k, v)], w) else None
                | _ \<Rightarrow> None)
      | _ \<Rightarrow> None)"

text \<open>One line of the batch.  The fuel is the length of the text: each field takes a byte.\<close>

definition readRow :: "string \<Rightarrow> jfields option" where
  "readRow s =
     (if s = [] \<or> hd s \<noteq> CHR ''{'' then None
      else case readFields (length s) (tl s) of
        Some (fs, rest) \<Rightarrow> if rest = [nl] then Some fs else None
      | None \<Rightarrow> None)"

text \<open>What the reader sees of a value: strings with invalid bytes replaced.\<close>

fun cleanScalar :: "jscalar \<Rightarrow> jscalar" where
  "cleanScalar (JStr s) = JStr (sanitize s)"
| "cleanScalar x = x"

fun cleanValue :: "jvalue \<Rightarrow> jvalue" where
  "cleanValue (JS x) = JS (cleanScalar x)"
| "cleanValue (JArr xs) = JArr (map cleanScalar xs)"

abbreviation cleanFields :: "jfields \<Rightarrow> jfields" where
  "cleanFields fs \<equiv> map (apsnd cleanValue) fs"

abbreviation plain_keys :: "jfields \<Rightarrow> bool" where
  "plain_keys fs \<equiv> list_all (\<lambda>f. \<not> needsJSONEscape (fst f)) fs"

section \<open>Reading back a row\<close>

lemma takeWhile_digits_stop:
  "rest = [] \<or> \<not> is_digit (hd rest) \<Longrightarrow>
   takeWhile is_digit (FormatUint n @ rest) = FormatUint n
   \<and> dropWhile is_digit (FormatUint n @ rest) = rest"
  by (cases rest) (auto simp: FormatUint_digits)

lemma FormatUint_hd_digit: "is_digit (hd (FormatUint n))"
proof (cases "FormatUint n")
  case (Cons c t)
  then have "c \<in> set (FormatUint n)" by simp
  then have "is_digit c" by (rule FormatUint_digits)
  then show ?thesis using Cons by simp
qed simp

lemma not_digit_lits:
  "\<not> is_digit dq" "\<not> is_digit (CHR ''t'')" "\<not> is_digit (CHR '','')" "\<not> is_digit (CHR '']'')"
  "\<not> is_digit (CHR ''}'')" "\<not> is_digit (CHR ''['')" "\<not> is_digit (CHR ''-'')" "\<not> is_digit nl"
  by (simp_all add: is_digit_def)

lemma FormatUint_not_minus: "hd (FormatUint n) \<noteq> CHR ''-''"
  using FormatUint_hd_digit not_digit_lits(7) by metis

lemma readNum_FormatInt:
  assumes "rest = [] \<or> \<not> is_digit (hd rest)"
  shows "readNum (FormatInt i @ rest) = Some (JNum i, rest)"
  using takeWhile_digits_stop [OF assms] FormatUint_not_minus
  by (simp add: readNum_def FormatInt_def digits_val_FormatUint)

lemma FormatInt_hd:
  "hd (FormatInt i) \<noteq> dq" "hd (FormatInt i) \<noteq> CHR ''t''" "hd (FormatInt i) \<noteq> CHR ''[''"
  "hd (FormatInt i) \<noteq> CHR '']''"
  unfolding FormatInt_def
  using FormatUint_hd_digit [of "nat i"] not_digit_lits by (auto simp del: byte_simps)

lemma FormatInt_not_Nil [simp]: "FormatInt i \<noteq> []"
  by (simp add: FormatInt_def)

lemma jsonValue_shape: "jsonValue s = dq # tl (jsonValue s)"
  by (simp add: jsonValue_def jsonEscape_def)

definition stops :: "string \<Rightarrow> bool" where
  "stops rest = (rest \<noteq> [] \<and> hd rest \<in> {CHR '','', CHR '']'', CHR ''}''})"

lemma stops_not_digit: "stops rest \<Longrightarrow> rest = [] \<or> \<not> is_digit (hd rest)"
  using not_digit_lits by (auto simp: stops_def)

lemma readScalar_show:
  assumes "stops rest"
  shows "readScalar (showScalar x @ rest) = Some (cleanScalar x, rest)"
proof (cases x)
  case (JStr s)
  have "jsonValue s @ rest = dq # (tl (jsonValue s) @ rest)"
    using jsonValue_shape [of s] by (metis append_Cons)
  moreover have "readScalar (dq # (tl (jsonValue s) @ rest))
      = Some (JStr (sanitize s), rest)"
    by (simp add: readScalar_def readStr_jsonValue del: readStr.simps)
  ultimately show ?thesis by (simp only: JStr showScalar.simps cleanScalar.simps)
next
  case (JNum n)
  obtain c t where c: "FormatInt n = c # t" by (cases "FormatInt n") auto
  then have "c \<noteq> dq" "c \<noteq> CHR ''t''" using FormatInt_hd [of n] by auto
  then show ?thesis
    using readNum_FormatInt [OF stops_not_digit [OF assms], of n] JNum c
    by (simp add: readScalar_def)
next
  case JTrue
  then show ?thesis by (simp add: readScalar_def)
qed

lemma readElems_show:
  "xs \<noteq> [] \<Longrightarrow> length xs \<le> n \<Longrightarrow>
   readElems n (joinWith (CHR '','') (map showScalar xs) @ CHR '']'' # rest)
     = Some (map cleanScalar xs, rest)"
proof (induction xs arbitrary: n)
  case Nil
  then show ?case by simp
next
  case (Cons x xs)
  then obtain m where n: "n = Suc m" by (cases n) auto
  show ?case
  proof (cases xs)
    case Nil
    then show ?thesis using readScalar_show [of "CHR '']'' # rest" x]
      by (simp add: n stops_def)
  next
    case (Cons y ys)
    define r where "r = CHR '','' # joinWith (CHR '','') (map showScalar xs) @ CHR '']'' # rest"
    have "stops r" by (simp add: stops_def r_def)
    then have "readScalar (showScalar x @ r) = Some (cleanScalar x, r)"
      by (rule readScalar_show)
    moreover have "readElems m (joinWith (CHR '','') (map showScalar xs) @ CHR '']'' # rest)
        = Some (map cleanScalar xs, rest)"
      using Cons.IH Cons.prems n Cons by simp
    ultimately show ?thesis by (simp add: n Cons r_def)
  qed
qed

lemma showScalar_hd:
  "showScalar x \<noteq> []" "hd (showScalar x) \<noteq> CHR ''[''" "hd (showScalar x) \<noteq> CHR '']''"
  by (cases x; simp add: FormatInt_hd; simp add: jsonValue_def jsonEscape_def)+

lemma length_joinWith_ge:
  "\<forall>x \<in> set xs. x \<noteq> [] \<Longrightarrow> length xs \<le> length (joinWith c xs)"
  by (induction c xs rule: joinWith.induct) (auto simp: Suc_le_eq)

lemma readValue_show:
  assumes "stops rest"
  shows "readValue (showValue v @ rest) = Some (cleanValue v, rest)"
proof (cases v)
  case (JS x)
  obtain c t where c: "showScalar x = c # t" using showScalar_hd(1) by (cases "showScalar x") auto
  then have "c \<noteq> CHR ''[''" using showScalar_hd(2) [of x] by simp
  then show ?thesis using readScalar_show [OF assms, of x] JS c by (simp add: readValue_def)
next
  case (JArr xs)
  show ?thesis
  proof (cases xs)
    case Nil
    then show ?thesis by (simp add: JArr readValue_def)
  next
    case (Cons y ys)
    define body where "body = joinWith (CHR '','') (map showScalar xs)"
    have "length xs \<le> length body"
      using length_joinWith_ge [of "map showScalar xs" "CHR '',''"] showScalar_hd(1)
      by (auto simp: body_def)
    then have "readElems (length (body @ CHR '']'' # rest)) (body @ CHR '']'' # rest)
        = Some (map cleanScalar xs, rest)"
      unfolding body_def using Cons by (intro readElems_show) auto
    moreover have "body \<noteq> []" "hd body \<noteq> CHR '']''"
      using showScalar_hd [of y] by (cases ys; simp add: body_def Cons)+
    ultimately show ?thesis by (simp add: JArr readValue_def flip: body_def)
  qed
qed

lemma readFields_show:
  "fs \<noteq> [] \<Longrightarrow> length fs \<le> n \<Longrightarrow> plain_keys fs \<Longrightarrow>
   readFields n (joinWith (CHR '','') (map showField fs) @ CHR ''}'' # rest)
     = Some (cleanFields fs, rest)"
proof (induction fs arbitrary: n)
  case Nil
  then show ?case by simp
next
  case (Cons f fs)
  obtain k v where f: "f = (k, v)" by (cases f)
  obtain m where n: "n = Suc m" using Cons.prems by (cases n) auto
  have key: "readStr (k @ dq # u) = Some (k, u)" for u
    using Cons.prems f by (simp add: readStr_plain)
  show ?case
  proof (cases fs)
    case Nil
    have "readValue (showValue v @ CHR ''}'' # rest) = Some (cleanValue v, CHR ''}'' # rest)"
      by (rule readValue_show) (simp add: stops_def)
    then show ?thesis by (simp add: n f Nil showField_def key)
  next
    case (Cons g gs)
    define r where "r = joinWith (CHR '','') (map showField fs) @ CHR ''}'' # rest"
    have "readValue (showValue v @ CHR '','' # r) = Some (cleanValue v, CHR '','' # r)"
      by (rule readValue_show) (simp add: stops_def)
    moreover have "readFields m r = Some (cleanFields fs, rest)"
      using Cons.IH Cons.prems n Cons by (simp add: r_def)
    moreover have "joinWith (CHR '','') (map showField (f # fs)) @ CHR ''}'' # rest
        = dq # k @ dq # CHR '':'' # showValue v @ CHR '','' # r"
      using joinWith_Cons [of "map showField fs" "CHR '',''" "showField f"] Cons
      by (simp add: r_def f showField_def)
    ultimately show ?thesis by (simp add: n f key)
  qed
qed

theorem readRow_showRow:
  assumes "fs \<noteq> []" and "plain_keys fs"
  shows "readRow (showRow fs) = Some (cleanFields fs)"
proof -
  have "length fs \<le> length (joinWith (CHR '','') (map showField fs))"
    using length_joinWith_ge [of "map showField fs" "CHR '',''"] by (auto simp: showField_def)
  then have "length fs \<le> length (showRow fs)" by (simp add: showRow_def)
  then have "readFields (length (showRow fs)) (tl (showRow fs)) = Some (cleanFields fs, [nl])"
    using readFields_show [OF assms(1) _ assms(2), of "length (showRow fs)" "[nl]"]
    unfolding showRow_def by (simp only: append_Cons append_Nil list.sel)
  moreover have "showRow fs \<noteq> []" "hd (showRow fs) = CHR ''{''" by (simp_all add: showRow_def)
  ultimately show ?thesis unfolding readRow_def by (simp del: readFields.simps)
qed

section \<open>No newline inside a row\<close>

lemma hexdig_not_nl: "n < 16 \<Longrightarrow> hexdig n \<noteq> nl"
  by (auto simp: hexdig_def chr_eq_iff)

lemma escByte_no_nl: "byte c < 128 \<Longrightarrow> nl \<notin> set (escByte c)"
proof (cases "c = nl")
  case False
  moreover assume "byte c < 128"
  then have "hexdig (byte c div 16) \<noteq> nl" "hexdig (byte c mod 16) \<noteq> nl"
    by (auto intro!: hexdig_not_nl)
  ultimately show ?thesis by (simp add: escByte_def del: of_char_of)
qed (simp add: escByte_def)

lemma jsonBody_no_nl: "nl \<notin> set (jsonBody s)"
proof (induction s rule: jsonBody.induct)
  case 1
  then show ?case by simp
next
  case (2 c s)
  show ?case
  proof (cases "byte c < 128")
    case True
    with 2(1) show ?thesis by (simp add: escByte_no_nl)
  next
    case False
    show ?thesis
    proof (cases "decodeRune (c # s)")
      case None
      with False 2(2) show ?thesis by simp
    next
      case (Some rn)
      then obtain r n where dr: "decodeRune (c # s) = Some (r, n)" by (cases rn) auto
      have "nl \<notin> set (take n (c # s))"
        using decodeRune_high [OF dr] False by force
      moreover have "nl \<notin> set (jsonBody (drop (n - 1) s))"
        using 2(3) [OF False dr refl] .
      moreover have "hexdig (r mod 16) \<noteq> nl" by (rule hexdig_not_nl) simp
      ultimately show ?thesis using False dr by (simp del: take_Suc_Cons)
    qed
  qed
qed

lemma plain_no_nl:
  assumes "\<not> needsJSONEscape s"
  shows "nl \<notin> set s"
proof
  assume "nl \<in> set s"
  moreover have "byte nl < 32" by simp
  ultimately have "needsJSONEscape s" unfolding needsJSONEscape_def list_ex_iff by blast
  with assms show False by contradiction
qed

lemma jsonValue_no_nl: "nl \<notin> set (jsonValue s)"
proof (cases "needsJSONEscape s")
  case True
  then show ?thesis using jsonBody_no_nl [of s] by (simp add: jsonValue_def jsonEscape_def)
next
  case False
  with plain_no_nl [OF False] show ?thesis by (simp add: jsonValue_def)
qed

lemma FormatInt_no_nl: "nl \<notin> set (FormatInt i)"
proof
  assume "nl \<in> set (FormatInt i)"
  then have "is_digit nl" using FormatUint_digits by (auto simp: FormatInt_def split: if_splits)
  then show False using not_digit_lits(8) by contradiction
qed

lemma showScalar_no_nl: "nl \<notin> set (showScalar x)"
  by (cases x) (simp_all add: jsonValue_no_nl FormatInt_no_nl)

lemma joinWith_no_nl [intro]: "c \<noteq> nl \<Longrightarrow> \<forall>x \<in> set xs. nl \<notin> set x \<Longrightarrow> nl \<notin> set (joinWith c xs)"
  using set_joinWith [of c xs] by auto

lemma showValue_no_nl: "nl \<notin> set (showValue v)"
proof (cases v)
  case (JArr xs)
  have "nl \<notin> set (joinWith (CHR '','') (map showScalar xs))"
    using showScalar_no_nl by (intro joinWith_no_nl) auto
  then show ?thesis by (simp add: JArr)
qed (simp add: showScalar_no_nl)

lemma showRow_one_line:
  assumes "plain_keys fs"
  shows "\<exists>line. showRow fs = line @ [nl] \<and> nl \<notin> set line"
proof -
  have "nl \<notin> set (showField f)" if "f \<in> set fs" for f
  proof -
    have "\<not> needsJSONEscape (fst f)" using assms that by (simp add: list_all_iff)
    then have "nl \<notin> set (fst f)" by (rule plain_no_nl)
    then show ?thesis by (simp add: showField_def showValue_no_nl)
  qed
  then have "nl \<notin> set (joinWith (CHR '','') (map showField fs))"
    by (intro joinWith_no_nl) auto
  then show ?thesis by (auto simp: showRow_def)
qed

section \<open>Batches of lines\<close>

text \<open>The receiver: split at newlines, read each line, and nothing may follow the last.\<close>

definition readBatch :: "string \<Rightarrow> jfields list option" where
  "readBatch s =
     (let lines = splitOn nl s
      in if last lines \<noteq> [] then None
         else those (map (\<lambda>l. readRow (l @ [nl])) (butlast lines)))"

definition ndjson :: "string \<Rightarrow> jfields list \<Rightarrow> bool" where
  "ndjson s rows = (s = concat (map showRow rows) \<and> list_all (\<lambda>fs. fs \<noteq> [] \<and> plain_keys fs) rows)"

lemma ndjson_Nil [simp, intro]: "ndjson [] []"
  by (simp add: ndjson_def)

lemma ndjson_append [intro]: "ndjson s xs \<Longrightarrow> ndjson t ys \<Longrightarrow> ndjson (s @ t) (xs @ ys)"
  by (simp add: ndjson_def)

lemma ndjson_concat:
  "(\<And>x. x \<in> set xs \<Longrightarrow> ndjson (f x) (g x)) \<Longrightarrow> ndjson (concat (map f xs)) (concat (map g xs))"
  by (induction xs) auto

lemma readBatch_row:
  assumes "nl \<notin> set line" and "readRow (line @ [nl]) = Some r" and "readBatch s = Some rs"
  shows "readBatch (line @ nl # s) = Some (r # rs)"
  using assms
  by (auto simp: readBatch_def splitOn_append_sep Let_def split: if_splits)

theorem readBatch_ndjson: "ndjson s rows \<Longrightarrow> readBatch s = Some (map cleanFields rows)"
proof (induction rows arbitrary: s)
  case Nil
  then show ?case by (simp add: ndjson_def readBatch_def)
next
  case (Cons fs rows)
  define t where "t = concat (map showRow rows)"
  have fs: "fs \<noteq> []" "plain_keys fs" and s: "s = showRow fs @ t" and t: "ndjson t rows"
    using Cons.prems by (simp_all add: ndjson_def t_def)
  obtain line where line: "showRow fs = line @ [nl]" "nl \<notin> set line"
    using showRow_one_line [OF fs(2)] by blast
  have "readRow (line @ [nl]) = Some (cleanFields fs)"
    using readRow_showRow [OF fs] line(1) by simp
  from readBatch_row [OF line(2) this Cons.IH [OF t]]
  show ?case by (simp add: s line(1))
qed

section \<open>The interface of a row encoder\<close>

locale row_encoder =
  fixes enc :: "'r \<Rightarrow> string" and fields :: "'r \<Rightarrow> jfields"
  assumes enc_fields: "enc r = showRow (fields r)"
    and fields_some: "fields r \<noteq> []"
    and fields_plain: "plain_keys (fields r)"
begin

lemma read_back: "readRow (enc r) = Some (cleanFields (fields r))"
  using readRow_showRow [OF fields_some fields_plain] by (simp add: enc_fields)

lemma one_line: "\<exists>line. enc r = line @ [nl] \<and> nl \<notin> set line"
  using showRow_one_line [OF fields_plain] by (simp add: enc_fields)

lemma row_ndjson: "ndjson (enc r) [fields r]"
  using fields_some fields_plain by (simp add: ndjson_def enc_fields)

lemma rows_ndjson: "ndjson (concat (map enc rs)) (map fields rs)"
  using ndjson_concat [of rs enc "\<lambda>r. [fields r]"] row_ndjson by simp

end

end
