(* ===== verification/Timestamps.thy ===== *)
theory Timestamps
  imports Json
begin

text \<open>
  The timestamps and padded names of the wire (event.go, coraza\_event.go): \<open>formatTs\<close> and
  \<open>formatTsSec\<close> render a minute or second since 1970 as RFC 3339 in UTC, \<open>histKey\<close> names a
  latency bucket.  The calendar walk of \<open>Time.Format\<close> is written out, and the rendering is
  proved injective: two different minutes never share a text, so the receiver never merges
  the rows of two minutes.
\<close>

section \<open>Zero padding (event.go)\<close>

function padTo :: "string \<Rightarrow> nat \<Rightarrow> string" where
  "padTo s width = (if length s < width then padTo (CHR ''0'' # s) width else s)"
  by pat_completeness auto
termination
  by (relation "measure (\<lambda>(s, w). w - length s)") auto

declare padTo.simps [simp del]

definition leftPadInt :: "nat \<Rightarrow> nat \<Rightarrow> string" where
  "leftPadInt n width = padTo (FormatUint n) width"

definition histKeyTable :: "string list" where
  "histKeyTable = map (\<lambda>i. ''lat_b'' @ leftPadInt i 2) [0..<16]"

definition histKey :: "nat \<Rightarrow> string" where
  "histKey i = histKeyTable ! i"

section \<open>The calendar\<close>

definition leap :: "nat \<Rightarrow> bool" where
  "leap y = (y mod 4 = 0 \<and> (y mod 100 \<noteq> 0 \<or> y mod 400 = 0))"

definition ylen :: "nat \<Rightarrow> nat" where
  "ylen y = (if leap y then 366 else 365)"

definition monthLens :: "nat \<Rightarrow> nat list" where
  "monthLens y = [31, if leap y then 29 else 28, 31, 30, 31, 30, 31, 31, 30, 31, 30, 31]"

function civilYear :: "nat \<Rightarrow> nat \<Rightarrow> nat \<times> nat" where
  "civilYear y d = (if d < ylen y then (y, d) else civilYear (y + 1) (d - ylen y))"
  by pat_completeness auto
termination
  by (relation "measure snd") (auto simp: ylen_def split: if_splits)

declare civilYear.simps [simp del]

fun findMonth :: "nat list \<Rightarrow> nat \<Rightarrow> nat \<Rightarrow> nat \<times> nat" where
  "findMonth [] m d = (m, d)"
| "findMonth (l # ls) m d = (if d < l then (m, d) else findMonth ls (m + 1) (d - l))"

text \<open>\<open>time.Unix(sec, 0).UTC().Format(time.RFC3339)\<close> for a second not before 1970.\<close>

definition formatUnix :: "nat \<Rightarrow> string" where
  "formatUnix sec =
     (let days = sec div 86400; s = sec mod 86400;
          yd = civilYear 1970 days;
          md = findMonth (monthLens (fst yd)) 1 (snd yd)
      in leftPadInt (fst yd) 4 @ ''-'' @ leftPadInt (fst md) 2 @ ''-'' @ leftPadInt (snd md + 1) 2
         @ ''T'' @ leftPadInt (s div 3600) 2 @ '':'' @ leftPadInt (s div 60 mod 60) 2
         @ '':'' @ leftPadInt (s mod 60) 2 @ ''Z'')"

definition formatTs :: "u32 \<Rightarrow> string" where
  "formatTs unixMin = formatUnix (unat unixMin * 60)"

definition formatTsSec :: "u32 \<Rightarrow> string" where
  "formatTsSec unixSec = formatUnix (unat unixSec)"

section \<open>Padding\<close>

lemma padTo_eq: "padTo s w = replicate (w - length s) (CHR ''0'') @ s"
proof (induction s w rule: padTo.induct)
  case (1 s width)
  show ?case
  proof (cases "length s < width")
    case True
    then have "padTo s width
        = replicate (width - length (CHR ''0'' # s)) (CHR ''0'') @ CHR ''0'' # s"
      by (subst padTo.simps) (simp add: "1.IH")
    also have "\<dots> = replicate (Suc (width - length (CHR ''0'' # s))) (CHR ''0'') @ s"
      by (simp add: replicate_app_Cons_same)
    also have "Suc (width - length (CHR ''0'' # s)) = width - length s" using True by simp
    finally show ?thesis .
  next
    case False
    then show ?thesis by (subst padTo.simps) simp
  qed
qed

lemma is_digit_zero [simp]: "is_digit (CHR ''0'')"
  by (simp add: is_digit_def)

lemma leftPadInt_digits: "c \<in> set (leftPadInt n w) \<Longrightarrow> is_digit c"
  using FormatUint_digits by (auto simp: leftPadInt_def padTo_eq)

lemma digits_val_zeros: "digits_val 0 (replicate k (CHR ''0'') @ s) = digits_val 0 s"
  by (induction k) simp_all

lemma digits_val_leftPadInt: "digits_val 0 (leftPadInt n w) = Some n"
  by (simp add: leftPadInt_def padTo_eq digits_val_zeros digits_val_FormatUint)

lemma leftPadInt_append_inject:
  assumes "leftPadInt a w @ c # x = leftPadInt b v @ c # y" and "\<not> is_digit c"
  shows "a = b \<and> x = y"
proof -
  have cut: "takeWhile is_digit (leftPadInt n u @ c # z) = leftPadInt n u"
    "dropWhile is_digit (leftPadInt n u @ c # z) = c # z" for n u z
    using assms(2) leftPadInt_digits by simp_all
  have "leftPadInt a w = leftPadInt b v"
    using arg_cong [OF assms(1), of "takeWhile is_digit"] by (simp add: cut)
  then have "a = b" by (metis digits_val_leftPadInt option.inject)
  moreover have "c # x = c # y"
    using arg_cong [OF assms(1), of "dropWhile is_digit"] by (simp add: cut)
  ultimately show ?thesis by simp
qed

lemma leftPadInt_inject: "leftPadInt a w = leftPadInt b v \<Longrightarrow> a = b"
  by (metis digits_val_leftPadInt option.inject)

lemma digit_plain: "is_digit c \<Longrightarrow> 32 \<le> byte c \<and> c \<noteq> dq \<and> c \<noteq> bs \<and> byte c < 128"
  by (auto simp: is_digit_def)

lemma needsJSONEscape_append [simp]:
  "needsJSONEscape (s @ t) = (needsJSONEscape s \<or> needsJSONEscape t)"
  by (simp add: needsJSONEscape_def)

lemma leftPadInt_plain: "\<not> needsJSONEscape (leftPadInt n w)"
proof -
  have "\<not> (byte c < 32 \<or> c = dq \<or> c = bs \<or> 128 \<le> byte c)" if "c \<in> set (leftPadInt n w)" for c
    using digit_plain [OF leftPadInt_digits [OF that]] by (simp add: not_le not_less)
  then show ?thesis unfolding needsJSONEscape_def list_ex_iff by blast
qed

lemma histKey_plain: "i < 16 \<Longrightarrow> \<not> needsJSONEscape (histKey i)"
  using leftPadInt_plain [of i 2]
  by (simp add: histKey_def histKeyTable_def) (simp add: needsJSONEscape_def)

section \<open>The calendar walk is invertible\<close>

lemma civilYear_sum:
  "civilYear y d = (y', d') \<Longrightarrow> y \<le> y' \<and> d = (\<Sum>i = y..<y'. ylen i) + d' \<and> d' < ylen y'"
proof (induction y d rule: civilYear.induct)
  case (1 y d)
  show ?case
  proof (cases "d < ylen y")
    case True
    then show ?thesis using "1.prems" by (simp add: civilYear.simps)
  next
    case False
    then have "civilYear (y + 1) (d - ylen y) = (y', d')"
      using "1.prems" by (subst (asm) civilYear.simps) simp
    from "1.IH" [OF False this]
    have *: "Suc y \<le> y'" "d - ylen y = (\<Sum>i = Suc y..<y'. ylen i) + d'" "d' < ylen y'" by auto
    have "(\<Sum>i = y..<y'. ylen i) = ylen y + (\<Sum>i = Suc y..<y'. ylen i)"
      using *(1) by (simp add: sum.atLeast_Suc_lessThan)
    with * False show ?thesis by simp
  qed
qed

lemma findMonth_sum:
  "d < sum_list ls \<Longrightarrow> findMonth ls m d = (m', d') \<Longrightarrow>
   \<exists>i < length ls. m' = m + i \<and> d' < ls ! i \<and> d = sum_list (take i ls) + d'"
proof (induction ls arbitrary: m d)
  case Nil
  then show ?case by simp
next
  case (Cons l ls)
  show ?case
  proof (cases "d < l")
    case True
    then show ?thesis using Cons.prems by (intro exI [of _ 0]) simp
  next
    case False
    then have "d - l < sum_list ls" "findMonth ls (m + 1) (d - l) = (m', d')"
      using Cons.prems by auto
    from Cons.IH [OF this] obtain i where
      "i < length ls" "m' = m + 1 + i" "d' < ls ! i" "d - l = sum_list (take i ls) + d'" by blast
    with False show ?thesis by (intro exI [of _ "Suc i"]) simp
  qed
qed

lemma sum_monthLens: "sum_list (monthLens y) = ylen y"
  by (simp add: monthLens_def ylen_def)

lemma civil_inject:
  assumes "civilYear 1970 a = (y, d)" "civilYear 1970 b = (y, e)"
    and "findMonth (monthLens y) 1 d = findMonth (monthLens y) 1 e"
  shows "a = b"
proof -
  obtain m f where mf: "findMonth (monthLens y) 1 d = (m, f)" by (cases "findMonth (monthLens y) 1 d")
  have "d < sum_list (monthLens y)" "e < sum_list (monthLens y)"
    using civilYear_sum [OF assms(1)] civilYear_sum [OF assms(2)] by (simp_all add: sum_monthLens)
  from findMonth_sum [OF this(1) mf] findMonth_sum [OF this(2) mf [folded assms(3) [symmetric]]]
  have "d = e" using mf assms(3) by (metis add_left_cancel findMonth_sum)
  with civilYear_sum [OF assms(1)] civilYear_sum [OF assms(2)] show ?thesis by simp
qed

lemma formatUnix_inject:
  assumes "formatUnix a = formatUnix b"
  shows "a = b"
proof -
  obtain y d where a: "civilYear 1970 (a div 86400) = (y, d)"
    by (cases "civilYear 1970 (a div 86400)")
  obtain y' e where b: "civilYear 1970 (b div 86400) = (y', e)"
    by (cases "civilYear 1970 (b div 86400)")
  define m where "m = findMonth (monthLens y) 1 d"
  define n where "n = findMonth (monthLens y') 1 e"
  note seps = leftPadInt_append_inject
  have nd: "\<not> is_digit (CHR ''-'')" "\<not> is_digit (CHR ''T'')" "\<not> is_digit (CHR '':'')"
    "\<not> is_digit (CHR ''Z'')" by (simp_all add: is_digit_def)
  from assms have parts: "y = y'" "fst m = fst n" "snd m = snd n"
    "a mod 86400 div 3600 = b mod 86400 div 3600"
    "a mod 86400 div 60 mod 60 = b mod 86400 div 60 mod 60"
    "a mod 86400 mod 60 = b mod 86400 mod 60"
    unfolding formatUnix_def Let_def a b
    by (auto simp: m_def n_def dest!: seps [OF _ nd(1)] seps [OF _ nd(2)] seps [OF _ nd(3)]
        seps [OF _ nd(4)] leftPadInt_inject)
  then have "m = n" "a div 86400 = b div 86400"
    using civil_inject [OF a] b by (auto simp: m_def n_def prod_eq_iff)
  moreover have "a mod 86400 = b mod 86400"
  proof -
    have "s = s div 3600 * 3600 + (s div 60 mod 60) * 60 + s mod 60" for s :: nat
    proof -
      have "s div 60 = s div 60 div 60 * 60 + s div 60 mod 60"
        by (rule div_mult_mod_eq [symmetric])
      moreover have "s div 60 div 60 = s div 3600" by (simp add: div_mult2_eq [symmetric])
      ultimately show ?thesis using div_mult_mod_eq [of s 60] by linarith
    qed
    then show ?thesis using parts(4-6) by metis
  qed
  ultimately show ?thesis by (metis div_mult_mod_eq)
qed

lemma formatTs_inject:
  assumes "formatTs a = formatTs b"
  shows "a = b"
proof -
  have "unat a * 60 = unat b * 60"
    using assms unfolding formatTs_def by (rule formatUnix_inject)
  then show ?thesis by (simp add: word_unat_eq_iff)
qed

lemma formatTsSec_inject: "formatTsSec a = formatTsSec b \<Longrightarrow> a = b"
  unfolding formatTsSec_def by (drule formatUnix_inject) (simp add: word_unat_eq_iff)

end
