(* ===== verification/Wire.thy ===== *)
theory Wire
  imports Rows Json_Object Timestamps
begin

text \<open>
  The row encoders of the batch (app.go and the event files): each writes one JSON object and
  a newline.  The encoders are transcribed as the sequence of writes of the Go code; each is
  then shown to write a list of fields, which makes it an instance of the locale
  \<open>row_encoder\<close>: the reader recovers the fields of the row, and a batch of rows falls apart
  into its lines.  The composite string keys of the per-IP maps are here too, with their
  round trips.
\<close>

section \<open>The encoders\<close>

abbreviation comma :: string where "comma \<equiv> '',''"

definition encodeL4IpTopkRow :: "u32 \<Rightarrow> u32 \<Rightarrow> string \<Rightarrow> u64 \<Rightarrow> string" where
  "encodeL4IpTopkRow ps ts ip count =
     ''{'' @ writeString ''_type'' ''l4_ip_topk''
     @ comma @ writeString ''ts'' (formatTs ts)
     @ comma @ writeUint32 ''proxy_server_id'' ps
     @ comma @ writeString ''ip'' ip
     @ comma @ writeUint64 ''connection_count'' count @ ''}'' @ [nl]"

definition encodeL4IpUniquesRawRow :: "u32 \<Rightarrow> u32 \<Rightarrow> string \<Rightarrow> string" where
  "encodeL4IpUniquesRawRow ps ts ip =
     ''{'' @ writeString ''_type'' ''l4_ip_uniques_raw''
     @ comma @ writeString ''ts'' (formatTs ts)
     @ comma @ writeUint32 ''proxy_server_id'' ps
     @ comma @ writeString ''ip'' ip @ ''}'' @ [nl]"

definition encodeL4IpPrefixRow :: "u32 \<Rightarrow> u32 \<Rightarrow> string \<Rightarrow> u8 \<Rightarrow> u64 \<Rightarrow> string" where
  "encodeL4IpPrefixRow ps ts pfx prefixLen count =
     ''{'' @ writeString ''_type'' ''l4_ip_prefix''
     @ comma @ writeString ''ts'' (formatTs ts)
     @ comma @ writeUint32 ''proxy_server_id'' ps
     @ comma @ writeString ''prefix'' pfx
     @ comma @ writeUint16 ''prefix_len'' (ucast prefixLen)
     @ comma @ writeUint64 ''connection_count'' count @ ''}'' @ [nl]"

definition encodeL4IpSniRow :: "u32 \<Rightarrow> u32 \<Rightarrow> string \<Rightarrow> string \<Rightarrow> string \<Rightarrow> u64 \<Rightarrow> string" where
  "encodeL4IpSniRow ps ts ip sni outcome count =
     ''{'' @ writeString ''_type'' ''l4_ip_sni''
     @ comma @ writeString ''ts'' (formatTs ts)
     @ comma @ writeUint32 ''proxy_server_id'' ps
     @ comma @ writeString ''ip'' ip
     @ comma @ writeString ''sni'' sni
     @ comma @ writeString ''outcome'' outcome
     @ comma @ writeUint64 ''connection_count'' count @ ''}'' @ [nl]"

definition encodeL4SniRow :: "u32 \<Rightarrow> L4SniKey \<Rightarrow> u64 \<Rightarrow> string" where
  "encodeL4SniRow ps k c =
     ''{'' @ writeString ''_type'' ''l4_sni''
     @ comma @ writeString ''ts'' (formatTs (sk_TsUnixMin k))
     @ comma @ writeUint32 ''proxy_server_id'' ps
     @ comma @ writeString ''sni'' (sk_SNI k)
     @ comma @ writeUint64 ''connection_count'' c @ ''}'' @ [nl]"

text \<open>The set of hashes is a Go map; the list is its iteration order.\<close>

definition encodeUniquesRow :: "u32 \<Rightarrow> uniqueKey \<Rightarrow> u64 list \<Rightarrow> string" where
  "encodeUniquesRow ps uk hashes =
     (if hashes = [] then []
      else ''{'' @ writeString ''_type'' ''uniques''
        @ comma @ writeString ''ts'' (formatTs (uk_TsUnixMin uk))
        @ comma @ writeUint32 ''proxy_server_id'' ps
        @ comma @ writeUint32 ''vhost_id'' (uk_VhostID uk)
        @ comma @ [dq] @ ''client_hashes'' @ [dq] @ '':[''
        @ joinWith (CHR '','') (map (\<lambda>h. FormatUint (unat h)) hashes)
        @ '']}'' @ [nl])"

definition encodeRow :: "u32 \<Rightarrow> Key \<Rightarrow> Counter \<Rightarrow> string" where
  "encodeRow ps k c =
     ''{'' @ writeString ''_type'' ''counter''
     @ comma @ writeString ''ts'' (formatTs (k_TsUnixMin k))
     @ comma @ writeUint32 ''proxy_server_id'' ps
     @ comma @ writeUint32 ''vhost_id'' (k_VhostID k)
     @ comma @ writeString ''method'' (k_Method k)
     @ comma @ writeUint16 ''status'' (k_Status k)
     @ comma @ writeString ''origin'' (k_Origin k)
     @ comma @ writeString ''country'' (k_Country k)
     @ comma @ writeUint32 ''asn'' (k_ASN k)
     @ comma @ writeUint64 ''request_count'' (c_RequestCount c)
     @ comma @ writeUint64 ''bytes_in'' (c_BytesIn c)
     @ comma @ writeUint64 ''bytes_out'' (c_BytesOut c)
     @ comma @ writeUint64 ''duration_us_sum'' (c_DurationUsSum c)
     @ concat (map (\<lambda>(i, n). if n = 0 then [] else comma @ writeUint64 (histKey i) n)
         (zip [0..<HistogramBuckets] (c_LatBuckets c)))
     @ (if k_DefenseExempt k then comma @ [dq] @ ''defense_exempt'' @ [dq] @ '':true'' else [])
     @ ''}'' @ [nl]"

definition encodeL4BlockRow :: "u32 \<Rightarrow> l4BlockKey \<Rightarrow> u64 \<Rightarrow> string" where
  "encodeL4BlockRow ps key count =
     ''{'' @ writeString ''_type'' ''l4_block''
     @ comma @ writeString ''ts'' (formatTs (bk_Minute key))
     @ comma @ writeUint32 ''proxy_server_id'' ps
     @ comma @ writeString ''ip'' (bk_IP key)
     @ comma @ writeString ''reason'' (bk_Reason key)
     @ comma @ writeUint64 ''connection_count'' count @ ''}'' @ [nl]"

definition encodeL4FingerprintRow ::
    "u32 \<Rightarrow> u32 \<Rightarrow> string \<Rightarrow> string \<Rightarrow> string \<Rightarrow> u64 \<Rightarrow> string" where
  "encodeL4FingerprintRow ps ts ja3 ja4 outcome count =
     ''{'' @ writeString ''_type'' ''l4_fingerprint''
     @ comma @ writeString ''ts'' (formatTs ts)
     @ comma @ writeUint32 ''proxy_server_id'' ps
     @ comma @ writeString ''ja3'' ja3
     @ comma @ writeString ''ja4'' ja4
     @ comma @ writeString ''outcome'' outcome
     @ comma @ writeUint64 ''connection_count'' count @ ''}'' @ [nl]"

definition encodeL4FingerprintIpRow :: "u32 \<Rightarrow> u32 \<Rightarrow> string \<Rightarrow> string \<Rightarrow> u64 \<Rightarrow> string" where
  "encodeL4FingerprintIpRow ps ts ja4 ip count =
     ''{'' @ writeString ''_type'' ''l4_fingerprint_ip''
     @ comma @ writeString ''ts'' (formatTs ts)
     @ comma @ writeUint32 ''proxy_server_id'' ps
     @ comma @ writeString ''ja4'' ja4
     @ comma @ writeString ''ip'' ip
     @ comma @ writeUint64 ''connection_count'' count @ ''}'' @ [nl]"

definition boolToUint32 :: "bool \<Rightarrow> u32" where
  "boolToUint32 b = (if b then 1 else 0)"

definition encodeCorazaDetectionRow :: "corazaDetection \<Rightarrow> u32 \<Rightarrow> string" where
  "encodeCorazaDetectionRow ev proxyServerID =
     ''{'' @ writeString ''_type'' ''coraza_detection''
     @ comma @ writeString ''ts'' (formatTsSec (cd_TsUnixSec ev))
     @ comma @ writeUint32 ''proxy_server_id'' proxyServerID
     @ comma @ writeUint32 ''vhost_id'' (cd_VhostID ev)
     @ comma @ writeUint32 ''rule_id'' (cd_RuleID ev)
     @ comma @ writeString ''severity'' (cd_Severity ev)
     @ comma @ writeString ''rule_msg'' (cd_RuleMsg ev)
     @ comma @ writeStringArray ''tags'' (cd_Tags ev)
     @ comma @ writeString ''tx_id'' (cd_TxID ev)
     @ comma @ writeString ''request_uri'' (cd_RequestURI ev)
     @ comma @ writeString ''request_method'' (cd_RequestMethod ev)
     @ comma @ writeString ''request_host'' (cd_RequestHost ev)
     @ comma @ writeString ''client_ip'' (cd_ClientIP ev)
     @ comma @ writeString ''match_data'' (cd_MatchData ev)
     @ comma @ writeUint32 ''was_blocked'' (boolToUint32 (cd_WasBlocked ev))
     @ (if cd_DefenseExempt ev then comma @ [dq] @ ''defense_exempt'' @ [dq] @ '':true'' else [])
     @ ''}'' @ [nl]"

definition encodeChallengeAttemptRow :: "u32 \<Rightarrow> u32 \<Rightarrow> challengeAttemptKey \<Rightarrow> u64 \<Rightarrow> string" where
  "encodeChallengeAttemptRow ps ts k count =
     ''{'' @ writeString ''_type'' ''challenge_attempt''
     @ comma @ writeString ''ts'' (formatTs ts)
     @ comma @ writeUint32 ''proxy_server_id'' ps
     @ comma @ writeString ''vhost'' (ck_vhost k)
     @ comma @ writeString ''ip'' (ck_ip k)
     @ comma @ writeString ''outcome'' (ck_outcome k)
     @ comma @ writeUint64 ''attempt_count'' count @ ''}'' @ [nl]"

definition encodeEdgeVerifyAttemptRow :: "u32 \<Rightarrow> u32 \<Rightarrow> edgeVerifyAttemptKey \<Rightarrow> u64 \<Rightarrow> string" where
  "encodeEdgeVerifyAttemptRow ps ts k count =
     ''{'' @ writeString ''_type'' ''edge_verify_attempt''
     @ comma @ writeString ''ts'' (formatTs ts)
     @ comma @ writeUint32 ''proxy_server_id'' ps
     @ comma @ writeString ''vhost'' (ek_vhost k)
     @ comma @ writeString ''path_bucket'' (ek_pathBucket k)
     @ comma @ writeString ''outcome'' (ek_outcome k)
     @ comma @ writeUint64 ''attempt_count'' count @ ''}'' @ [nl]"

definition encodeL7HttpversionRow :: "u32 \<Rightarrow> L7HttpversionKey \<Rightarrow> u64 \<Rightarrow> string" where
  "encodeL7HttpversionRow ps k c =
     ''{'' @ writeString ''_type'' ''l7_httpversion''
     @ comma @ writeString ''ts'' (formatTs (hk_TsUnixMin k))
     @ comma @ writeUint32 ''proxy_server_id'' ps
     @ comma @ writeUint32 ''vhost_id'' (hk_VhostID k)
     @ comma @ writeString ''http_version'' (hk_HttpVersion k)
     @ comma @ writeUint32 ''status_bucket'' (ucast (hk_StatusBucket k))
     @ comma @ writeUint64 ''request_count'' c @ ''}'' @ [nl]"

definition encodeL7PathRow :: "u32 \<Rightarrow> L7PathKey \<Rightarrow> u64 \<Rightarrow> string" where
  "encodeL7PathRow ps k count =
     ''{'' @ writeString ''_type'' ''l7_path''
     @ comma @ writeString ''ts'' (formatTs (pk_TsUnixMin k))
     @ comma @ writeUint32 ''proxy_server_id'' ps
     @ comma @ writeUint32 ''vhost_id'' (pk_VhostID k)
     @ comma @ writeString ''path_bucket'' (pk_PathBucket k)
     @ comma @ writeUint32 ''status_bucket'' (ucast (pk_StatusBucket k))
     @ comma @ writeUint64 ''request_count'' count @ ''}'' @ [nl]"

definition encodeRequestEventRow :: "u32 \<Rightarrow> requestEventRow \<Rightarrow> string" where
  "encodeRequestEventRow ps row =
     ''{'' @ writeString ''_type'' ''request_event''
     @ comma @ writeString ''ts'' (formatTsSec (re_TsUnixSec row))
     @ comma @ writeUint32 ''proxy_server_id'' ps
     @ comma @ writeUint32 ''vhost_id'' (re_VhostID row)
     @ comma @ writeString ''client_ip'' (re_ClientIP row)
     @ comma @ writeString ''forwarded_ip'' (re_ForwardedIP row)
     @ comma @ writeString ''front_proxy'' (re_FrontProxy row)
     @ comma @ writeString ''method'' (re_Method row)
     @ comma @ writeString ''path'' (re_Path row)
     @ comma @ writeString ''path_bucket'' (re_PathBucket row)
     @ comma @ writeUint32 ''status'' (ucast (re_Status row))
     @ comma @ writeString ''http_version'' (re_HTTPVersion row)
     @ comma @ writeString ''ua'' (re_UA row)
     @ comma @ writeString ''origin'' (re_Origin row)
     @ comma @ writeUint64 ''bytes_in'' (re_BytesIn row)
     @ comma @ writeUint64 ''bytes_out'' (re_BytesOut row)
     @ comma @ writeUint64 ''duration_us'' (re_DurationUs row)
     @ comma @ writeUint32 ''sample_rate'' (ucast (re_SampleRate row))
     @ (if re_V2 row then
          comma @ writeInt64 ''ts_ms'' (re_TsUnixMs row)
          @ comma @ writeString ''machine_id'' (re_MachineID row)
          @ comma @ writeUint64 ''machine_seq'' (re_MachineSeq row)
          @ comma @ writeString ''disposition'' (re_Disposition row)
          @ comma @ writeString ''host'' (re_Host row)
          @ comma @ writeString ''request_id'' (re_RequestID row)
          @ (if re_UpstreamFailureReason row \<noteq> []
             then comma @ writeString ''upstream_failure_reason'' (re_UpstreamFailureReason row)
             else [])
        else [])
     @ (if re_DefenseExempt row then comma @ [dq] @ ''defense_exempt'' @ [dq] @ '':true'' else [])
     @ ''}'' @ [nl]"

definition encodeNodeStateRow :: "u32 \<Rightarrow> string \<Rightarrow> nodeStateMinute \<Rightarrow> string" where
  "encodeNodeStateRow ps machineID m =
     (let writeInt = (\<lambda>key v. comma @ [dq] @ key @ [dq] @ '':'' @ FormatInt v)
      in ''{'' @ writeString ''_type'' ''node_state''
         @ comma @ writeString ''ts'' (formatTs (nm_ts m))
         @ comma @ writeUint32 ''proxy_server_id'' ps
         @ comma @ writeString ''machine_id'' machineID
         @ writeInt ''level_max'' (nm_levelMax m)
         @ writeInt ''l1_seconds'' (nm_l1Seconds m)
         @ writeInt ''l2_seconds'' (nm_l2Seconds m)
         @ writeInt ''reasons'' (uint (nm_reasons m))
         @ writeInt ''sched_p99_us_max'' (nm_schedP99UsMax m)
         @ writeInt ''burst_est_s_min'' (nm_burstEstSMin m)
         @ comma @ writeString ''burst_model'' (nm_burstModel m)
         @ writeInt ''inflight_max'' (nm_inflightMax m)
         @ writeInt ''admission_limit_min'' (nm_admissionLimitMin m)
         @ concat (map (\<lambda>(name, c). comma @ writeUint64 name c)
             (zip nodeStateCounterNames (nm_counts m)))
         @ writeInt ''gomaxprocs'' (nm_gomaxprocs m) @ ''}'' @ [nl])"

definition encodeDomainHealthRow :: "u32 \<Rightarrow> domainHealthKey \<Rightarrow> domainHealthCounter \<Rightarrow> string" where
  "encodeDomainHealthRow ps key counter =
     ''{'' @ writeString ''_type'' ''domain_health''
     @ comma @ writeString ''ts'' (formatTs (dk_TsUnixMin key))
     @ comma @ writeUint32 ''proxy_server_id'' ps
     @ comma @ writeUint32 ''vhost_id'' (dk_VhostID key)
     @ comma @ writeString ''configuration_key'' (dk_ConfigurationKey key)
     @ comma @ writeUint64 ''request_count'' (dc_RequestCount counter)
     @ comma @ writeUint64 ''routing_responses'' (dc_RoutingResponses counter)
     @ comma @ writeUint64 ''upstream_responses'' (dc_UpstreamResponses counter)
     @ comma @ writeUint64 ''upstream_successes'' (dc_UpstreamSuccesses counter)
     @ comma @ writeUint64 ''upstream_5xx'' (dc_Upstream5xx counter)
     @ comma @ writeUint64 ''proxy_errors'' (dc_ProxyErrors counter) @ ''}'' @ [nl]"

section \<open>What a row says\<close>

abbreviation jstr :: "string \<Rightarrow> jvalue" where "jstr s \<equiv> JS (JStr s)"

abbreviation jint :: "int \<Rightarrow> jvalue" where "jint n \<equiv> JS (JNum n)"

abbreviation jword :: "'w::len word \<Rightarrow> jvalue" where "jword n \<equiv> JS (JNum (uint n))"

abbreviation exemptFields :: "bool \<Rightarrow> jfields" where
  "exemptFields b \<equiv> (if b then [(''defense_exempt'', JS JTrue)] else [])"

text \<open>The four fields every minute row opens with.\<close>

abbreviation headFields :: "string \<Rightarrow> string \<Rightarrow> u32 \<Rightarrow> jfields" where
  "headFields kind ts ps \<equiv>
     [(''_type'', jstr kind), (''ts'', jstr ts), (''proxy_server_id'', jword ps)]"

definition topkFields :: "u32 \<Rightarrow> u32 \<Rightarrow> string \<Rightarrow> u64 \<Rightarrow> jfields" where
  "topkFields ps ts ip count = headFields ''l4_ip_topk'' (formatTs ts) ps
     @ [(''ip'', jstr ip), (''connection_count'', jword count)]"

definition uniquesRawFields :: "u32 \<Rightarrow> u32 \<Rightarrow> string \<Rightarrow> jfields" where
  "uniquesRawFields ps ts ip = headFields ''l4_ip_uniques_raw'' (formatTs ts) ps @ [(''ip'', jstr ip)]"

definition prefixFields :: "u32 \<Rightarrow> u32 \<Rightarrow> string \<Rightarrow> u8 \<Rightarrow> u64 \<Rightarrow> jfields" where
  "prefixFields ps ts pfx prefixLen count = headFields ''l4_ip_prefix'' (formatTs ts) ps
     @ [(''prefix'', jstr pfx), (''prefix_len'', jword prefixLen), (''connection_count'', jword count)]"

definition ipSniFields :: "u32 \<Rightarrow> u32 \<Rightarrow> string \<Rightarrow> string \<Rightarrow> string \<Rightarrow> u64 \<Rightarrow> jfields" where
  "ipSniFields ps ts ip sni outcome count = headFields ''l4_ip_sni'' (formatTs ts) ps
     @ [(''ip'', jstr ip), (''sni'', jstr sni), (''outcome'', jstr outcome),
        (''connection_count'', jword count)]"

definition sniFields :: "u32 \<Rightarrow> L4SniKey \<Rightarrow> u64 \<Rightarrow> jfields" where
  "sniFields ps k c = headFields ''l4_sni'' (formatTs (sk_TsUnixMin k)) ps
     @ [(''sni'', jstr (sk_SNI k)), (''connection_count'', jword c)]"

definition uniquesFields :: "u32 \<Rightarrow> uniqueKey \<Rightarrow> u64 list \<Rightarrow> jfields" where
  "uniquesFields ps uk hashes = headFields ''uniques'' (formatTs (uk_TsUnixMin uk)) ps
     @ [(''vhost_id'', jword (uk_VhostID uk)),
        (''client_hashes'', JArr (map (\<lambda>h. JNum (uint h)) hashes))]"

definition bucketFields :: "u64 list \<Rightarrow> jfields" where
  "bucketFields counts = map (\<lambda>(i, n). (histKey i, jword n))
     (filter (\<lambda>(i, n). n \<noteq> 0) (zip [0..<HistogramBuckets] counts))"

definition counterFields :: "u32 \<Rightarrow> Key \<Rightarrow> Counter \<Rightarrow> jfields" where
  "counterFields ps k c = headFields ''counter'' (formatTs (k_TsUnixMin k)) ps
     @ [(''vhost_id'', jword (k_VhostID k)), (''method'', jstr (k_Method k)),
        (''status'', jword (k_Status k)), (''origin'', jstr (k_Origin k)),
        (''country'', jstr (k_Country k)), (''asn'', jword (k_ASN k)),
        (''request_count'', jword (c_RequestCount c)), (''bytes_in'', jword (c_BytesIn c)),
        (''bytes_out'', jword (c_BytesOut c)), (''duration_us_sum'', jword (c_DurationUsSum c))]
     @ bucketFields (c_LatBuckets c) @ exemptFields (k_DefenseExempt k)"

definition blockFields :: "u32 \<Rightarrow> l4BlockKey \<Rightarrow> u64 \<Rightarrow> jfields" where
  "blockFields ps key count = headFields ''l4_block'' (formatTs (bk_Minute key)) ps
     @ [(''ip'', jstr (bk_IP key)), (''reason'', jstr (bk_Reason key)),
        (''connection_count'', jword count)]"

definition fingerprintFields :: "u32 \<Rightarrow> u32 \<Rightarrow> string \<Rightarrow> string \<Rightarrow> string \<Rightarrow> u64 \<Rightarrow> jfields" where
  "fingerprintFields ps ts ja3 ja4 outcome count = headFields ''l4_fingerprint'' (formatTs ts) ps
     @ [(''ja3'', jstr ja3), (''ja4'', jstr ja4), (''outcome'', jstr outcome),
        (''connection_count'', jword count)]"

definition fingerprintIpFields :: "u32 \<Rightarrow> u32 \<Rightarrow> string \<Rightarrow> string \<Rightarrow> u64 \<Rightarrow> jfields" where
  "fingerprintIpFields ps ts ja4 ip count = headFields ''l4_fingerprint_ip'' (formatTs ts) ps
     @ [(''ja4'', jstr ja4), (''ip'', jstr ip), (''connection_count'', jword count)]"

definition corazaFields :: "corazaDetection \<Rightarrow> u32 \<Rightarrow> jfields" where
  "corazaFields ev ps = headFields ''coraza_detection'' (formatTsSec (cd_TsUnixSec ev)) ps
     @ [(''vhost_id'', jword (cd_VhostID ev)), (''rule_id'', jword (cd_RuleID ev)),
        (''severity'', jstr (cd_Severity ev)), (''rule_msg'', jstr (cd_RuleMsg ev)),
        (''tags'', JArr (map JStr (cd_Tags ev))), (''tx_id'', jstr (cd_TxID ev)),
        (''request_uri'', jstr (cd_RequestURI ev)),
        (''request_method'', jstr (cd_RequestMethod ev)),
        (''request_host'', jstr (cd_RequestHost ev)), (''client_ip'', jstr (cd_ClientIP ev)),
        (''match_data'', jstr (cd_MatchData ev)),
        (''was_blocked'', jint (if cd_WasBlocked ev then 1 else 0))]
     @ exemptFields (cd_DefenseExempt ev)"

definition challengeFields :: "u32 \<Rightarrow> u32 \<Rightarrow> challengeAttemptKey \<Rightarrow> u64 \<Rightarrow> jfields" where
  "challengeFields ps ts k count = headFields ''challenge_attempt'' (formatTs ts) ps
     @ [(''vhost'', jstr (ck_vhost k)), (''ip'', jstr (ck_ip k)),
        (''outcome'', jstr (ck_outcome k)), (''attempt_count'', jword count)]"

definition edgeVerifyFields :: "u32 \<Rightarrow> u32 \<Rightarrow> edgeVerifyAttemptKey \<Rightarrow> u64 \<Rightarrow> jfields" where
  "edgeVerifyFields ps ts k count = headFields ''edge_verify_attempt'' (formatTs ts) ps
     @ [(''vhost'', jstr (ek_vhost k)), (''path_bucket'', jstr (ek_pathBucket k)),
        (''outcome'', jstr (ek_outcome k)), (''attempt_count'', jword count)]"

definition httpversionFields :: "u32 \<Rightarrow> L7HttpversionKey \<Rightarrow> u64 \<Rightarrow> jfields" where
  "httpversionFields ps k c = headFields ''l7_httpversion'' (formatTs (hk_TsUnixMin k)) ps
     @ [(''vhost_id'', jword (hk_VhostID k)), (''http_version'', jstr (hk_HttpVersion k)),
        (''status_bucket'', jword (hk_StatusBucket k)), (''request_count'', jword c)]"

definition pathFields :: "u32 \<Rightarrow> L7PathKey \<Rightarrow> u64 \<Rightarrow> jfields" where
  "pathFields ps k c = headFields ''l7_path'' (formatTs (pk_TsUnixMin k)) ps
     @ [(''vhost_id'', jword (pk_VhostID k)), (''path_bucket'', jstr (pk_PathBucket k)),
        (''status_bucket'', jword (pk_StatusBucket k)), (''request_count'', jword c)]"

definition v2Fields :: "requestEventRow \<Rightarrow> jfields" where
  "v2Fields row = (if re_V2 row then
       [(''ts_ms'', jint (re_TsUnixMs row)), (''machine_id'', jstr (re_MachineID row)),
        (''machine_seq'', jword (re_MachineSeq row)), (''disposition'', jstr (re_Disposition row)),
        (''host'', jstr (re_Host row)), (''request_id'', jstr (re_RequestID row))]
       @ (if re_UpstreamFailureReason row \<noteq> []
          then [(''upstream_failure_reason'', jstr (re_UpstreamFailureReason row))] else [])
     else [])"

definition requestEventFields :: "u32 \<Rightarrow> requestEventRow \<Rightarrow> jfields" where
  "requestEventFields ps row = headFields ''request_event'' (formatTsSec (re_TsUnixSec row)) ps
     @ [(''vhost_id'', jword (re_VhostID row)), (''client_ip'', jstr (re_ClientIP row)),
        (''forwarded_ip'', jstr (re_ForwardedIP row)), (''front_proxy'', jstr (re_FrontProxy row)),
        (''method'', jstr (re_Method row)), (''path'', jstr (re_Path row)),
        (''path_bucket'', jstr (re_PathBucket row)), (''status'', jword (re_Status row)),
        (''http_version'', jstr (re_HTTPVersion row)), (''ua'', jstr (re_UA row)),
        (''origin'', jstr (re_Origin row)), (''bytes_in'', jword (re_BytesIn row)),
        (''bytes_out'', jword (re_BytesOut row)), (''duration_us'', jword (re_DurationUs row)),
        (''sample_rate'', jword (re_SampleRate row))]
     @ v2Fields row @ exemptFields (re_DefenseExempt row)"

definition nodeStateFields :: "u32 \<Rightarrow> string \<Rightarrow> nodeStateMinute \<Rightarrow> jfields" where
  "nodeStateFields ps machineID m = headFields ''node_state'' (formatTs (nm_ts m)) ps
     @ [(''machine_id'', jstr machineID), (''level_max'', jint (nm_levelMax m)),
        (''l1_seconds'', jint (nm_l1Seconds m)), (''l2_seconds'', jint (nm_l2Seconds m)),
        (''reasons'', jword (nm_reasons m)), (''sched_p99_us_max'', jint (nm_schedP99UsMax m)),
        (''burst_est_s_min'', jint (nm_burstEstSMin m)), (''burst_model'', jstr (nm_burstModel m)),
        (''inflight_max'', jint (nm_inflightMax m)),
        (''admission_limit_min'', jint (nm_admissionLimitMin m))]
     @ map (\<lambda>(name, c). (name, jword c)) (zip nodeStateCounterNames (nm_counts m))
     @ [(''gomaxprocs'', jint (nm_gomaxprocs m))]"

definition domainHealthFields :: "u32 \<Rightarrow> domainHealthKey \<Rightarrow> domainHealthCounter \<Rightarrow> jfields" where
  "domainHealthFields ps key c = headFields ''domain_health'' (formatTs (dk_TsUnixMin key)) ps
     @ [(''vhost_id'', jword (dk_VhostID key)),
        (''configuration_key'', jstr (dk_ConfigurationKey key)),
        (''request_count'', jword (dc_RequestCount c)),
        (''routing_responses'', jword (dc_RoutingResponses c)),
        (''upstream_responses'', jword (dc_UpstreamResponses c)),
        (''upstream_successes'', jword (dc_UpstreamSuccesses c)),
        (''upstream_5xx'', jword (dc_Upstream5xx c)), (''proxy_errors'', jword (dc_ProxyErrors c))]"

section \<open>The encoders write their fields\<close>

lemma FormatInt_uint [simp]: "FormatInt (uint w) = FormatUint (unat w)"
  by (simp add: FormatInt_def)

lemma write_fields:
  "writeString k s = showField (k, jstr s)"
  "writeUint16 k w16 = showField (k, jword w16)"
  "writeUint32 k w32 = showField (k, jword w32)"
  "writeUint64 k w64 = showField (k, jword w64)"
  "writeInt64 k n = showField (k, jint n)"
  "writeStringArray k ss = showField (k, JArr (map JStr ss))"
  by (simp_all add: writeString_def writeUint16_def writeUint32_def writeUint64_def
      writeInt64_def writeStringArray_def showField_def o_def)

lemma joinWith_app:
  "xs \<noteq> [] \<Longrightarrow> joinWith c (xs @ ys) = joinWith c xs @ concat (map (Cons c) ys)"
proof (induction xs)
  case Nil
  then show ?case by simp
next
  case (Cons x xs)
  show ?case
  proof (cases xs)
    case Nil
    then show ?thesis by (induction ys arbitrary: x) (auto simp: joinWith_Cons)
  next
    case (Cons y zs)
    then show ?thesis using Cons.IH by (simp add: joinWith_Cons)
  qed
qed

text \<open>A row whose optional fields follow the fixed ones, each behind its comma.\<close>

lemma showRow_app:
  "fs \<noteq> [] \<Longrightarrow> showRow (fs @ gs) = ''{'' @ joinWith (CHR '','') (map showField fs)
     @ concat (map (\<lambda>g. comma @ showField g) gs) @ ''}'' @ [nl]"
  by (simp add: showRow_def joinWith_app o_def)

lemma bucketFields_text:
  "concat (map (\<lambda>(i, n). if n = 0 then [] else comma @ writeUint64 (histKey i) n)
     (zip [0..<HistogramBuckets] counts))
   = concat (map (\<lambda>g. comma @ showField g) (bucketFields counts))"
proof -
  have "concat (map (\<lambda>(i, n). if n = 0 then [] else comma @ writeUint64 (histKey i) n) xs)
      = concat (map (\<lambda>g. comma @ showField g)
          (map (\<lambda>(i, n). (histKey i, jword n)) (filter (\<lambda>(i, n). n \<noteq> 0) xs)))" for xs
    by (induction xs) (auto simp: write_fields)
  then show ?thesis by (simp add: bucketFields_def)
qed

lemma bucketFields_plain: "plain_keys (bucketFields counts)"
proof -
  have "\<not> needsJSONEscape (fst f)" if f: "f \<in> set (bucketFields counts)" for f
  proof -
    obtain i n where "f = (histKey i, jword n)" "(i, n) \<in> set (zip [0..<HistogramBuckets] counts)"
      using f by (auto simp: bucketFields_def)
    moreover from this have "i < 16" by (auto dest!: set_zip_leftD simp: HistogramBuckets_def)
    ultimately show ?thesis by (simp add: histKey_plain)
  qed
  then show ?thesis by (simp add: list_all_iff)
qed

lemma uint_ucast16 [simp]: "uint (ucast (x :: u8) :: u16) = uint x"
  by (simp add: uint_up_ucast is_up)

lemma uint_ucast32 [simp]:
  "uint (ucast (x :: u8) :: u32) = uint x" "uint (ucast (y :: u16) :: u32) = uint y"
  by (simp_all add: uint_up_ucast is_up)

lemma plain_lits [simp]: "needsJSONEscape [] = False"
  "needsJSONEscape (c # s) = (byte c < 32 \<or> c = dq \<or> c = bs \<or> 128 \<le> byte c \<or> needsJSONEscape s)"
  by (simp_all add: needsJSONEscape_def)

interpretation topk_row: row_encoder
  "\<lambda>(ps, ts, ip, count). encodeL4IpTopkRow ps ts ip count"
  "\<lambda>(ps, ts, ip, count). topkFields ps ts ip count"
  by unfold_locales (auto simp: encodeL4IpTopkRow_def topkFields_def write_fields showRow_def)

interpretation uniques_raw_row: row_encoder
  "\<lambda>(ps, ts, ip). encodeL4IpUniquesRawRow ps ts ip"
  "\<lambda>(ps, ts, ip). uniquesRawFields ps ts ip"
  by unfold_locales
    (auto simp: encodeL4IpUniquesRawRow_def uniquesRawFields_def write_fields showRow_def)

interpretation prefix_row: row_encoder
  "\<lambda>(ps, ts, pfx, n, count). encodeL4IpPrefixRow ps ts pfx n count"
  "\<lambda>(ps, ts, pfx, n, count). prefixFields ps ts pfx n count"
  by unfold_locales (auto simp: encodeL4IpPrefixRow_def prefixFields_def write_fields showRow_def)

interpretation ip_sni_row: row_encoder
  "\<lambda>(ps, ts, ip, sni, outcome, count). encodeL4IpSniRow ps ts ip sni outcome count"
  "\<lambda>(ps, ts, ip, sni, outcome, count). ipSniFields ps ts ip sni outcome count"
  by unfold_locales (auto simp: encodeL4IpSniRow_def ipSniFields_def write_fields showRow_def)

interpretation sni_row: row_encoder
  "\<lambda>(ps, k, c). encodeL4SniRow ps k c" "\<lambda>(ps, k, c). sniFields ps k c"
  by unfold_locales (auto simp: encodeL4SniRow_def sniFields_def write_fields showRow_def)



interpretation uniques_row: row_encoder
  "\<lambda>(ps, uk, h, hs). encodeUniquesRow ps uk (h # hs)" "\<lambda>(ps, uk, h, hs). uniquesFields ps uk (h # hs)"
proof unfold_locales
  fix r :: "u32 \<times> uniqueKey \<times> u64 \<times> u64 list"
  obtain ps uk h hs where r: "r = (ps, uk, h, hs)" by (cases r)
  show "(\<lambda>(ps, uk, h, hs). encodeUniquesRow ps uk (h # hs)) r
      = showRow ((\<lambda>(ps, uk, h, hs). uniquesFields ps uk (h # hs)) r)"
    by (simp add: r encodeUniquesRow_def uniquesFields_def write_fields showRow_def)
      (simp add: showField_def o_def)
qed (auto simp: uniquesFields_def)

lemma exempt_text:
  "(if b then comma @ [dq] @ ''defense_exempt'' @ [dq] @ '':true'' else [])
   = concat (map (\<lambda>g. comma @ showField g) (exemptFields b))"
  by (simp add: showField_def)

interpretation counter_row: row_encoder
  "\<lambda>(ps, k, c). encodeRow ps k c" "\<lambda>(ps, k, c). counterFields ps k c"
proof unfold_locales
  fix r :: "u32 \<times> Key \<times> Counter"
  obtain ps k c where r: "r = (ps, k, c)" by (cases r)
  show "(\<lambda>(ps, k, c). encodeRow ps k c) r = showRow ((\<lambda>(ps, k, c). counterFields ps k c) r)"
    unfolding r prod.case encodeRow_def counterFields_def bucketFields_text exempt_text
      append_assoc [symmetric, of "headFields _ _ _"]
    by (subst showRow_app) (simp_all add: write_fields)
qed (auto simp: counterFields_def bucketFields_plain)

interpretation block_row: row_encoder
  "\<lambda>(ps, k, c). encodeL4BlockRow ps k c" "\<lambda>(ps, k, c). blockFields ps k c"
  by unfold_locales (auto simp: encodeL4BlockRow_def blockFields_def write_fields showRow_def)

interpretation fingerprint_row: row_encoder
  "\<lambda>(ps, ts, ja3, ja4, oc, c). encodeL4FingerprintRow ps ts ja3 ja4 oc c"
  "\<lambda>(ps, ts, ja3, ja4, oc, c). fingerprintFields ps ts ja3 ja4 oc c"
  by unfold_locales
    (auto simp: encodeL4FingerprintRow_def fingerprintFields_def write_fields showRow_def)

interpretation fingerprint_ip_row: row_encoder
  "\<lambda>(ps, ts, ja4, ip, c). encodeL4FingerprintIpRow ps ts ja4 ip c"
  "\<lambda>(ps, ts, ja4, ip, c). fingerprintIpFields ps ts ja4 ip c"
  by unfold_locales
    (auto simp: encodeL4FingerprintIpRow_def fingerprintIpFields_def write_fields showRow_def)

interpretation coraza_row: row_encoder
  "\<lambda>(ev, ps). encodeCorazaDetectionRow ev ps" "\<lambda>(ev, ps). corazaFields ev ps"
proof unfold_locales
  fix r :: "corazaDetection \<times> u32"
  obtain ev ps where r: "r = (ev, ps)" by (cases r)
  show "(\<lambda>(ev, ps). encodeCorazaDetectionRow ev ps) r = showRow ((\<lambda>(ev, ps). corazaFields ev ps) r)"
    unfolding r prod.case encodeCorazaDetectionRow_def corazaFields_def exempt_text
      append_assoc [symmetric, of "headFields _ _ _"]
    by (subst showRow_app) (simp_all add: write_fields boolToUint32_def)
qed (auto simp: corazaFields_def)

interpretation challenge_row: row_encoder
  "\<lambda>(ps, ts, k, c). encodeChallengeAttemptRow ps ts k c" "\<lambda>(ps, ts, k, c). challengeFields ps ts k c"
  by unfold_locales
    (auto simp: encodeChallengeAttemptRow_def challengeFields_def write_fields showRow_def)

interpretation edge_verify_row: row_encoder
  "\<lambda>(ps, ts, k, c). encodeEdgeVerifyAttemptRow ps ts k c"
  "\<lambda>(ps, ts, k, c). edgeVerifyFields ps ts k c"
  by unfold_locales
    (auto simp: encodeEdgeVerifyAttemptRow_def edgeVerifyFields_def write_fields showRow_def)

interpretation httpversion_row: row_encoder
  "\<lambda>(ps, k, c). encodeL7HttpversionRow ps k c" "\<lambda>(ps, k, c). httpversionFields ps k c"
  by unfold_locales
    (auto simp: encodeL7HttpversionRow_def httpversionFields_def write_fields showRow_def)

interpretation path_row: row_encoder
  "\<lambda>(ps, k, c). encodeL7PathRow ps k c" "\<lambda>(ps, k, c). pathFields ps k c"
  by unfold_locales (auto simp: encodeL7PathRow_def pathFields_def write_fields showRow_def)

lemma v2_text:
  "(if re_V2 row then
      comma @ writeInt64 ''ts_ms'' (re_TsUnixMs row)
      @ comma @ writeString ''machine_id'' (re_MachineID row)
      @ comma @ writeUint64 ''machine_seq'' (re_MachineSeq row)
      @ comma @ writeString ''disposition'' (re_Disposition row)
      @ comma @ writeString ''host'' (re_Host row)
      @ comma @ writeString ''request_id'' (re_RequestID row)
      @ (if re_UpstreamFailureReason row \<noteq> []
         then comma @ writeString ''upstream_failure_reason'' (re_UpstreamFailureReason row)
         else [])
    else []) = concat (map (\<lambda>g. comma @ showField g) (v2Fields row))"
  by (simp add: v2Fields_def write_fields)

interpretation request_event_row: row_encoder
  "\<lambda>(ps, row). encodeRequestEventRow ps row" "\<lambda>(ps, row). requestEventFields ps row"
proof unfold_locales
  fix r :: "u32 \<times> requestEventRow"
  obtain ps row where r: "r = (ps, row)" by (cases r)
  show "(\<lambda>(ps, row). encodeRequestEventRow ps row) r
      = showRow ((\<lambda>(ps, row). requestEventFields ps row) r)"
    unfolding r prod.case encodeRequestEventRow_def requestEventFields_def exempt_text v2_text
      append_assoc [symmetric, of "headFields _ _ _"]
    by (subst showRow_app) (simp_all add: write_fields)
qed (auto simp: requestEventFields_def v2Fields_def)

lemma node_state_names_plain:
  "plain_keys (map (\<lambda>(name, c). (name, jword c)) (zip nodeStateCounterNames cs))"
proof -
  have "list_all (\<lambda>n. \<not> needsJSONEscape n) nodeStateCounterNames"
    by (simp add: nodeStateCounterNames_def)
  then show ?thesis by (auto simp: list_all_iff dest: set_zip_leftD)
qed

interpretation node_state_row: row_encoder
  "\<lambda>(ps, mid, m). encodeNodeStateRow ps mid m" "\<lambda>(ps, mid, m). nodeStateFields ps mid m"
proof unfold_locales
  fix r :: "u32 \<times> string \<times> nodeStateMinute"
  obtain ps mid m where r: "r = (ps, mid, m)" by (cases r)
  have counts: "concat (map (\<lambda>(name, c). comma @ writeUint64 name c) xs)
      = concat (map (\<lambda>g. comma @ showField g) (map (\<lambda>(name, c). (name, jword c)) xs))" for xs
    by (induction xs) (auto simp: write_fields)
  have int: "[dq] @ key @ [dq] @ '':'' @ FormatInt v = showField (key, jint v)" for key v
    by (simp add: showField_def)
  show "(\<lambda>(ps, mid, m). encodeNodeStateRow ps mid m) r
      = showRow ((\<lambda>(ps, mid, m). nodeStateFields ps mid m) r)"
    unfolding r prod.case encodeNodeStateRow_def nodeStateFields_def Let_def counts int
      append_assoc [symmetric, of "headFields _ _ _"]
    by (subst showRow_app) (simp_all add: write_fields)
  show "plain_keys ((\<lambda>(ps, mid, m). nodeStateFields ps mid m) r)"
    using node_state_names_plain by (simp add: r nodeStateFields_def)
qed (auto simp: nodeStateFields_def)

interpretation domain_health_row: row_encoder
  "\<lambda>(ps, k, c). encodeDomainHealthRow ps k c" "\<lambda>(ps, k, c). domainHealthFields ps k c"
  by unfold_locales
    (auto simp: encodeDomainHealthRow_def domainHealthFields_def write_fields showRow_def)

end
