(* ===== verification/Settings.thy ===== *)
theory Settings
  imports Go_Text
begin

text \<open>
  The ingest configuration and how \<open>Provision\<close> resolves it (app.go): the JSON fields of
  \<open>IngestConfig\<close>, the runtime values with defaults applied, and the machine id.  The HTTP
  client's own settings other than its timeout are not modelled.
\<close>

section \<open>Configuration as given\<close>

record RequestEventsConfig =
  rc_Enabled :: bool
  rc_SampleThreshold :: int
  rc_MaxRows :: int
  rc_ModeV2 :: bool
  rc_BlockedSampleThreshold :: int

record IngestConfig =
  ic_URL :: string
  ic_AuthToken :: string
  ic_AuthEnvVar :: string
  ic_AuthHeader :: string
  ic_FlushIntervalMs :: int
  ic_MaxBufferRows :: int
  ic_MaxUniqueHashes :: int
  ic_TimeoutMs :: int
  ic_MaxRetries :: int
  ic_ShutdownMaxRetries :: int
  ic_StopWaitMs :: int
  ic_ShutdownDeadlineMs :: int
  ic_L4SniMaxKeys :: int
  ic_FingerprintMaxKeys :: int
  ic_FingerprintIpMaxKeys :: int
  ic_CorazaMaxEvents :: int
  ic_RequestEvents :: "RequestEventsConfig option"

section \<open>Configuration as used\<close>

record ingestRuntime =
  url :: string
  authHeader :: string
  flushInterval :: duration
  maxBuffer :: int
  maxUniqueHashes :: int
  maxRetries :: int
  shutdownMaxRetries :: int
  stopWait :: duration
  shutdownDeadline :: duration
  l4SniMaxKeys :: int
  fingerprintMaxKeys :: int
  fingerprintIpMaxKeys :: int
  corazaMaxEvents :: int

definition CorazaMaxEventsDefault :: int where "CorazaMaxEventsDefault = 200000"

definition defaultStopWaitMs :: int where "defaultStopWaitMs = 2000"

definition defaultShutdownDeadlineMs :: int where "defaultShutdownDeadlineMs = 30000"

text \<open>The multiplication is the int64 multiplication of a \<open>time.Duration\<close>.\<close>

definition durationMs :: "int \<Rightarrow> int \<Rightarrow> duration" where
  "durationMs n def = i64 ((if n \<le> 0 then def else n) * Millisecond)"

definition resolveIngest :: "IngestConfig \<Rightarrow> ingestRuntime" where
  "resolveIngest ing =
     \<lparr>url = ic_URL ing,
      authHeader = firstNonEmpty [ic_AuthHeader ing, ''apx-key''],
      flushInterval = durationMs (ic_FlushIntervalMs ing) 30000,
      maxBuffer = intDefault (ic_MaxBufferRows ing) 50000,
      maxUniqueHashes = intDefault (ic_MaxUniqueHashes ing) 500000,
      maxRetries = intDefault (ic_MaxRetries ing) 3,
      shutdownMaxRetries = intDefault (ic_ShutdownMaxRetries ing) 7,
      stopWait = durationMs (ic_StopWaitMs ing) defaultStopWaitMs,
      shutdownDeadline = durationMs (ic_ShutdownDeadlineMs ing) defaultShutdownDeadlineMs,
      l4SniMaxKeys = ic_L4SniMaxKeys ing,
      fingerprintMaxKeys = ic_FingerprintMaxKeys ing,
      fingerprintIpMaxKeys = ic_FingerprintIpMaxKeys ing,
      corazaMaxEvents = intDefault (ic_CorazaMaxEvents ing) CorazaMaxEventsDefault\<rparr>"

definition stopWaitOrDefault :: "ingestRuntime \<Rightarrow> duration" where
  "stopWaitOrDefault c = (if stopWait c > 0 then stopWait c else defaultStopWaitMs * Millisecond)"

definition shutdownDeadlineOrDefault :: "ingestRuntime \<Rightarrow> duration" where
  "shutdownDeadlineOrDefault c =
     (if shutdownDeadline c > 0 then shutdownDeadline c
      else defaultShutdownDeadlineMs * Millisecond)"

text \<open>\<open>replaceAll\<close> is Caddy's replacer with every unknown placeholder removed.\<close>

definition resolveMachineID :: "(string \<Rightarrow> string) \<Rightarrow> string \<Rightarrow> string" where
  "resolveMachineID replaceAll raw =
     (if raw = [] then []
      else let v = replaceAll raw
           in if CHR ''{'' \<in> set v \<and> CHR ''}'' \<in> set v then [] else v)"

section \<open>Properties\<close>

text \<open>The resolved limits are positive, whatever the configuration says.\<close>

lemma intDefault_pos: "0 < def \<Longrightarrow> 0 < intDefault n def"
  by (simp add: intDefault_def)

lemma resolveIngest_limits:
  "0 < maxBuffer (resolveIngest ing)" "0 < maxUniqueHashes (resolveIngest ing)"
  "0 < maxRetries (resolveIngest ing)" "0 < shutdownMaxRetries (resolveIngest ing)"
  "0 < corazaMaxEvents (resolveIngest ing)"
  by (simp_all add: resolveIngest_def intDefault_pos CorazaMaxEventsDefault_def)

text \<open>The waits used at shutdown are positive, also when the configured value overflows.\<close>

lemma shutdown_waits_pos: "0 < stopWaitOrDefault c" "0 < shutdownDeadlineOrDefault c"
  by (simp_all add: stopWaitOrDefault_def shutdownDeadlineOrDefault_def defaultStopWaitMs_def
      defaultShutdownDeadlineMs_def)

lemma durationMs_eq:
  assumes "0 < n" and "n * Millisecond \<le> max_i64"
  shows "durationMs n def = n * Millisecond"
  unfolding durationMs_def using assms by (simp add: i64_id min_i64_def max_i64_def)

text \<open>No unexpanded placeholder is ever used as a machine id.\<close>

lemma resolveMachineID_no_placeholder:
  "CHR ''{'' \<notin> set (resolveMachineID replaceAll raw) \<or> CHR ''}'' \<notin> set (resolveMachineID replaceAll raw)"
  by (simp add: resolveMachineID_def Let_def)

end
