(* ===== verification/Mem_Governor.thy ===== *)
theory Mem_Governor
  imports Go_Text Complex_Main
begin

text \<open>
  The memory governor (mem\_budget.go): a byte budget shared by the buffers.  First the
  sequential operations, then \<open>tryReserve\<close> and \<open>release\<close> as interleaved steps of several
  goroutines, since both work with atomics and no lock.

  Float64 arithmetic is real arithmetic with a rounding function \<open>rnd\<close> applied to the result
  of each operation; what is used of \<open>rnd\<close> is that it is monotone and exact on the few
  constants named in \<open>rounds\<close>, which holds of every IEEE rounding mode.
\<close>

section \<open>State and operations\<close>

record memGovernor =
  totalRAM :: u64
  shareBudget :: u64
  rssCeiling :: u64
  baselineRSS :: u64
  bufferBytes :: int
  cachedRSS :: u64

definition minTotalRAMBytes :: u64 where "minTotalRAMBytes = 134217728"

definition fallbackTotalRAMBytes :: u64 where "fallbackTotalRAMBytes = 268435456"

definition rssRefreshInterval :: duration where "rssRefreshInterval = Second"

definition rssRefreshPressureInterval :: duration where
  "rssRefreshPressureInterval = 150 * Millisecond"

definition pressureSampleMaxFactor :: int where "pressureSampleMaxFactor = 16"

text \<open>The constant 0.70 of the source, as a float64.\<close>

definition pressureSampleStart :: "(real \<Rightarrow> real) \<Rightarrow> real" where
  "pressureSampleStart rnd = rnd (7 / 10)"

definition pressureSampleFloor :: "(real \<Rightarrow> real) \<Rightarrow> real \<Rightarrow> int" where
  "pressureSampleFloor rnd p =
     (if p \<le> pressureSampleStart rnd then 1
      else let span0 = rnd (rnd (p - pressureSampleStart rnd) / rnd (3 / 10));
               span = (if span0 > 1 then 1 else span0)
           in 1 + \<lfloor>rnd (rnd (span * 15) + 1 / 2)\<rfloor>)"

text \<open>\<open>uint64(f * float64(totalRAM))\<close> for a fraction \<open>f\<close>.\<close>

definition fractionOf :: "(real \<Rightarrow> real) \<Rightarrow> real \<Rightarrow> u64 \<Rightarrow> u64" where
  "fractionOf rnd f ram = of_int \<lfloor>rnd (rnd f * rnd (real (unat ram)))\<rfloor>"

definition refreshRSS :: "(u64 \<times> bool) option \<Rightarrow> memGovernor \<Rightarrow> memGovernor" where
  "refreshRSS reading g =
     (case reading of
        Some (rss, True) \<Rightarrow> g\<lparr>cachedRSS := rss\<rparr>
      | _ \<Rightarrow> g\<lparr>cachedRSS := 0\<rparr>)"

definition newMemGovernor :: "(real \<Rightarrow> real) \<Rightarrow> u64 \<Rightarrow> (u64 \<times> bool) option \<Rightarrow> memGovernor" where
  "newMemGovernor rnd ram reading =
     (let g = refreshRSS reading
                \<lparr>totalRAM = ram, shareBudget = fractionOf rnd (4 / 10) ram,
                 rssCeiling = fractionOf rnd (8 / 10) ram, baselineRSS = 0,
                 bufferBytes = 0, cachedRSS = 0\<rparr>
      in g\<lparr>baselineRSS := cachedRSS g\<rparr>)"

definition budgetOf :: "memGovernor \<Rightarrow> int" where
  "budgetOf g = i64 (uint (shareBudget g))"

definition tryReserve :: "int \<Rightarrow> memGovernor \<Rightarrow> bool \<times> memGovernor" where
  "tryReserve n g =
     (if n \<le> 0 then (True, g)
      else if cachedRSS g > rssCeiling g then (False, g)
      else if i64 (bufferBytes g + n) > budgetOf g then (False, g)
      else (True, g\<lparr>bufferBytes := i64 (bufferBytes g + n)\<rparr>))"

definition release :: "int \<Rightarrow> memGovernor \<Rightarrow> memGovernor" where
  "release n g =
     (if n \<le> 0 then g
      else let v = i64 (bufferBytes g - n) in g\<lparr>bufferBytes := (if v < 0 then 0 else v)\<rparr>)"

definition pressure :: "(real \<Rightarrow> real) \<Rightarrow> memGovernor \<Rightarrow> real" where
  "pressure rnd g =
     (let p = (if shareBudget g > 0
               then max 0 (rnd (rnd (of_int (bufferBytes g)) / rnd (real (unat (shareBudget g)))))
               else 0)
      in if cachedRSS g > baselineRSS g then
           (let denom = rnd (rnd (real (unat (rssCeiling g))) - rnd (real (unat (baselineRSS g))))
            in if denom \<le> 0 then max p 1
               else max p (rnd (rnd (rnd (real (unat (cachedRSS g))) - rnd (real (unat (baselineRSS g))))
                                / denom)))
         else p)"

definition nextRefreshInterval :: "(real \<Rightarrow> real) \<Rightarrow> memGovernor \<Rightarrow> duration" where
  "nextRefreshInterval rnd g =
     (if pressure rnd g > pressureSampleStart rnd then rssRefreshPressureInterval
      else rssRefreshInterval)"

definition clampTotalRAM :: "u64 \<Rightarrow> bool \<Rightarrow> u64" where
  "clampTotalRAM detected ok =
     (if \<not> ok \<or> detected = 0 then fallbackTotalRAMBytes
      else if detected < minTotalRAMBytes then minTotalRAMBytes else detected)"

section \<open>Parsing the kernel's files\<close>

text \<open>\<open>unicode.IsSpace\<close> on ASCII; the kernel's files are ASCII.\<close>

definition is_space :: "char \<Rightarrow> bool" where
  "is_space c = (byte c \<in> {9, 10, 11, 12, 13, 32})"

fun fields_aux :: "string \<Rightarrow> string \<Rightarrow> string list" where
  "fields_aux [] cur = (if cur = [] then [] else [rev cur])"
| "fields_aux (c # s) cur =
     (if is_space c then (if cur = [] then fields_aux s [] else rev cur # fields_aux s [])
      else fields_aux s (c # cur))"

abbreviation Fields :: "string \<Rightarrow> string list" where
  "Fields s \<equiv> fields_aux s []"

definition parseStatmRSS :: "string \<Rightarrow> int \<Rightarrow> (u64 \<times> bool)" where
  "parseStatmRSS data pageSize =
     (let fs = Fields data
      in if length fs < 2 \<or> pageSize \<le> 0 then (0, False)
         else case ParseUint 64 (fs ! 1) of
                None \<Rightarrow> (0, False)
              | Some pages \<Rightarrow> (of_nat pages * of_int pageSize, True))"

definition trimWhite :: "string \<Rightarrow> string" where
  "trimWhite s = rev (dropWhile is_space (rev (dropWhile is_space s)))"

definition parseCgroupMemMax :: "string \<Rightarrow> (u64 \<times> bool)" where
  "parseCgroupMemMax data =
     (let s = trimWhite data
      in if s = [] \<or> s = ''max'' then (0, False)
         else case ParseUint 64 s of
                None \<Rightarrow> (0, False)
              | Some v \<Rightarrow> if v = 0 then (0, False) else (of_nat v, True))"

text \<open>
  \<open>detectTotalRAM\<close>: the smaller of the machine's memory (\<open>sysinfo\<close>, \<open>None\<close> when the call
  fails) and the cgroup limit (the file's content, \<open>None\<close> when it cannot be read).
\<close>

definition detectTotalRAM :: "(u64 \<times> u64) option \<Rightarrow> string option \<Rightarrow> u64 \<times> bool" where
  "detectTotalRAM sysinfo cgroupFile =
     (let best = (case sysinfo of
                    Some (ram, unt) \<Rightarrow> if ram * unt > 0 then ram * unt else 0
                  | None \<Rightarrow> 0);
          best' = (case cgroupFile of
                     Some data \<Rightarrow> (case parseCgroupMemMax data of
                         (limit, ok) \<Rightarrow> if ok \<and> (best = 0 \<or> limit < best) then limit else best)
                   | None \<Rightarrow> best)
      in (best', best' > 0))"

section \<open>The budget as an interface\<close>

text \<open>What the buffers rely on: a grant keeps the total within the budget, a release returns it.\<close>

locale byte_budget =
  fixes grant :: "int \<Rightarrow> 'g \<Rightarrow> bool \<times> 'g" and give :: "int \<Rightarrow> 'g \<Rightarrow> 'g"
    and used :: "'g \<Rightarrow> int" and lim :: "'g \<Rightarrow> int" and ok :: "'g \<Rightarrow> bool"
  assumes ok_range: "ok g \<Longrightarrow> 0 \<le> used g \<and> used g \<le> lim g"
    and grant_ok: "ok g \<Longrightarrow> 0 \<le> n \<Longrightarrow> n \<le> max_i64 - lim g \<Longrightarrow> grant n g = (b, g') \<Longrightarrow>
        ok g' \<and> lim g' = lim g \<and> used g' = used g + (if b then n else 0)"
    and give_ok: "ok g \<Longrightarrow> 0 \<le> n \<Longrightarrow> n \<le> used g \<Longrightarrow>
        ok (give n g) \<and> lim (give n g) = lim g \<and> used (give n g) = used g - n"
begin

lemma grant_give:
  assumes "ok g" "0 \<le> n" "n \<le> max_i64 - lim g" "grant n g = (True, g')"
  shows "used (give n g') = used g"
  using grant_ok [OF assms(1-3) assms(4)] give_ok [of g' n] ok_range [OF assms(1)] assms(2) by simp

end

definition gov_ok :: "memGovernor \<Rightarrow> bool" where
  "gov_ok g = (0 \<le> bufferBytes g \<and> bufferBytes g \<le> budgetOf g)"

lemma budgetOf_le: "budgetOf g \<le> max_i64"
  using i64_range by (simp add: budgetOf_def)

lemma tryReserve_eq:
  assumes "gov_ok g" and "0 \<le> n" and "n \<le> max_i64 - budgetOf g"
  shows "tryReserve n g =
    (if n = 0 then (True, g)
     else if cachedRSS g > rssCeiling g \<or> bufferBytes g + n > budgetOf g then (False, g)
     else (True, g\<lparr>bufferBytes := bufferBytes g + n\<rparr>))"
proof -
  have "min_i64 \<le> bufferBytes g + n" "bufferBytes g + n \<le> max_i64"
    using assms by (auto simp: gov_ok_def min_i64_def)
  then have "i64 (bufferBytes g + n) = bufferBytes g + n" by (rule i64_id)
  with assms(2) show ?thesis by (auto simp: tryReserve_def)
qed

lemma release_eq:
  assumes "gov_ok g" and "0 \<le> n" and "n \<le> bufferBytes g"
  shows "release n g = g\<lparr>bufferBytes := bufferBytes g - n\<rparr>"
proof -
  have "i64 (bufferBytes g - n) = bufferBytes g - n"
    using assms budgetOf_le [of g] by (intro i64_id) (auto simp: gov_ok_def min_i64_def)
  then show ?thesis using assms by (auto simp: release_def)
qed

interpretation gov: byte_budget tryReserve release bufferBytes budgetOf gov_ok
proof unfold_locales
  fix g n b g'
  assume "gov_ok g" "0 \<le> n" "n \<le> max_i64 - budgetOf g" "tryReserve n g = (b, g')"
  then show "gov_ok g' \<and> budgetOf g' = budgetOf g \<and> bufferBytes g' = bufferBytes g + (if b then n else 0)"
    by (auto simp: tryReserve_eq gov_ok_def budgetOf_def split: if_splits)
next
  fix g n
  assume "gov_ok g" "0 \<le> n" "n \<le> bufferBytes g"
  then show "gov_ok (release n g) \<and> budgetOf (release n g) = budgetOf g
      \<and> bufferBytes (release n g) = bufferBytes g - n"
    by (simp add: release_eq) (simp add: gov_ok_def budgetOf_def)
qed (auto simp: gov_ok_def)

text \<open>Above the ceiling nothing is granted, and a release never leaves a negative tally.\<close>

lemma tryReserve_ceiling: "0 < n \<Longrightarrow> cachedRSS g > rssCeiling g \<Longrightarrow> tryReserve n g = (False, g)"
  by (simp add: tryReserve_def)

lemma release_nonneg: "0 \<le> bufferBytes g \<Longrightarrow> 0 \<le> bufferBytes (release n g)"
  by (simp add: release_def Let_def)

lemma clampTotalRAM_floor: "minTotalRAMBytes \<le> clampTotalRAM d b"
  by (auto simp: clampTotalRAM_def minTotalRAMBytes_def fallbackTotalRAMBytes_def)

section \<open>Pressure\<close>

definition rounds :: "(real \<Rightarrow> real) \<Rightarrow> bool" where
  "rounds rnd = ((\<forall>x y. x \<le> y \<longrightarrow> rnd x \<le> rnd y) \<and> rnd 0 = 0 \<and> rnd (1 / 2) = 1 / 2
     \<and> rnd 15 = 15 \<and> rnd (31 / 2) = 31 / 2 \<and> rnd (3 / 10) > 0)"

lemma rounds_id: "rounds (\<lambda>x. x)"
  by (simp add: rounds_def)

lemma pressureSampleFloor_range:
  assumes "rounds rnd"
  shows "1 \<le> pressureSampleFloor rnd p \<and> pressureSampleFloor rnd p \<le> pressureSampleMaxFactor"
proof (cases "p \<le> pressureSampleStart rnd")
  case True
  then show ?thesis by (simp add: pressureSampleFloor_def pressureSampleMaxFactor_def)
next
  case False
  have mono: "x \<le> y \<Longrightarrow> rnd x \<le> rnd y" for x y using assms by (simp add: rounds_def)
  have r0: "rnd 0 = 0" and rh: "rnd (1 / 2) = 1 / 2" and r15: "rnd 15 = 15"
    and r155: "rnd (31 / 2) = 31 / 2" and r3: "rnd (3 / 10) > 0"
    using assms by (simp_all add: rounds_def)
  define span0 where "span0 = rnd (rnd (p - pressureSampleStart rnd) / rnd (3 / 10))"
  define span where "span = (if span0 > 1 then 1 else span0)"
  have "0 \<le> rnd (p - pressureSampleStart rnd)" using mono [of 0] r0 False by simp
  then have "0 \<le> span0" unfolding span0_def using mono [of 0] r0 r3 by simp
  then have span: "0 \<le> span" "span \<le> 1" by (simp_all add: span_def)
  have "0 \<le> rnd (span * 15)" using mono [of 0 "span * 15"] r0 span by simp
  then have lo: "1 / 2 \<le> rnd (rnd (span * 15) + 1 / 2)" using mono [of "1 / 2"] rh by simp
  have "rnd (span * 15) \<le> 15" using mono [of "span * 15" 15] r15 span by simp
  then have hi: "rnd (rnd (span * 15) + 1 / 2) \<le> 31 / 2" using mono [of _ "31 / 2"] r155 by simp
  have "pressureSampleFloor rnd p = 1 + \<lfloor>rnd (rnd (span * 15) + 1 / 2)\<rfloor>"
    using False by (simp add: pressureSampleFloor_def span_def span0_def Let_def)
  moreover have "0 \<le> \<lfloor>rnd (rnd (span * 15) + 1 / 2)\<rfloor>" using lo by linarith
  moreover have "\<lfloor>rnd (rnd (span * 15) + 1 / 2)\<rfloor> \<le> 15" using hi by linarith
  ultimately show ?thesis by (simp add: pressureSampleMaxFactor_def)
qed

section \<open>Interleaved reservations\<close>

text \<open>
  \<open>tryReserve\<close> loads the tally and installs the sum by compare-and-swap, retrying when another
  goroutine got in between; \<open>release\<close> subtracts and then clamps a negative tally by a second
  compare-and-swap.  A goroutine is at one of these points; \<open>held\<close> is what it was granted and
  has not released.  The RSS check only turns some attempts away, so an attempt may start at
  will.  The budget is assumed below the range of an int64, so no sum wraps.
\<close>

datatype govPC = Idle | Want int | Loaded int int | Clamp int

record govRun =
  tallyBytes :: int
  held :: "int list"
  pcs :: "govPC list"

inductive gov_step :: "int \<Rightarrow> govRun \<Rightarrow> govRun \<Rightarrow> bool" for budget :: int where
  start: "t < length (pcs s) \<Longrightarrow> pcs s ! t = Idle \<Longrightarrow> 0 < n \<Longrightarrow>
      gov_step budget s (s\<lparr>pcs := (pcs s)[t := Want n]\<rparr>)"
| load: "t < length (pcs s) \<Longrightarrow> pcs s ! t = Want n \<Longrightarrow>
      gov_step budget s (s\<lparr>pcs := (pcs s)[t := Loaded n (tallyBytes s)]\<rparr>)"
| refuse: "t < length (pcs s) \<Longrightarrow> pcs s ! t = Loaded n cur \<Longrightarrow> cur + n > budget \<Longrightarrow>
      gov_step budget s (s\<lparr>pcs := (pcs s)[t := Idle]\<rparr>)"
| cas_ok: "t < length (pcs s) \<Longrightarrow> pcs s ! t = Loaded n cur \<Longrightarrow> cur + n \<le> budget \<Longrightarrow>
      tallyBytes s = cur \<Longrightarrow>
      gov_step budget s (s\<lparr>tallyBytes := cur + n, held := (held s)[t := held s ! t + n],
                           pcs := (pcs s)[t := Idle]\<rparr>)"
| cas_fail: "t < length (pcs s) \<Longrightarrow> pcs s ! t = Loaded n cur \<Longrightarrow> cur + n \<le> budget \<Longrightarrow>
      tallyBytes s \<noteq> cur \<Longrightarrow>
      gov_step budget s (s\<lparr>pcs := (pcs s)[t := Want n]\<rparr>)"
| add_back: "t < length (pcs s) \<Longrightarrow> pcs s ! t = Idle \<Longrightarrow> 0 < n \<Longrightarrow> n \<le> held s ! t \<Longrightarrow>
      v = tallyBytes s - n \<Longrightarrow>
      gov_step budget s (s\<lparr>tallyBytes := v, held := (held s)[t := held s ! t - n],
                           pcs := (pcs s)[t := (if v < 0 then Clamp v else Idle)]\<rparr>)"
| clamp: "t < length (pcs s) \<Longrightarrow> pcs s ! t = Clamp v \<Longrightarrow>
      gov_step budget s (s\<lparr>tallyBytes := (if tallyBytes s = v then 0 else tallyBytes s),
                           pcs := (pcs s)[t := Idle]\<rparr>)"

inductive gov_reach :: "int \<Rightarrow> nat \<Rightarrow> govRun \<Rightarrow> bool" for budget :: int and threads :: nat where
  gov_init: "gov_reach budget threads
      \<lparr>tallyBytes = 0, held = replicate threads 0, pcs = replicate threads Idle\<rparr>"
| gov_more: "gov_reach budget threads s \<Longrightarrow> gov_step budget s s' \<Longrightarrow> gov_reach budget threads s'"

inductive_cases gov_stepE: "gov_step budget s s'"

text \<open>
  In every interleaving the tally is exactly what the goroutines hold, it never passes the
  budget, and the clamp of \<open>release\<close> is never reached.
\<close>

definition gov_inv :: "int \<Rightarrow> govRun \<Rightarrow> bool" where
  "gov_inv budget s =
     (length (held s) = length (pcs s) \<and> tallyBytes s = sum_list (held s)
      \<and> (\<forall>x \<in> set (held s). 0 \<le> x) \<and> tallyBytes s \<le> budget
      \<and> (\<forall>pc \<in> set (pcs s). (\<forall>v. pc \<noteq> Clamp v) \<and> (\<forall>n. pc = Want n \<longrightarrow> 0 < n)
           \<and> (\<forall>n c. pc = Loaded n c \<longrightarrow> 0 < n)))"

lemma in_set_update: "x \<in> set (xs[i := y]) \<Longrightarrow> x = y \<or> x \<in> set xs"
  by (meson insertE set_update_subset_insert subsetD)

lemma gov_inv_pc:
  assumes "gov_inv budget s" and "\<forall>v. pc \<noteq> Clamp v" and "\<forall>n. pc = Want n \<longrightarrow> 0 < n"
    and "\<forall>n c. pc = Loaded n c \<longrightarrow> 0 < n"
  shows "gov_inv budget (s\<lparr>pcs := (pcs s)[t := pc]\<rparr>)"
  using assms by (auto simp: gov_inv_def dest!: in_set_update)

lemma gov_inv_held:
  assumes inv: "gov_inv budget s" and t: "t < length (pcs s)" and "0 \<le> held s ! t + d"
    and "tallyBytes s + d \<le> budget"
  shows "gov_inv budget (s\<lparr>tallyBytes := tallyBytes s + d, held := (held s)[t := held s ! t + d]\<rparr>)"
proof -
  have "t < length (held s)" using inv t by (simp add: gov_inv_def)
  then have "sum_list ((held s)[t := held s ! t + d]) = sum_list (held s) + d"
    using sum_list_map_update [of t "held s" "\<lambda>x. x" "held s ! t + d"] by simp
  moreover have "\<forall>x \<in> set ((held s)[t := held s ! t + d]). 0 \<le> x"
    using inv assms(3) by (auto simp: gov_inv_def dest!: in_set_update)
  ultimately show ?thesis using inv assms(4) by (simp add: gov_inv_def)
qed

lemma held_nonneg: "gov_inv budget s \<Longrightarrow> t < length (pcs s) \<Longrightarrow> 0 \<le> held s ! t"
  by (simp add: gov_inv_def)

lemma held_le_tally:
  assumes "gov_inv budget s" and "t < length (pcs s)"
  shows "held s ! t \<le> tallyBytes s"
proof -
  have "held s ! t \<in> set (held s)" and nn: "\<forall>x \<in> set (held s). 0 \<le> x"
    using assms by (auto simp: gov_inv_def)
  then have "held s ! t \<le> sum_list (held s)"
  proof (induction "held s" arbitrary: s)
    case Nil
    then show ?case by simp
  next
    case (Cons x xs)
    have "y \<in> set xs \<Longrightarrow> \<forall>z \<in> set xs. 0 \<le> z \<Longrightarrow> y \<le> sum_list xs" for y :: int and xs
      by (induction xs) (auto simp: sum_list_nonneg add_increasing add_increasing2)
    then show ?case using Cons.prems by blast
  qed
  then show ?thesis using assms(1) by (simp add: gov_inv_def)
qed

lemma gov_step_inv:
  assumes "gov_step budget s s'" and inv: "gov_inv budget s"
  shows "gov_inv budget s'"
  using assms(1)
proof cases
  case (start t n)
  then show ?thesis using inv by (simp add: gov_inv_pc)
next
  case (load t n)
  then have "Want n \<in> set (pcs s)" by (metis nth_mem)
  then have "0 < n" using inv by (auto simp: gov_inv_def)
  then show ?thesis using load inv by (simp add: gov_inv_pc)
next
  case (refuse t n cur)
  then show ?thesis using inv by (simp add: gov_inv_pc)
next
  case (cas_ok t n cur)
  then have "Loaded n cur \<in> set (pcs s)" by (metis nth_mem)
  then have "0 < n" using inv by (auto simp: gov_inv_def)
  then have "0 \<le> held s ! t + n" using held_nonneg [OF inv cas_ok(2)] by simp
  then have "gov_inv budget (s\<lparr>tallyBytes := tallyBytes s + n, held := (held s)[t := held s ! t + n]\<rparr>)"
    using cas_ok by (intro gov_inv_held [OF inv]) auto
  from gov_inv_pc [OF this, of Idle t] show ?thesis using cas_ok by simp
next
  case (cas_fail t n cur)
  then have "Loaded n cur \<in> set (pcs s)" by (metis nth_mem)
  then have "0 < n" using inv by (auto simp: gov_inv_def)
  then show ?thesis using cas_fail inv by (simp add: gov_inv_pc)
next
  case (add_back t n v)
  have "n \<le> tallyBytes s" using held_le_tally [OF inv add_back(2)] add_back(5) by simp
  then have v: "\<not> v < 0" using add_back(6) by simp
  have "gov_inv budget (s\<lparr>tallyBytes := tallyBytes s + - n, held := (held s)[t := held s ! t + - n]\<rparr>)"
    using add_back inv by (intro gov_inv_held [OF inv]) (auto simp: gov_inv_def)
  from gov_inv_pc [OF this, of Idle t] show ?thesis using add_back v by simp
next
  case (clamp t v)
  then have "Clamp v \<in> set (pcs s)" by (metis nth_mem)
  then show ?thesis using inv by (auto simp: gov_inv_def)
qed

lemma gov_reach_inv:
  assumes "0 \<le> budget" and "gov_reach budget threads s"
  shows "gov_inv budget s"
  using assms(2)
proof induction
  case gov_init
  then show ?case using assms(1) by (simp add: gov_inv_def sum_list_replicate)
next
  case (gov_more s s')
  then show ?case using gov_step_inv by blast
qed

lemma gov_inv_nonneg: "gov_inv budget s \<Longrightarrow> 0 \<le> tallyBytes s"
  by (auto simp: gov_inv_def intro: sum_list_nonneg)

end
