(* ===== verification/Hashing.thy ===== *)
theory Hashing
  imports Rows Go_Text
begin

text \<open>
  The FNV-1a mixers that place a key in its shard (app.go), the client hash (hash.go), the
  1-in-16 sample of client addresses (l4\_ip\_event.go) and the latency histogram
  (histogram.go).
\<close>

section \<open>FNV-1a (app.go, hash.go, l4\_ip\_event.go)\<close>

definition fnv1aOffset :: u64 where "fnv1aOffset = 14695981039346656037"

definition fnv1aPrime :: u64 where "fnv1aPrime = 1099511628211"

definition mixByte :: "u64 \<Rightarrow> u8 \<Rightarrow> u64" where
  "mixByte h b = (h XOR ucast b) * fnv1aPrime"

definition mixUint32 :: "u64 \<Rightarrow> u32 \<Rightarrow> u64" where
  "mixUint32 h v = fold (\<lambda>i h. mixByte h (ucast (drop_bit (i * 8) v))) [0..<4] h"

definition mixUint16 :: "u64 \<Rightarrow> u16 \<Rightarrow> u64" where
  "mixUint16 h v = mixByte (mixByte h (ucast v)) (ucast (drop_bit 8 v))"

definition mixString :: "u64 \<Rightarrow> string \<Rightarrow> u64" where
  "mixString h s = fold (\<lambda>c h. mixByte h (of_nat (byte c))) s h"

definition shardCount :: nat where "shardCount = 16"

definition shardMask :: u64 where "shardMask = of_nat shardCount - 1"

definition boolToUint16 :: "bool \<Rightarrow> u16" where
  "boolToUint16 b = (if b then 1 else 0)"

text \<open>The index into the array of shards.\<close>

definition shardForKey :: "Key \<Rightarrow> nat" where
  "shardForKey k =
     (let h = fnv1aOffset;
          h = mixUint32 h (k_VhostID k);
          h = mixUint16 h (k_Status k);
          h = mixString h (k_Method k);
          h = mixString h (k_Origin k);
          h = mixString h (k_Country k);
          h = mixUint32 h (k_ASN k);
          h = mixUint16 h (boolToUint16 (k_DefenseExempt k))
      in unat (h AND shardMask))"

definition shardForUnique :: "u32 \<Rightarrow> u32 \<Rightarrow> nat" where
  "shardForUnique t v =
     (let h = fnv1aOffset; h = mixUint32 h t; h = mixUint32 h v in unat (h AND shardMask))"

text \<open>\<open>fnv.New64a()\<close>: writes append to the hashed bytes.\<close>

definition ClientHash :: "string \<Rightarrow> string \<Rightarrow> string \<Rightarrow> u64" where
  "ClientHash ip ua salt =
     mixString (mixString (mixString (mixString (mixString fnv1aOffset ip) [CHR 0x1F]) ua) [CHR 0x1F])
       salt"

definition sampleDenom :: u64 where "sampleDenom = 16"

definition sampleIP :: "string \<Rightarrow> bool" where
  "sampleIP ip = (mixString fnv1aOffset ip mod sampleDenom = 0)"

section \<open>The latency histogram (histogram.go)\<close>

definition histogramUpperBoundsUs :: "nat list" where
  "histogramUpperBoundsUs =
     [1000, 2000, 5000, 10000, 25000, 50000, 100000, 250000, 500000, 1000000, 2500000, 5000000,
      10000000, 30000000, 60000000]"

fun bucketScan :: "nat \<Rightarrow> nat list \<Rightarrow> nat \<Rightarrow> nat" where
  "bucketScan us [] i = i"
| "bucketScan us (b # bs) i = (if us < b then i else bucketScan us bs (i + 1))"

definition BucketForUs :: "u64 \<Rightarrow> nat" where
  "BucketForUs us = bucketScan (unat us) histogramUpperBoundsUs 0"

section \<open>Properties\<close>

lemma mixString_append: "mixString h (s @ t) = mixString (mixString h s) t"
  by (simp add: mixString_def)

lemma ClientHash_eq:
  "ClientHash ip ua salt = mixString fnv1aOffset (ip @ [CHR 0x1F] @ ua @ [CHR 0x1F] @ salt)"
  by (simp add: ClientHash_def mixString_def)

lemma mask_lt: "unat (h AND shardMask) < shardCount"
proof -
  have "h AND shardMask \<le> shardMask" by (rule word_and_le1)
  then have "unat (h AND shardMask) \<le> unat shardMask" by (simp add: word_le_nat_alt)
  also have "unat shardMask = 15" by (simp add: shardMask_def shardCount_def)
  finally show ?thesis by (simp add: shardCount_def)
qed

lemma shardForKey_lt: "shardForKey k < shardCount"
  by (simp add: shardForKey_def Let_def mask_lt)

lemma shardForUnique_lt: "shardForUnique t v < shardCount"
  by (simp add: shardForUnique_def Let_def mask_lt)

text \<open>The minute is not part of the placement of a counter key.\<close>

lemma shardForKey_ts: "shardForKey (k\<lparr>k_TsUnixMin := t\<rparr>) = shardForKey k"
  by (simp add: shardForKey_def)

lemma bucketScan_spec:
  "i \<le> bucketScan us bs i \<and> bucketScan us bs i \<le> i + length bs"
  "j < bucketScan us bs i - i \<Longrightarrow> bs ! j \<le> us"
  "bucketScan us bs i < i + length bs \<Longrightarrow> us < bs ! (bucketScan us bs i - i)"
proof (induction bs arbitrary: i j)
  case Nil
  { case 1 then show ?case by simp }
  { case 2 then show ?case by simp }
  { case 3 then show ?case by simp }
next
  case (Cons b bs)
  { case 1 then show ?case using Cons.IH(1) [of "i + 1"] by auto }
  { case 2
    then show ?case using Cons.IH(2) [of "j - 1" "i + 1"]
      by (cases j) (auto split: if_splits) }
  { case 3
    show ?case
    proof (cases "us < b")
      case False
      have "i + 1 \<le> bucketScan us bs (i + 1)" using Cons.IH(1) by blast
      then have "bucketScan us (b # bs) i - i = Suc (bucketScan us bs (i + 1) - (i + 1))"
        using False by simp
      moreover have "us < bs ! (bucketScan us bs (i + 1) - (i + 1))"
        using 3 False by (intro Cons.IH(3)) simp
      ultimately show ?thesis by (simp only: nth_Cons_Suc)
    qed simp }
qed

lemma BucketForUs_lt: "BucketForUs us < HistogramBuckets"
  using bucketScan_spec(1) [of 0 "unat us" histogramUpperBoundsUs]
  by (simp add: BucketForUs_def HistogramBuckets_def histogramUpperBoundsUs_def
      del: bucketScan.simps)

text \<open>
  A latency falls in the bucket whose bounds enclose it: at least the bound below, less than
  the bound above, the last bucket unbounded.
\<close>

lemma BucketForUs_bounds:
  "0 < BucketForUs us \<Longrightarrow> histogramUpperBoundsUs ! (BucketForUs us - 1) \<le> unat us"
  "BucketForUs us < HistogramBuckets - 1 \<Longrightarrow> unat us < histogramUpperBoundsUs ! BucketForUs us"
  unfolding BucketForUs_def
  using bucketScan_spec(2) [of "bucketScan (unat us) histogramUpperBoundsUs 0 - 1" "unat us"
      histogramUpperBoundsUs 0]
    bucketScan_spec(3) [of "unat us" histogramUpperBoundsUs 0]
  by (simp_all add: HistogramBuckets_def histogramUpperBoundsUs_def del: bucketScan.simps)

end
