(* ===== verification/Domain_Health.thy ===== *)
theory Domain_Health
  imports Wire Settings Mem_Governor Hashing
begin

text \<open>
  Domain health (domain\_health.go, domain\_health\_budget.go): a capped map per shard whose
  entries are backed by process-wide credits and by governor bytes, and the frame that carries
  them to the batch.  A lease stands for the credits of detached entries; whoever holds it
  gives them back once, by delivery or by a counted drop.  The retired flag is an atomic that
  other goroutines set, so the code that polls it takes the readings as a function.
\<close>

section \<open>State\<close>

datatype domainHealthDropReason =
  DropCapacity | DropPressure | DropRetired | DropEncodeBusy | DropFrameLimit | DropEncodeError
  | DropQueue | DropDelivery

definition domainHealthResidentRecords :: int where "domainHealthResidentRecords = 8192"

definition domainHealthRawFrameBytes :: int where "domainHealthRawFrameBytes = 4194304"

definition domainHealthEntryBytes :: int where "domainHealthEntryBytes = 384"

text \<open>
  \<open>domainHealthCredits\<close> and \<open>domainHealthEncoding\<close> are package variables; \<open>drops\<close> is what
  \<open>countDomainHealthDrop\<close> has counted.
\<close>

record healthState =
  healthShards :: "(domainHealthKey, domainHealthCounter) gomap list"
  domainHealthKeys :: int
  domainHealthRetired :: bool
  memGov :: "memGovernor option"
  domainHealthCredits :: int
  domainHealthEncoding :: bool
  drops :: "domainHealthDropReason \<Rightarrow> int"

record domainHealthLease =
  l_records :: int
  l_released :: bool

record domainHealthSnapshot =
  s_rows :: "(domainHealthKey, domainHealthCounter) gomap"
  s_lease :: domainHealthLease

record domainHealthFrame =
  f_raw :: string
  f_lease :: domainHealthLease
  f_encodedRows :: int
  f_finished :: bool

section \<open>Recording\<close>

definition validDomainHealthKey :: "string \<Rightarrow> bool" where
  "validDomainHealthKey key =
     (length key = 64
      \<and> list_all (\<lambda>c. (CHR ''0'' \<le> c \<and> c \<le> CHR ''9'') \<or> (CHR ''a'' \<le> c \<and> c \<le> CHR ''f'')) key)"

definition countDomainHealthDrop :: "domainHealthDropReason \<Rightarrow> int \<Rightarrow> healthState \<Rightarrow> healthState" where
  "countDomainHealthDrop reason records a =
     (if records \<le> 0 then a else a\<lparr>drops := (drops a)(reason := drops a reason + records)\<rparr>)"

definition reserveDomainHealthKey :: "ingestRuntime \<Rightarrow> healthState \<Rightarrow> bool \<times> healthState" where
  "reserveDomainHealthKey cfg a =
     (if domainHealthKeys a \<ge> maxBuffer cfg then (False, a)
      else (True, a\<lparr>domainHealthKeys := domainHealthKeys a + 1\<rparr>))"

definition reserveDomainHealthCredit :: "healthState \<Rightarrow> bool \<times> healthState" where
  "reserveDomainHealthCredit a =
     (if domainHealthCredits a \<ge> domainHealthResidentRecords then (False, a)
      else (True, a\<lparr>domainHealthCredits := domainHealthCredits a + 1\<rparr>))"

definition reserveHealthBytes :: "healthState \<Rightarrow> bool \<times> healthState" where
  "reserveHealthBytes a =
     (case memGov a of
        None \<Rightarrow> (True, a)
      | Some g \<Rightarrow> (case tryReserve domainHealthEntryBytes g of (b, g') \<Rightarrow> (b, a\<lparr>memGov := Some g'\<rparr>)))"

definition addHealth :: "domainHealthCounter \<Rightarrow> domainHealthCounter \<Rightarrow> domainHealthCounter" where
  "addHealth d c =
     \<lparr>dc_RequestCount = dc_RequestCount c + dc_RequestCount d,
      dc_RoutingResponses = dc_RoutingResponses c + dc_RoutingResponses d,
      dc_UpstreamResponses = dc_UpstreamResponses c + dc_UpstreamResponses d,
      dc_UpstreamSuccesses = dc_UpstreamSuccesses c + dc_UpstreamSuccesses d,
      dc_Upstream5xx = dc_Upstream5xx c + dc_Upstream5xx d,
      dc_ProxyErrors = dc_ProxyErrors c + dc_ProxyErrors d\<rparr>"

definition zeroHealth :: domainHealthCounter where
  "zeroHealth = \<lparr>dc_RequestCount = 0, dc_RoutingResponses = 0, dc_UpstreamResponses = 0,
     dc_UpstreamSuccesses = 0, dc_Upstream5xx = 0, dc_ProxyErrors = 0\<rparr>"

definition healthShard :: "domainHealthKey \<Rightarrow> nat" where
  "healthShard key = unat (dk_VhostID key AND 15)"

definition putHealth ::
    "domainHealthKey \<Rightarrow> domainHealthCounter \<Rightarrow> healthState \<Rightarrow> healthState" where
  "putHealth key c a =
     (let i = healthShard key
      in a\<lparr>healthShards := (healthShards a)[i := mput key c (healthShards a ! i)]\<rparr>)"

text \<open>The three reservations of a new key, each undone when a later one fails.\<close>

definition admitHealthKey :: "ingestRuntime \<Rightarrow> healthState \<Rightarrow> bool \<times> healthState" where
  "admitHealthKey cfg a =
     (case reserveDomainHealthKey cfg a of
        (False, a1) \<Rightarrow> (False, countDomainHealthDrop DropCapacity 1 a1)
      | (True, a1) \<Rightarrow>
          (case reserveDomainHealthCredit a1 of
             (False, a2) \<Rightarrow>
               (False, countDomainHealthDrop DropCapacity 1
                         (a2\<lparr>domainHealthKeys := domainHealthKeys a2 - 1\<rparr>))
           | (True, a2) \<Rightarrow>
               (case reserveHealthBytes a2 of
                  (False, a3) \<Rightarrow>
                    (False, countDomainHealthDrop DropPressure 1
                       (a3\<lparr>domainHealthKeys := domainHealthKeys a3 - 1,
                           domainHealthCredits := domainHealthCredits a3 - 1\<rparr>))
                | (True, a3) \<Rightarrow> (True, a3))))"

definition RecordDomainHealth ::
    "ingestRuntime \<Rightarrow> domainHealthKey \<Rightarrow> domainHealthCounter \<Rightarrow> healthState \<Rightarrow> healthState" where
  "RecordDomainHealth cfg key delta a =
     (if dk_VhostID key = 0 \<or> \<not> validDomainHealthKey (dk_ConfigurationKey key) \<or> maxBuffer cfg \<le> 0
      then a
      else if domainHealthRetired a then countDomainHealthDrop DropRetired 1 a
      else case map_of (healthShards a ! healthShard key) key of
        Some c \<Rightarrow> putHealth key (addHealth delta c) a
      | None \<Rightarrow>
          (case admitHealthKey cfg a of
             (False, a') \<Rightarrow> a'
           | (True, a') \<Rightarrow> putHealth key (addHealth delta zeroHealth) a'))"

section \<open>Detaching\<close>

definition healthTotal :: "healthState \<Rightarrow> nat" where
  "healthTotal a = sum_list (map length (healthShards a))"

text \<open>
  The loop releases the bytes shard by shard; the releases add up, since each returns part of
  what the entries reserved.
\<close>

definition releaseHealth :: "(domainHealthKey, domainHealthCounter) gomap \<Rightarrow> healthState \<Rightarrow> healthState" where
  "releaseHealth m a =
     (let count = int (length m)
      in if count > 0 then
           a\<lparr>domainHealthKeys := domainHealthKeys a - count,
             memGov := map_option (release (count * domainHealthEntryBytes)) (memGov a)\<rparr>
         else a)"

definition detachDomainHealth ::
    "healthState \<Rightarrow> (domainHealthKey, domainHealthCounter) gomap list \<times> int \<times> healthState" where
  "detachDomainHealth a =
     (let a' = fold releaseHealth (healthShards a) a
      in (healthShards a, int (healthTotal a),
          a'\<lparr>healthShards := replicate (length (healthShards a)) []\<rparr>))"

definition drainDomainHealth :: "healthState \<Rightarrow> domainHealthSnapshot option \<times> healthState" where
  "drainDomainHealth a =
     (case detachDomainHealth a of
        (detached, records, a') \<Rightarrow>
          if records = 0 then (None, a')
          else (Some \<lparr>s_rows = fold (\<lambda>m out. fold (\<lambda>(k, v). mput k v) m out) detached [],
                      s_lease = \<lparr>l_records = records, l_released = False\<rparr>\<rparr>, a'))"

definition discardDomainHealth :: "domainHealthDropReason \<Rightarrow> healthState \<Rightarrow> healthState" where
  "discardDomainHealth reason a =
     (case detachDomainHealth a of
        (_, records, a') \<Rightarrow>
          if records > 0
          then countDomainHealthDrop reason records
                 (a'\<lparr>domainHealthCredits := domainHealthCredits a' - records\<rparr>)
          else a')"

definition retireDomainHealth :: "healthState \<Rightarrow> healthState" where
  "retireDomainHealth a = discardDomainHealth DropRetired (a\<lparr>domainHealthRetired := True\<rparr>)"

section \<open>Leases\<close>

definition leaseRelease ::
    "domainHealthLease option \<Rightarrow> healthState \<Rightarrow> bool \<times> domainHealthLease option \<times> healthState" where
  "leaseRelease lo a =
     (case lo of
        None \<Rightarrow> (False, None, a)
      | Some l \<Rightarrow>
          if l_released l then (False, Some l, a)
          else (True, Some (l\<lparr>l_released := True\<rparr>),
                a\<lparr>domainHealthCredits := domainHealthCredits a - l_records l\<rparr>))"

definition leaseDrop ::
    "domainHealthDropReason \<Rightarrow> domainHealthLease option \<Rightarrow> healthState
     \<Rightarrow> domainHealthLease option \<times> healthState" where
  "leaseDrop reason lo a =
     (case leaseRelease lo a of
        (True, Some l, a') \<Rightarrow> (Some l, countDomainHealthDrop reason (l_records l) a')
      | (_, lo', a') \<Rightarrow> (lo', a'))"

section \<open>The frame\<close>

record domainHealthBuffer =
  b_data :: string
  b_cap :: int
  b_limit :: int

definition bufReserve :: "int \<Rightarrow> domainHealthBuffer \<Rightarrow> domainHealthBuffer option" where
  "bufReserve n b =
     (if n > b_limit b - int (length (b_data b)) then None
      else let needed = int (length (b_data b)) + n
           in Some (if needed > b_cap b
                    then b\<lparr>b_cap := min (b_limit b) (max needed (max 512 (2 * b_cap b)))\<rparr> else b))"

text \<open>\<open>Write\<close> and \<open>WriteString\<close>.\<close>

definition bufWrite :: "string \<Rightarrow> domainHealthBuffer \<Rightarrow> domainHealthBuffer option" where
  "bufWrite s b =
     (case bufReserve (int (length s)) b of
        None \<Rightarrow> None
      | Some b' \<Rightarrow> Some (b'\<lparr>b_data := b_data b' @ s\<rparr>))"

text \<open>The encoding loop; \<open>ret i\<close> is the retired flag as the \<open>i\<close>-th iteration reads it.\<close>

fun encodeHealthRows ::
    "(nat \<Rightarrow> bool) \<Rightarrow> u32 \<Rightarrow> nat \<Rightarrow> (domainHealthKey, domainHealthCounter) gomap \<Rightarrow> domainHealthBuffer
     \<Rightarrow> domainHealthDropReason + domainHealthBuffer" where
  "encodeHealthRows ret ps i [] b = Inr b"
| "encodeHealthRows ret ps i ((key, counter) # rows) b =
     (if ret i then Inl DropRetired
      else case bufWrite (encodeDomainHealthRow ps key counter) b of
        None \<Rightarrow> Inl DropFrameLimit
      | Some b' \<Rightarrow> encodeHealthRows ret ps (Suc i) rows b')"

text \<open>\<open>ret 0\<close> is the reading at entry, \<open>ret (i + 1)\<close> the reading of iteration \<open>i\<close>.\<close>

definition prepareDomainHealth ::
    "(nat \<Rightarrow> bool) \<Rightarrow> u32 \<Rightarrow> domainHealthSnapshot option \<Rightarrow> int \<Rightarrow> healthState
     \<Rightarrow> domainHealthFrame option \<times> healthState" where
  "prepareDomainHealth ret ps snapshot rawLimit a =
     (case snapshot of
        None \<Rightarrow> (None, a)
      | Some snap \<Rightarrow>
          (let l = Some (s_lease snap) in
           if ret 0 then (None, snd (leaseDrop DropRetired l a))
           else if domainHealthEncoding a then (None, snd (leaseDrop DropEncodeBusy l a))
           else
             (let a1 = a\<lparr>domainHealthEncoding := True\<rparr>;
                  failed = (\<lambda>reason. (None, (snd (leaseDrop reason l a1))\<lparr>domainHealthEncoding := False\<rparr>))
              in if rawLimit \<le> 0 then failed DropFrameLimit
                 else case encodeHealthRows (ret \<circ> Suc) ps 0 (s_rows snap)
                        \<lparr>b_data = [], b_cap = min rawLimit (l_records (s_lease snap) * 448),
                         b_limit = rawLimit\<rparr> of
                   Inl reason \<Rightarrow> failed reason
                 | Inr b \<Rightarrow>
                     (Some \<lparr>f_raw = b_data b, f_lease = s_lease snap, f_encodedRows = 0,
                            f_finished = False\<rparr>, a1))))"

text \<open>The text written to the batch; writing to the in-memory gzip stream cannot fail.\<close>

definition frameWriteTo ::
    "bool \<Rightarrow> domainHealthFrame option \<Rightarrow> healthState \<Rightarrow> string \<times> domainHealthFrame option \<times> healthState" where
  "frameWriteTo ret fo a =
     (case fo of
        None \<Rightarrow> ([], None, a)
      | Some f \<Rightarrow>
          if f_finished f \<or> l_released (f_lease f) then ([], Some f, a)
          else if ret then
            (case leaseDrop DropRetired (Some (f_lease f)) a of
               (lo, a') \<Rightarrow> ([], Some (f\<lparr>f_lease := the lo\<rparr>), a'))
          else (f_raw f, Some (f\<lparr>f_encodedRows := l_records (f_lease f)\<rparr>), a))"

definition finishEncoding :: "domainHealthFrame option \<Rightarrow> healthState \<Rightarrow> domainHealthFrame option \<times> healthState" where
  "finishEncoding fo a =
     (case fo of
        None \<Rightarrow> (None, a)
      | Some f \<Rightarrow>
          if f_finished f then (Some f, a)
          else (Some (f\<lparr>f_finished := True, f_raw := []\<rparr>), a\<lparr>domainHealthEncoding := False\<rparr>))"

end
