(* ===== verification/Shipping.thy ===== *)
theory Shipping
  imports Domain_Health
begin

text \<open>
  Delivery of a batch (app.go, ship\_queue.go): one POST, the retry loop, and the queue of
  encoded bodies between the flush loop and the shipper.  The network and the contexts are an
  environment that says, attempt by attempt, what the code observes.
\<close>

section \<open>One attempt\<close>

datatype shipError = PermanentErr | TransientErr | CtxErr | WaitErr

definition isPermanent :: "shipError \<Rightarrow> bool" where
  "isPermanent err = (err = PermanentErr)"

text \<open>\<open>NoRequest\<close> is a request that could not be built, \<open>NoResponse\<close> a transport error.\<close>

datatype postResult = NoRequest | NoResponse | StatusCode int

definition shipOnce :: "postResult \<Rightarrow> shipError option" where
  "shipOnce r =
     (case r of
        NoRequest \<Rightarrow> Some PermanentErr
      | NoResponse \<Rightarrow> Some TransientErr
      | StatusCode n \<Rightarrow>
          if n \<ge> 200 \<and> n < 300 then None
          else if n \<ge> 400 \<and> n < 500 then Some PermanentErr
          else Some TransientErr)"

definition proxyServerIDHeader :: string where
  "proxyServerIDHeader = ''apx-proxy-server-id''"

text \<open>The \<open>Header.Set\<close> calls of a POST, in order.\<close>

definition shipHeaders :: "ingestRuntime \<Rightarrow> string \<Rightarrow> u32 \<Rightarrow> (string \<times> string) list" where
  "shipHeaders cfg secret ps =
     [(authHeader cfg, secret), (proxyServerIDHeader, FormatUint (unat ps)),
      (''Content-Type'', ''application/x-ndjson''), (''Content-Encoding'', ''gzip'')]"

section \<open>The retry loop\<close>

definition backoff :: "int \<Rightarrow> duration" where
  "backoff attempt =
     (if attempt = 1 then 200 * Millisecond
      else if attempt = 2 then 800 * Millisecond
      else 2400 * Millisecond)"

text \<open>
  What an attempt observes: the case that ends the backoff sleep, the wait context when it is
  polled, the result of the POST, and the attempt context after a failed POST.
\<close>

datatype wake = TimerFired | CtxDone | WaitDone

record attemptEnv =
  ae_wake :: wake
  ae_waitErr :: bool
  ae_post :: postResult
  ae_ctxErr :: bool

text \<open>The loop from attempt \<open>i\<close> with \<open>n\<close> attempts left: the POSTs made, and the error returned.\<close>

fun shipAttempts ::
    "(nat \<Rightarrow> attemptEnv) \<Rightarrow> nat \<Rightarrow> nat \<Rightarrow> shipError option \<Rightarrow> postResult list \<times> shipError option" where
  "shipAttempts env i 0 lastErr = ([], lastErr)"
| "shipAttempts env i (Suc n) lastErr =
     (if i > 0 \<and> ae_wake (env i) = CtxDone then ([], Some CtxErr)
      else if i > 0 \<and> ae_wake (env i) = WaitDone then ([], Some WaitErr)
      else if ae_waitErr (env i) then ([], Some WaitErr)
      else case shipOnce (ae_post (env i)) of
        None \<Rightarrow> ([ae_post (env i)], None)
      | Some err \<Rightarrow>
          if isPermanent err then ([ae_post (env i)], Some err)
          else if ae_ctxErr (env i) then ([ae_post (env i)], Some CtxErr)
          else (case shipAttempts env (Suc i) n (Some err) of
                  (posts, res) \<Rightarrow> (ae_post (env i) # posts, res)))"

definition shipWithRetryWait ::
    "(nat \<Rightarrow> attemptEnv) \<Rightarrow> int \<Rightarrow> postResult list \<times> shipError option" where
  "shipWithRetryWait env retries = shipAttempts env 0 (nat (retries + 1)) None"

definition shipFailureResult :: "bool \<Rightarrow> shipError \<Rightarrow> string" where
  "shipFailureResult ctxErr err =
     (if ctxErr then ''deadline'' else if isPermanent err then ''permanent'' else ''exhausted'')"

text \<open>
  The loop is a bounded search: every POST but the last failed in a way worth retrying, the
  batch is reported delivered exactly when the last POST was accepted, and at most one POST
  more than the retry budget is made.
\<close>

abbreviation transientPost :: "postResult \<Rightarrow> bool" where
  "transientPost r \<equiv> shipOnce r = Some TransientErr"

lemma shipOnce_kinds: "shipOnce r \<in> {None, Some PermanentErr, Some TransientErr}"
  by (simp add: shipOnce_def split: postResult.split)

lemma shipAttempts_spec:
  "shipAttempts env i n lastErr = (posts, res) \<Longrightarrow>
   length posts \<le> n
   \<and> (\<forall>r \<in> set (butlast posts). transientPost r)
   \<and> (res = None \<longleftrightarrow> (if n = 0 then lastErr = None else posts \<noteq> [] \<and> shipOnce (last posts) = None))"
proof (induction n arbitrary: i lastErr posts res)
  case 0
  then show ?case by simp
next
  case (Suc n)
  obtain ps r where rec: "shipAttempts env (Suc i) n (Some TransientErr) = (ps, r)" by fastforce
  note ih = Suc.IH [OF rec]
  consider "shipOnce (ae_post (env i)) = None" | "shipOnce (ae_post (env i)) = Some PermanentErr"
    | "transientPost (ae_post (env i))"
    using shipOnce_kinds [of "ae_post (env i)"] by fastforce
  then show ?case
  proof cases
    case 3
    then have "posts = [] \<and> res \<noteq> None \<or> posts = [ae_post (env i)] \<and> res \<noteq> None
        \<or> posts = ae_post (env i) # ps \<and> res = r"
      using Suc.prems rec by (simp add: isPermanent_def split: if_splits) auto
    then show ?thesis using ih 3 by (cases "ps = []") (auto split: if_splits)
  qed (use Suc.prems in \<open>auto simp: isPermanent_def split: if_splits\<close>)
qed

lemma shipWithRetryWait_spec:
  assumes "shipWithRetryWait env retries = (posts, res)" and "0 \<le> retries"
  shows "int (length posts) \<le> retries + 1"
    and "\<forall>r \<in> set (butlast posts). transientPost r"
    and "res = None \<longleftrightarrow> posts \<noteq> [] \<and> shipOnce (last posts) = None"
  using shipAttempts_spec [OF assms(1) [unfolded shipWithRetryWait_def]] assms(2) by auto

section \<open>The queue\<close>

record shipJob =
  j_body :: string
  j_rows :: int
  j_retries :: int
  j_shutdown :: bool
  j_health :: "domainHealthLease option"

record shipQueue =
  q_jobs :: "shipJob list"
  q_closed :: bool

definition shipQueueCap :: nat where "shipQueueCap = 2"

definition newShipQueue :: shipQueue where
  "newShipQueue = \<lparr>q_jobs = [], q_closed = False\<rparr>"

text \<open>\<open>shiftLocked\<close> is called with a job in the queue only.\<close>

definition shiftLocked :: "shipQueue \<Rightarrow> shipJob \<times> shipQueue" where
  "shiftLocked q = (hd (q_jobs q), q\<lparr>q_jobs := tl (q_jobs q)\<rparr>)"

definition push :: "shipJob \<Rightarrow> shipQueue \<Rightarrow> shipJob option \<times> shipQueue" where
  "push j q =
     (if length (q_jobs q) \<ge> shipQueueCap
      then (case shiftLocked q of (dropped, q') \<Rightarrow> (Some dropped, q'\<lparr>q_jobs := q_jobs q' @ [j]\<rparr>))
      else (None, q\<lparr>q_jobs := q_jobs q @ [j]\<rparr>))"

definition pushFront :: "shipJob \<Rightarrow> shipQueue \<Rightarrow> shipQueue" where
  "pushFront j q = q\<lparr>q_jobs := j # q_jobs q\<rparr>"

definition closeQueue :: "shipQueue \<Rightarrow> shipQueue" where
  "closeQueue q = q\<lparr>q_closed := True\<rparr>"

text \<open>One turn of the loop of \<open>pop\<close>: a job, the end, or waiting for a signal.\<close>

datatype popResult = Job shipJob | Ended | WaitSignal

definition popTurn :: "shipQueue \<Rightarrow> popResult \<times> shipQueue" where
  "popTurn q =
     (if q_jobs q \<noteq> [] then (case shiftLocked q of (j, q') \<Rightarrow> (Job j, q'))
      else if q_closed q then (Ended, q)
      else (WaitSignal, q))"

text \<open>
  The contract of the queue: first in first out, with the oldest job given back when there is
  no room.  What is weighed, rows or leases, is conserved.
\<close>

locale drop_oldest_queue =
  fixes put :: "'j \<Rightarrow> 'q \<Rightarrow> 'j option \<times> 'q" and putFront :: "'j \<Rightarrow> 'q \<Rightarrow> 'q"
    and contents :: "'q \<Rightarrow> 'j list" and room :: nat
  assumes put_room: "length (contents q) < room \<Longrightarrow> put j q = (d, q') \<Longrightarrow>
        d = None \<and> contents q' = contents q @ [j]"
    and put_full: "room \<le> length (contents q) \<Longrightarrow> put j q = (d, q') \<Longrightarrow>
        \<exists>x. d = Some x \<and> contents q @ [j] = x # contents q'"
    and putFront: "contents (putFront j q) = j # contents q"
begin

lemma put_cases:
  assumes "put j q = (d, q')"
  obtains (appended) "d = None" "contents q' = contents q @ [j]" "length (contents q) < room"
  | (evicted) x where "d = Some x" "contents q @ [j] = x # contents q'" "room \<le> length (contents q)"
  using put_room [OF _ assms] put_full [OF _ assms] by (meson linorder_not_le)

lemma put_weight:
  assumes "put j q = (d, q')"
  shows "sum_list (map w (contents q')) + (case d of None \<Rightarrow> 0 | Some x \<Rightarrow> w x)
         = sum_list (map w (contents q)) + (w j :: int)"
  using assms
proof (cases rule: put_cases)
  case (evicted x)
  then have "sum_list (map w (contents q @ [j])) = w x + sum_list (map w (contents q'))" by simp
  then show ?thesis using evicted(1) by simp
qed simp

lemma put_length:
  assumes "put j q = (d, q')" and "length (contents q) \<le> room + k"
  shows "length (contents q') \<le> room + k"
  using assms(1)
proof (cases rule: put_cases)
  case (evicted x)
  then have "Suc (length (contents q)) = Suc (length (contents q'))"
    by (metis length_Cons length_append_singleton)
  then show ?thesis using assms(2) by simp
qed (use assms(2) in simp)

lemma put_all:
  assumes "put j q = (d, q')" and "\<forall>x \<in> set (contents q). P x" and "P j"
  shows "(\<forall>x \<in> set (contents q'). P x) \<and> (\<forall>x. d = Some x \<longrightarrow> P x)"
  using assms(1)
proof (cases rule: put_cases)
  case (evicted x)
  then have "insert x (set (contents q')) = insert j (set (contents q))"
    by (metis list.simps(15) set_append Un_insert_right sup_bot.right_neutral list.set(1) list.set(2))
  then have "\<forall>y \<in> insert x (set (contents q')). P y" using assms(2,3) by auto
  then show ?thesis using evicted(1) by simp
qed (use assms(2,3) in auto)

end

interpretation shipq: drop_oldest_queue push pushFront q_jobs shipQueueCap
proof unfold_locales
  fix q j d q'
  assume full: "shipQueueCap \<le> length (q_jobs q)" and p: "push j q = (d, q')"
  then have "q_jobs q \<noteq> []" by (auto simp: shipQueueCap_def)
  then show "\<exists>x. d = Some x \<and> q_jobs q @ [j] = x # q_jobs q'"
    using full p by (auto simp: push_def shiftLocked_def)
qed (auto simp: push_def pushFront_def shiftLocked_def)

end
