(* ===== verification/Retired_Delivery.thy ===== *)
theory Retired_Delivery
  imports Shipping
begin

text \<open>
  Delivery for requests that outlive their app generation (app.go: \<open>Stop\<close>,
  \<open>finishHTTPRecord\<close>, \<open>scheduleHTTPDeliveryLocked\<close>, \<open>deliverRetiredHTTP\<close>).  A request records,
  then looks at \<open>httpRetired\<close>, and signals when it is set; Stop sets it and signals once
  itself.  Steps are the locked sections and the unlocked loads between them.
\<close>

section \<open>State\<close>

text \<open>Stop before the lock, between its store and its call to schedule, and after.\<close>

datatype stopPC = Serving | Stored | StopDone

text \<open>The deliverer: none, at the check under the lock, before \<open>wg.Wait\<close>, holding a batch.\<close>

datatype deliverPC = NoDeliverer | AtCheck | AwaitFlush | HaveBatch int "domainHealthLease option"

text \<open>
  \<open>rd_recording\<close> counts requests between their last record and the load of \<open>httpRetired\<close>,
  \<open>rd_signalling\<close> those that saw it set and wait for the lock.  \<open>rd_recorded\<close>, \<open>rd_flushed\<close>
  and \<open>rd_delivered\<close> are ghosts.
\<close>

record retiredState =
  rd_retired :: bool
  rd_pending :: bool
  rd_running :: bool
  rd_stop :: stopPC
  rd_flushDone :: bool
  rd_deliver :: deliverPC
  rd_recording :: nat
  rd_signalling :: nat
  rd_buffered :: int
  rd_dropped :: u64
  rd_health :: healthState
  rd_recorded :: int
  rd_flushed :: int
  rd_delivered :: int

definition servingState :: "u64 \<Rightarrow> healthState \<Rightarrow> retiredState" where
  "servingState d h =
     \<lparr>rd_retired = False, rd_pending = False, rd_running = False, rd_stop = Serving, rd_flushDone = False,
      rd_deliver = NoDeliverer, rd_recording = 0, rd_signalling = 0, rd_buffered = 0, rd_dropped = d,
      rd_health = h, rd_recorded = 0, rd_flushed = 0, rd_delivered = 0\<rparr>"

section \<open>Actions\<close>

definition scheduleHTTPDeliveryLocked :: "retiredState \<Rightarrow> retiredState" where
  "scheduleHTTPDeliveryLocked s =
     (if rd_running s then s\<lparr>rd_pending := True\<rparr>
      else s\<lparr>rd_pending := True, rd_running := True, rd_deliver := AtCheck\<rparr>)"

text \<open>The locked section at the head of the loop of \<open>deliverRetiredHTTP\<close>.\<close>

definition deliverCheck :: "retiredState \<Rightarrow> retiredState" where
  "deliverCheck s =
     (if \<not> rd_pending s then s\<lparr>rd_running := False, rd_deliver := NoDeliverer\<rparr>
      else s\<lparr>rd_pending := False, rd_deliver := AwaitFlush\<rparr>)"

text \<open>\<open>drainAndEncode (true)\<close> takes all that is buffered; nothing buffered is no batch.\<close>

definition deliverDrain :: "domainHealthLease option \<Rightarrow> retiredState \<Rightarrow> retiredState" where
  "deliverDrain lease s =
     (if rd_buffered s = 0 then s\<lparr>rd_deliver := AtCheck\<rparr>
      else s\<lparr>rd_buffered := 0, rd_deliver := HaveBatch (rd_buffered s) lease\<rparr>)"

text \<open>An encoding error counts the drained rows as dropped.\<close>

definition deliverFailed :: "retiredState \<Rightarrow> retiredState" where
  "deliverFailed s =
     s\<lparr>rd_buffered := 0, rd_dropped := rd_dropped s + of_int (rd_buffered s), rd_deliver := AtCheck\<rparr>"

definition deliverSettle :: "shipError option \<Rightarrow> int \<Rightarrow> domainHealthLease option \<Rightarrow> retiredState \<Rightarrow> retiredState" where
  "deliverSettle err rows lease s =
     (case err of
        None \<Rightarrow> s\<lparr>rd_deliver := AtCheck, rd_delivered := rd_delivered s + rows,
                  rd_health := snd (snd (leaseRelease lease (rd_health s)))\<rparr>
      | Some e \<Rightarrow> s\<lparr>rd_deliver := AtCheck, rd_dropped := rd_dropped s + of_int rows,
                  rd_health := snd (leaseDrop DropDelivery lease (rd_health s))\<rparr>)"

section \<open>Steps\<close>

inductive request_step :: "retiredState \<Rightarrow> retiredState \<Rightarrow> bool" where
  record_rows: "0 \<le> n \<Longrightarrow>
      request_step s (s\<lparr>rd_buffered := rd_buffered s + n, rd_recorded := rd_recorded s + n,
                        rd_recording := Suc (rd_recording s)\<rparr>)"
| flush_tick: "\<not> rd_flushDone s \<Longrightarrow>
      request_step s (s\<lparr>rd_buffered := 0, rd_flushed := rd_flushed s + rd_buffered s\<rparr>)"

inductive retire_step :: "ingestRuntime \<Rightarrow> retiredState \<Rightarrow> retiredState \<Rightarrow> bool" for cfg :: ingestRuntime where
  saw_active: "0 < rd_recording s \<Longrightarrow> \<not> rd_retired s \<Longrightarrow>
      retire_step cfg s (s\<lparr>rd_recording := rd_recording s - 1\<rparr>)"
| saw_retired: "0 < rd_recording s \<Longrightarrow> rd_retired s \<Longrightarrow>
      retire_step cfg s (s\<lparr>rd_recording := rd_recording s - 1, rd_signalling := Suc (rd_signalling s)\<rparr>)"
| signalled: "0 < rd_signalling s \<Longrightarrow> rd_stop s \<noteq> Stored \<Longrightarrow>
      retire_step cfg s ((scheduleHTTPDeliveryLocked s)\<lparr>rd_signalling := rd_signalling s - 1\<rparr>)"
| stop_store: "rd_stop s = Serving \<Longrightarrow> retire_step cfg s (s\<lparr>rd_retired := True, rd_stop := Stored\<rparr>)"
| stop_schedule: "rd_stop s = Stored \<Longrightarrow>
      retire_step cfg s ((scheduleHTTPDeliveryLocked s)\<lparr>rd_stop := StopDone\<rparr>)"
| flush_done: "\<not> rd_flushDone s \<Longrightarrow> retire_step cfg s (s\<lparr>rd_flushDone := True\<rparr>)"
| check: "rd_deliver s = AtCheck \<Longrightarrow> rd_stop s \<noteq> Stored \<Longrightarrow> retire_step cfg s (deliverCheck s)"
| drain: "rd_deliver s = AwaitFlush \<Longrightarrow> rd_flushDone s \<Longrightarrow>
      retire_step cfg s (deliverDrain lease s)"
| drain_failed: "rd_deliver s = AwaitFlush \<Longrightarrow> rd_flushDone s \<Longrightarrow> retire_step cfg s (deliverFailed s)"
| busy: "rd_deliver s = HaveBatch rows lease \<Longrightarrow>
      retire_step cfg s (deliverSettle (Some TransientErr) rows lease s)"
| delivered: "rd_deliver s = HaveBatch rows lease \<Longrightarrow>
      shipWithRetryWait env (maxRetries cfg) = (posts, err) \<Longrightarrow>
      retire_step cfg s (deliverSettle err rows lease s)"

inductive retire_reach :: "ingestRuntime \<Rightarrow> retiredState \<Rightarrow> retiredState \<Rightarrow> bool"
  for cfg :: ingestRuntime and s0 :: retiredState where
  retire_start: "retire_reach cfg s0 s0"
| retire_request: "retire_reach cfg s0 s \<Longrightarrow> request_step s s' \<Longrightarrow> retire_reach cfg s0 s'"
| retire_more: "retire_reach cfg s0 s \<Longrightarrow> retire_step cfg s s' \<Longrightarrow> retire_reach cfg s0 s'"

inductive_cases retire_stepE: "retire_step cfg s s'"

section \<open>No record is forgotten\<close>

definition handRows :: "deliverPC \<Rightarrow> int" where
  "handRows pc = (case pc of HaveBatch rows _ \<Rightarrow> rows | _ \<Rightarrow> 0)"

definition retire_inv :: "u64 \<Rightarrow> retiredState \<Rightarrow> bool" where
  "retire_inv d0 s =
     ((rd_running s \<longleftrightarrow> rd_deliver s \<noteq> NoDeliverer)
      \<and> (rd_pending s \<longrightarrow> rd_running s)
      \<and> (rd_retired s \<longleftrightarrow> rd_stop s \<noteq> Serving)
      \<and> (rd_retired s \<and> rd_buffered s \<noteq> 0 \<longrightarrow>
           rd_pending s \<or> rd_deliver s = AwaitFlush \<or> 0 < rd_recording s \<or> 0 < rd_signalling s
           \<or> rd_stop s = Stored)
      \<and> rd_dropped s = d0 + of_int (rd_recorded s - rd_flushed s - rd_delivered s - rd_buffered s
                                     - handRows (rd_deliver s)))"

lemmas delivery_simps = retire_inv_def handRows_def scheduleHTTPDeliveryLocked_def deliverCheck_def
  deliverDrain_def deliverFailed_def deliverSettle_def

lemma retire_step_inv: "retire_step cfg s s' \<Longrightarrow> retire_inv d0 s \<Longrightarrow> retire_inv d0 s'"
  by (induction rule: retire_step.induct) (auto simp: delivery_simps split: option.split)

lemma request_step_inv: "request_step s s' \<Longrightarrow> retire_inv d0 s \<Longrightarrow> retire_inv d0 s'"
  by (induction rule: request_step.induct) (auto simp: delivery_simps)

lemma retire_reach_inv: "retire_reach cfg (servingState d h) s \<Longrightarrow> retire_inv d s"
proof (induction rule: retire_reach.induct)
  case retire_start
  show ?case by (simp add: servingState_def retire_inv_def handRows_def)
qed (blast intro: retire_step_inv request_step_inv)+

text \<open>When all requests have finished and the deliverer is gone, nothing is left behind.\<close>

lemma retired_quiet:
  assumes "retire_inv d0 s" and "rd_stop s = StopDone" and "rd_recording s = 0"
    and "rd_signalling s = 0" and "rd_deliver s = NoDeliverer"
  shows "rd_buffered s = 0
    \<and> rd_dropped s = d0 + of_int (rd_recorded s - rd_flushed s - rd_delivered s)"
  using assms by (auto simp: retire_inv_def handRows_def)

text \<open>And once Stop and the flush loop are through, the deliverer comes to that end.\<close>

definition retireWork :: "retiredState \<Rightarrow> nat" where
  "retireWork s = 8 * rd_recording s + 7 * rd_signalling s + (if rd_pending s then 5 else 0)
     + (case rd_deliver s of NoDeliverer \<Rightarrow> 0 | AtCheck \<Rightarrow> 1 | AwaitFlush \<Rightarrow> 4 | HaveBatch _ _ \<Rightarrow> 3)"

lemma retireWork_decreases:
  "retire_step cfg s s' \<Longrightarrow> retire_inv d0 s \<Longrightarrow> rd_stop s = StopDone \<Longrightarrow> rd_flushDone s \<Longrightarrow>
   retireWork s' < retireWork s \<and> rd_stop s' = StopDone \<and> rd_flushDone s'"
  by (induction rule: retire_step.induct) (auto simp: delivery_simps retireWork_def split: option.split)

lemma retire_progress:
  assumes "retire_inv d0 s" and "rd_stop s = StopDone" and "rd_flushDone s" and "retireWork s \<noteq> 0"
  shows "\<exists>s'. retire_step cfg s s'"
proof -
  consider "0 < rd_recording s" | "0 < rd_signalling s" | "rd_deliver s \<noteq> NoDeliverer"
    using assms by (auto simp: retireWork_def retire_inv_def split: if_splits)
  then show ?thesis
  proof cases
    case 1
    then show ?thesis by (cases "rd_retired s") (blast intro: retire_step.intros)+
  next
    case 2
    then show ?thesis using assms(2) by (metis retire_step.signalled stopPC.distinct(5))
  next
    case 3
    moreover have "rd_stop s \<noteq> Stored" using assms(2) by simp
    ultimately show ?thesis using assms(3)
      by (cases "rd_deliver s") (blast intro: retire_step.intros)+
  qed
qed

lemma retirement_ends:
  assumes "retire_inv d0 s" and "rd_stop s = StopDone" and "rd_flushDone s"
  shows "\<exists>s'. (retire_step cfg)\<^sup>*\<^sup>* s s' \<and> retireWork s' = 0 \<and> rd_stop s' = StopDone"
  using assms
proof (induction "retireWork s" arbitrary: s rule: less_induct)
  case less
  show ?case
  proof (cases "retireWork s = 0")
    case False
    then obtain t where t: "retire_step cfg s t" using retire_progress less.prems by blast
    note dec = retireWork_decreases [OF t less.prems]
    from less.hyps [of t] dec retire_step_inv [OF t less.prems(1)] show ?thesis using t
      by (metis converse_rtranclp_into_rtranclp)
  qed (use less.prems in blast)
qed

lemma retireWork_zero:
  "retireWork s = 0 \<Longrightarrow> rd_recording s = 0 \<and> rd_signalling s = 0 \<and> rd_deliver s = NoDeliverer"
  by (auto simp: retireWork_def split: if_splits deliverPC.splits)

end
