(* ===== verification/Defense_Catalog.thy ===== *)
theory Defense_Catalog
  imports Go_Text
begin

text \<open>
  The catalog of CRS rule ids this build knows (defense\_evidence.go), \<open>sort.Search\<close>, and the
  membership test by binary search.
\<close>

section \<open>Binary search\<close>

text \<open>The loop of \<open>sort.Search\<close> between \<open>i\<close> and \<open>j\<close>.\<close>

function sortSearch :: "(nat \<Rightarrow> bool) \<Rightarrow> nat \<Rightarrow> nat \<Rightarrow> nat" where
  "sortSearch f i j =
     (if i < j then (let h = (i + j) div 2 in if \<not> f h then sortSearch f (h + 1) j else sortSearch f i h)
      else i)"
  by pat_completeness auto
termination
  by (relation "measure (\<lambda>(f, i, j). j - i)") auto

declare sortSearch.simps [simp del]

text \<open>On a predicate that stays true once true, the result is the first place where it is.\<close>

lemma sortSearch_spec:
  "i \<le> j \<Longrightarrow> (\<And>a b. i \<le> a \<Longrightarrow> a \<le> b \<Longrightarrow> b < j \<Longrightarrow> f a \<Longrightarrow> f b) \<Longrightarrow>
   i \<le> sortSearch f i j \<and> sortSearch f i j \<le> j
    \<and> (\<forall>k. i \<le> k \<and> k < sortSearch f i j \<longrightarrow> \<not> f k) \<and> (sortSearch f i j < j \<longrightarrow> f (sortSearch f i j))"
proof (induction f i j rule: sortSearch.induct)
  case (1 f i j)
  let ?h = "(i + j) div 2"
  show ?case
  proof (cases "i < j")
    case False
    with 1(3) have "sortSearch f i j = i" "i = j" by (simp_all add: sortSearch.simps)
    then show ?thesis by auto
  next
    case less: True
    have h: "i \<le> ?h" "?h < j" using less by auto
    show ?thesis
    proof (cases "f ?h")
      case False
      have low: "\<not> f k" if "i \<le> k" "k \<le> ?h" for k using 1(4) [of k ?h] that h False by blast
      have "?h + 1 \<le> sortSearch f (?h + 1) j \<and> sortSearch f (?h + 1) j \<le> j
        \<and> (\<forall>k. ?h + 1 \<le> k \<and> k < sortSearch f (?h + 1) j \<longrightarrow> \<not> f k)
        \<and> (sortSearch f (?h + 1) j < j \<longrightarrow> f (sortSearch f (?h + 1) j))"
      proof (intro 1(1) less refl False)
        fix a b
        assume "?h + 1 \<le> a" "a \<le> b" "b < j" "f a"
        then show "f b" using 1(4) [of a b] h by simp
      qed (use h in simp)
      moreover have "sortSearch f i j = sortSearch f (?h + 1) j"
        using less False by (simp add: sortSearch.simps [of f i j] Let_def)
      ultimately show ?thesis using low h by (metis Suc_eq_plus1 Suc_leI le_trans not_less_eq_eq le_SucI)
    next
      case True
      have "i \<le> sortSearch f i ?h \<and> sortSearch f i ?h \<le> ?h
        \<and> (\<forall>k. i \<le> k \<and> k < sortSearch f i ?h \<longrightarrow> \<not> f k)
        \<and> (sortSearch f i ?h < ?h \<longrightarrow> f (sortSearch f i ?h))"
      proof (intro 1(2) less refl)
        fix a b
        assume "i \<le> a" "a \<le> b" "b < ?h" "f a"
        then show "f b" using 1(4) [of a b] h by simp
      qed (use h True in simp_all)
      moreover have "sortSearch f i j = sortSearch f i ?h"
        using less True by (simp add: sortSearch.simps [of f i j] Let_def)
      ultimately show ?thesis using True h by (metis le_neq_implies_less less_imp_le le_less_trans)
    qed
  qed
qed

section \<open>Search in an ascending list\<close>

definition searchIDs :: "u32 list \<Rightarrow> u32 \<Rightarrow> nat" where
  "searchIDs ids x = sortSearch (\<lambda>i. ids ! i \<ge> x) 0 (length ids)"

definition foundAt :: "u32 list \<Rightarrow> u32 \<Rightarrow> bool" where
  "foundAt ids x = (let i = searchIDs ids x in i < length ids \<and> ids ! i = x)"

abbreviation ascending :: "u32 list \<Rightarrow> bool" where
  "ascending \<equiv> sorted_wrt (<)"

lemma ascending_nth: "ascending xs \<Longrightarrow> i < j \<Longrightarrow> j < length xs \<Longrightarrow> xs ! i < xs ! j"
  by (simp add: sorted_wrt_nth_less)

lemma ascending_nth_le: "ascending xs \<Longrightarrow> i \<le> j \<Longrightarrow> j < length xs \<Longrightarrow> xs ! i \<le> xs ! j"
  using ascending_nth [of xs i j] by (cases "i = j") auto

text \<open>The search finds the place of a member, and refuses everything else.\<close>

lemma searchIDs_spec:
  assumes "ascending ids"
  shows "searchIDs ids x \<le> length ids" (is ?len)
    and "k < searchIDs ids x \<Longrightarrow> ids ! k < x"
    and "searchIDs ids x < length ids \<Longrightarrow> x \<le> ids ! searchIDs ids x"
proof -
  have "0 \<le> searchIDs ids x \<and> searchIDs ids x \<le> length ids
    \<and> (\<forall>k. 0 \<le> k \<and> k < searchIDs ids x \<longrightarrow> \<not> x \<le> ids ! k)
    \<and> (searchIDs ids x < length ids \<longrightarrow> x \<le> ids ! searchIDs ids x)"
    unfolding searchIDs_def using assms
    by (intro sortSearch_spec) (auto intro: order_trans ascending_nth_le)
  then show ?len "k < searchIDs ids x \<Longrightarrow> ids ! k < x"
    "searchIDs ids x < length ids \<Longrightarrow> x \<le> ids ! searchIDs ids x"
    by (auto simp: not_le)
qed

lemma searchIDs_nth:
  assumes "ascending ids" and "i < length ids"
  shows "searchIDs ids (ids ! i) = i"
proof -
  let ?s = "searchIDs ids (ids ! i)"
  have "\<not> i < ?s" using searchIDs_spec(2) [OF assms(1), of i "ids ! i"] by auto
  moreover have "\<not> ?s < i"
    using searchIDs_spec(3) [OF assms(1), of "ids ! i"] ascending_nth [OF assms(1), of ?s i] assms(2)
    by auto
  ultimately show ?thesis by simp
qed

lemma foundAt_iff:
  assumes "ascending ids"
  shows "foundAt ids x \<longleftrightarrow> x \<in> set ids"
proof
  assume "x \<in> set ids"
  then obtain i where "i < length ids" "x = ids ! i" by (metis in_set_conv_nth)
  then show "foundAt ids x" by (simp add: foundAt_def searchIDs_nth [OF assms])
qed (metis foundAt_def nth_mem)

section \<open>The catalog\<close>

definition defenseCRSIDs :: "u32 list" where
  "defenseCRSIDs =
    [900000, 900001, 900010, 900100, 900110, 900115, 900120, 900130, 900200, 900220, 900230,
     900240, 900250, 900255, 900280, 900300, 900310, 900320, 900330, 900340, 900350, 900400,
     900500, 900950, 900990, 901001, 901100, 901110, 901111, 901115, 901120, 901125, 901130,
     901140, 901141, 901142, 901143, 901160, 901162, 901163, 901164, 901165, 901167, 901168,
     901169, 901170, 901171, 901200, 901320, 901340, 901350, 901400, 901410, 901450, 901500,
     905100, 905110, 911011, 911012, 911013, 911014, 911015, 911016, 911017, 911018, 911100,
     913011, 913012, 913013, 913014, 913015, 913016, 913017, 913018, 913100, 920011, 920012,
     920013, 920014, 920015, 920016, 920017, 920018, 920100, 920120, 920121, 920160, 920170,
     920171, 920180, 920181, 920190, 920200, 920201, 920202, 920210, 920220, 920221, 920230,
     920240, 920250, 920260, 920270, 920271, 920272, 920273, 920274, 920275, 920280, 920290,
     920300, 920310, 920311, 920320, 920330, 920340, 920341, 920350, 920360, 920370, 920380,
     920390, 920400, 920410, 920420, 920430, 920440, 920450, 920451, 920460, 920470, 920480,
     920490, 920500, 920510, 920520, 920521, 920530, 920540, 920600, 920610, 920620, 921011,
     921012, 921013, 921014, 921015, 921016, 921017, 921018, 921110, 921120, 921130, 921140,
     921150, 921151, 921160, 921170, 921180, 921190, 921200, 921210, 921220, 921230, 921240,
     921421, 921422, 922100, 922110, 922120, 922130, 930011, 930012, 930013, 930014, 930015,
     930016, 930017, 930018, 930100, 930110, 930120, 930121, 930130, 931011, 931012, 931013,
     931014, 931015, 931016, 931017, 931018, 931100, 931110, 931120, 931130, 931131, 932011,
     932012, 932013, 932014, 932015, 932016, 932017, 932018, 932120, 932125, 932130, 932131,
     932140, 932160, 932161, 932170, 932171, 932175, 932180, 932190, 932200, 932205, 932206,
     932210, 932220, 932230, 932231, 932232, 932235, 932236, 932237, 932238, 932239, 932240,
     932250, 932260, 932270, 932300, 932301, 932310, 932311, 932320, 932321, 932330, 932331,
     932370, 932380, 933011, 933012, 933013, 933014, 933015, 933016, 933017, 933018, 933100,
     933110, 933111, 933120, 933130, 933131, 933135, 933140, 933150, 933151, 933160, 933161,
     933170, 933180, 933190, 933200, 933210, 933211, 934011, 934012, 934013, 934014, 934015,
     934016, 934017, 934018, 934100, 934101, 934110, 934120, 934130, 934140, 934150, 934160,
     934170, 941010, 941011, 941012, 941013, 941014, 941015, 941016, 941017, 941018, 941100,
     941101, 941110, 941120, 941130, 941140, 941150, 941160, 941170, 941180, 941181, 941190,
     941200, 941210, 941220, 941230, 941240, 941250, 941260, 941270, 941280, 941290, 941300,
     941310, 941320, 941330, 941340, 941350, 941360, 941370, 941380, 941390, 941400, 942011,
     942012, 942013, 942014, 942015, 942016, 942017, 942018, 942100, 942101, 942120, 942130,
     942131, 942140, 942150, 942151, 942152, 942160, 942170, 942180, 942190, 942200, 942210,
     942220, 942230, 942240, 942250, 942251, 942260, 942270, 942280, 942290, 942300, 942310,
     942320, 942321, 942330, 942340, 942350, 942360, 942361, 942362, 942370, 942380, 942390,
     942400, 942410, 942420, 942421, 942430, 942431, 942432, 942440, 942441, 942442, 942450,
     942460, 942470, 942480, 942490, 942500, 942510, 942511, 942520, 942521, 942522, 942530,
     942540, 942550, 942560, 943011, 943012, 943013, 943014, 943015, 943016, 943017, 943018,
     943100, 943110, 943120, 944011, 944012, 944013, 944014, 944015, 944016, 944017, 944018,
     944100, 944110, 944120, 944130, 944140, 944150, 944151, 944152, 944200, 944210, 944240,
     944250, 944260, 944300, 949011, 949012, 949013, 949014, 949015, 949016, 949017, 949018,
     949052, 949053, 949054, 949055, 949059, 949060, 949061, 949062, 949063, 949110, 949111,
     949152, 949153, 949154, 949155, 949159, 949160, 949161, 949162, 949163, 950010, 950011,
     950012, 950013, 950014, 950015, 950016, 950017, 950018, 950021, 950100, 950130, 950140,
     951010, 951011, 951012, 951013, 951014, 951015, 951016, 951017, 951018, 951100, 951110,
     951120, 951130, 951140, 951150, 951160, 951170, 951180, 951190, 951200, 951210, 951220,
     951230, 951240, 951250, 951260, 952010, 952011, 952012, 952013, 952014, 952015, 952016,
     952017, 952018, 952100, 952110, 953010, 953011, 953012, 953013, 953014, 953015, 953016,
     953017, 953018, 953100, 953101, 953110, 953120, 954010, 954011, 954012, 954013, 954014,
     954015, 954016, 954017, 954018, 954100, 954110, 954120, 954130, 955010, 955011, 955012,
     955013, 955014, 955015, 955016, 955017, 955018, 955100, 955110, 955120, 955130, 955140,
     955150, 955160, 955170, 955180, 955190, 955200, 955210, 955220, 955230, 955240, 955250,
     955260, 955270, 955280, 955290, 955300, 955310, 955320, 955330, 955340, 955350, 959011,
     959012, 959013, 959014, 959015, 959016, 959017, 959018, 959052, 959053, 959054, 959055,
     959059, 959060, 959061, 959062, 959063, 959100, 959101, 959152, 959153, 959154, 959155,
     959159, 959160, 959161, 959162, 959163, 980011, 980012, 980013, 980014, 980015, 980016,
     980017, 980018, 980041, 980042, 980043, 980044, 980045, 980046, 980047, 980048, 980049,
     980050, 980051, 980099, 980170]"

fun chain :: "u32 list \<Rightarrow> bool" where
  "chain (x # y # zs) = (x < y \<and> chain (y # zs))"
| "chain _ = True"

lemma chain_ascending: "chain xs \<longleftrightarrow> ascending xs"
proof (induction xs rule: chain.induct)
  case (1 x y zs)
  then show ?case by (auto intro: less_trans)
qed auto

lemma defenseCRSIDs_ascending: "ascending defenseCRSIDs"
  unfolding chain_ascending [symmetric] defenseCRSIDs_def by simp

lemma defenseCRSIDs_length: "length defenseCRSIDs = 620"
  by (simp add: defenseCRSIDs_def)

lemma defenseCRSIDs_range: "x \<in> set defenseCRSIDs \<Longrightarrow> 900000 \<le> x \<and> x < 1000000"
proof -
  have "list_all (\<lambda>x. 900000 \<le> x \<and> x < 1000000) defenseCRSIDs"
    by (simp add: defenseCRSIDs_def)
  then show "x \<in> set defenseCRSIDs \<Longrightarrow> 900000 \<le> x \<and> x < 1000000" by (simp add: list_all_iff)
qed

definition defenseCRSIndex :: "u32 \<Rightarrow> nat \<times> bool" where
  "defenseCRSIndex rid = (let i = searchIDs defenseCRSIDs rid
     in (i, i < length defenseCRSIDs \<and> defenseCRSIDs ! i = rid))"

definition validDefenseCRSID :: "u32 \<Rightarrow> bool" where
  "validDefenseCRSID rid = snd (defenseCRSIndex rid)"

lemma validDefenseCRSID_iff: "validDefenseCRSID x \<longleftrightarrow> x \<in> set defenseCRSIDs"
  using foundAt_iff [OF defenseCRSIDs_ascending, of x]
  by (simp add: validDefenseCRSID_def defenseCRSIndex_def foundAt_def Let_def)

lemma defenseCRSIndex_nth:
  "i < length defenseCRSIDs \<Longrightarrow> defenseCRSIndex (defenseCRSIDs ! i) = (i, True)"
  by (simp add: defenseCRSIndex_def searchIDs_nth [OF defenseCRSIDs_ascending])

lemma defenseCRSIndex_known:
  "defenseCRSIndex x = (i, True) \<longleftrightarrow> i < length defenseCRSIDs \<and> x = defenseCRSIDs ! i"
proof
  assume "defenseCRSIndex x = (i, True)"
  then show "i < length defenseCRSIDs \<and> x = defenseCRSIDs ! i"
    by (auto simp: defenseCRSIndex_def Let_def)
qed (simp add: defenseCRSIndex_nth)

end
