(* ===== verification/Defense_Marker.thy ===== *)
theory Defense_Marker
  imports Defense_Catalog
begin

text \<open>
  Defense evidence and the marker that carries it through the WAF (defense\_evidence.go): the
  writer, the parser that accepts the canonical form only, and the exemption test.
\<close>

section \<open>Evidence and its marker\<close>

record defenseEvidence =
  de_HTTP :: bool
  de_CorazaAll :: bool
  de_CorazaRuleIDs :: "u32 list"

definition corazaExempt :: "defenseEvidence \<Rightarrow> u32 \<Rightarrow> bool" where
  "corazaExempt e rid =
     (if de_CorazaAll e then True
      else let i = searchIDs (de_CorazaRuleIDs e) rid
           in i < length (de_CorazaRuleIDs e) \<and> de_CorazaRuleIDs e ! i = rid)"

definition evidenceHTTPField :: string where "evidenceHTTPField = ''http=''"

definition evidenceAllField :: string where "evidenceAllField = '';coraza_all=''"

definition evidenceRulesField :: string where "evidenceRulesField = '';coraza_rule_ids=''"

definition evidenceDigit :: "bool \<Rightarrow> char" where
  "evidenceDigit v = (if v then CHR ''1'' else CHR ''0'')"

text \<open>The loop over the ids, with a comma before all but the first.\<close>

definition ruleText :: "u32 list \<Rightarrow> string" where
  "ruleText ids = joinWith (CHR '','') (map (\<lambda>x. FormatUint (unat x)) ids)"

definition evidenceMarker :: "defenseEvidence \<Rightarrow> string" where
  "evidenceMarker e =
     evidenceHTTPField @ [evidenceDigit (de_HTTP e)] @ evidenceAllField @ [evidenceDigit (de_CorazaAll e)]
     @ evidenceRulesField @ ruleText (de_CorazaRuleIDs e)"

section \<open>The parser\<close>

definition parseEvidenceDigit :: "char \<Rightarrow> bool \<times> bool" where
  "parseEvidenceDigit c = (c = CHR ''1'', c = CHR ''0'' \<or> c = CHR ''1'')"

definition CutPrefix :: "string \<Rightarrow> string \<Rightarrow> string option" where
  "CutPrefix s p = (if prefix p s then Some (drop (length p) s) else None)"

text \<open>One field and the digit after it.\<close>

definition parseFlag :: "string \<Rightarrow> string \<Rightarrow> (bool \<times> string) option" where
  "parseFlag field s =
     (case CutPrefix s field of
        None \<Rightarrow> None
      | Some [] \<Rightarrow> None
      | Some (c # rest) \<Rightarrow> (case parseEvidenceDigit c of (v, ok) \<Rightarrow> if ok then Some (v, rest) else None))"

text \<open>One element of the list: its number, when it is canonical, above \<open>previous\<close> and known.\<close>

definition parseRuleID :: "u32 \<Rightarrow> string \<Rightarrow> u32 option" where
  "parseRuleID previous element =
     (case ParseUint 32 element of
        None \<Rightarrow> None
      | Some n \<Rightarrow>
          if element ! 0 = CHR ''0'' \<or> of_nat n \<le> previous \<or> \<not> validDefenseCRSID (of_nat n) then None
          else Some (of_nat n))"

function parseRuleIDs :: "u32 \<Rightarrow> string \<Rightarrow> u32 list option" where
  "parseRuleIDs previous rest =
     (if rest = [] then Some []
      else case indexByte rest (CHR '','') of
             Some i \<Rightarrow>
               (if drop (Suc i) rest = [] then None
                else case parseRuleID previous (take i rest) of
                       None \<Rightarrow> None
                     | Some x \<Rightarrow> map_option ((#) x) (parseRuleIDs x (drop (Suc i) rest)))
           | None \<Rightarrow> (case parseRuleID previous rest of None \<Rightarrow> None | Some x \<Rightarrow> Some [x]))"
  by pat_completeness auto
termination
  by (relation "measure (\<lambda>(p, s). length s)") auto

declare parseRuleIDs.simps [simp del]

definition parseDefenseEvidenceMarker :: "string \<Rightarrow> defenseEvidence option" where
  "parseDefenseEvidenceMarker marker =
     (case parseFlag evidenceHTTPField marker of
        None \<Rightarrow> None
      | Some (http, r1) \<Rightarrow>
          (case parseFlag evidenceAllField r1 of
             None \<Rightarrow> None
           | Some (all, r2) \<Rightarrow>
               (case CutPrefix r2 evidenceRulesField of
                  None \<Rightarrow> None
                | Some r3 \<Rightarrow>
                    map_option (\<lambda>ids. \<lparr>de_HTTP = http, de_CorazaAll = all, de_CorazaRuleIDs = ids\<rparr>)
                      (parseRuleIDs 0 r3))))"

section \<open>The round trip\<close>

text \<open>Evidence a plan can capture: ascending ids of the catalog.\<close>

definition evidence_ok :: "defenseEvidence \<Rightarrow> bool" where
  "evidence_ok e = (ascending (de_CorazaRuleIDs e) \<and> set (de_CorazaRuleIDs e) \<subseteq> set defenseCRSIDs)"

lemma CutPrefix_append [simp]: "CutPrefix (p @ s) p = Some s"
  by (simp add: CutPrefix_def)

lemma CutPrefix_Some: "CutPrefix s p = Some r \<Longrightarrow> s = p @ r"
  by (auto simp: CutPrefix_def prefix_def split: if_splits)

lemma parseFlag_digit [simp]: "parseFlag f (f @ evidenceDigit v # s) = Some (v, s)"
  by (simp add: parseFlag_def parseEvidenceDigit_def evidenceDigit_def)

lemma parseFlag_Some: "parseFlag f s = Some (v, r) \<Longrightarrow> s = f @ evidenceDigit v # r"
  by (auto simp: parseFlag_def parseEvidenceDigit_def evidenceDigit_def
      dest!: CutPrefix_Some split: option.splits list.splits if_splits)

lemma comma_not_digit: "CHR '','' \<notin> set (FormatUint n)"
  using FormatUint_digits [of "CHR '',''" n] by (auto simp: is_digit_def)

lemma parseRuleID_Format:
  assumes "x \<in> set defenseCRSIDs" and "previous < x"
  shows "parseRuleID previous (FormatUint (unat x)) = Some x"
proof -
  have "unat x < 2 ^ 32" using unsigned_less [of x, where ?'a = nat] by simp
  then have "ParseUint 32 (FormatUint (unat x)) = Some (unat x)" by (rule ParseUint_FormatUint)
  moreover have "0 < x" using assms(2) by (metis word_gt_0 word_not_simps(1))
  then have "0 < unat x" by (simp add: word_less_nat_alt)
  then have "FormatUint (unat x) ! 0 \<noteq> CHR ''0''"
    using FormatUint_hd [of "unat x"] by (simp add: hd_conv_nth)
  ultimately show ?thesis
    using assms by (simp add: parseRuleID_def validDefenseCRSID_iff)
qed

lemma digits_val_canonical:
  "digits_val 0 s = Some n \<Longrightarrow> s \<noteq> [] \<Longrightarrow> s ! 0 \<noteq> CHR ''0'' \<Longrightarrow> s = FormatUint n"
proof (induction s arbitrary: n rule: rev_induct)
  case (snoc c s)
  from snoc.prems(1) obtain v where v: "digits_val 0 s = Some v" "is_digit c" "n = 10 * v + (byte c - 48)"
    by (auto simp: digits_val_append split: option.splits if_splits)
  then have c: "byte c - 48 < 10" "digit (byte c - 48) = c" by (auto simp: is_digit_def digit_def)
  show ?case
  proof (cases "s = []")
    case True
    with v c show ?thesis by (simp add: FormatUint.simps [of "byte c - 48"])
  next
    case False
    with snoc.prems(3) have hd: "s ! 0 \<noteq> CHR ''0''" by (simp add: nth_append)
    with snoc.IH [OF v(1) False] have s: "s = FormatUint v" by simp
    have "v \<noteq> 0"
    proof
      assume "v = 0"
      with s hd show False using chr_byte [of "CHR ''0''"] by (simp add: FormatUint.simps [of 0] digit_def)
    qed
    then have "\<not> n < 10" "n div 10 = v" "n mod 10 = byte c - 48" using v(3) c(1) by auto
    with c s show ?thesis by (simp add: FormatUint.simps [of n])
  qed
qed simp

lemma parseRuleID_Some:
  assumes "parseRuleID previous s = Some x"
  shows "s = FormatUint (unat x) \<and> previous < x \<and> x \<in> set defenseCRSIDs"
proof -
  from assms obtain n where n: "ParseUint 32 s = Some n"
    by (auto simp: parseRuleID_def split: option.splits)
  with assms have x: "s ! 0 \<noteq> CHR ''0''" "\<not> x \<le> previous" "validDefenseCRSID x" "x = of_nat n"
    by (simp_all add: parseRuleID_def split: if_splits)
  have "s \<noteq> []" "digits_val 0 s = Some n" "n < 2 ^ 32"
    using n by (simp_all add: ParseUint_def split: if_splits option.splits)
  moreover from this x(4) have "unat x = n" by (simp add: unat_of_nat)
  ultimately show ?thesis
    using x digits_val_canonical [of s n] by (simp add: validDefenseCRSID_iff not_le)
qed

lemma parseRuleIDs_ruleText:
  "sorted_wrt (<) (previous # ids) \<Longrightarrow> set ids \<subseteq> set defenseCRSIDs \<Longrightarrow>
   parseRuleIDs previous (ruleText ids) = Some ids"
proof (induction ids arbitrary: previous)
  case Nil
  then show ?case by (simp add: ruleText_def parseRuleIDs.simps)
next
  case (Cons x ids)
  have x: "parseRuleID previous (FormatUint (unat x)) = Some x"
    using Cons.prems by (intro parseRuleID_Format) auto
  have IH: "parseRuleIDs x (ruleText ids) = Some ids" using Cons by simp
  show ?case
  proof (cases ids)
    case Nil
    have "indexByte (FormatUint (unat x)) (CHR '','') = None" using comma_not_digit by simp
    with Nil x show ?thesis by (simp add: ruleText_def parseRuleIDs.simps del: indexByte_None)
  next
    case (Cons y ys)
    then have t: "ruleText (x # ids) = FormatUint (unat x) @ CHR '','' # ruleText ids" "ruleText ids \<noteq> []"
      by (simp_all add: ruleText_def joinWith_Cons) (cases ys; simp)
    have "indexByte (ruleText (x # ids)) (CHR '','') = Some (length (FormatUint (unat x)))"
      unfolding t(1) by (rule indexByte_append_hit [OF comma_not_digit])
    with t x IH show ?thesis by (simp add: parseRuleIDs.simps [of previous])
  qed
qed

lemma defenseCRSIDs_positive: "x \<in> set defenseCRSIDs \<Longrightarrow> 0 < x"
  using defenseCRSIDs_range [of x] by (auto intro: less_le_trans [of _ 900000])

lemma parse_marker:
  assumes "evidence_ok e"
  shows "parseDefenseEvidenceMarker (evidenceMarker e) = Some e"
proof -
  have "sorted_wrt (<) (0 # de_CorazaRuleIDs e)"
    using assms defenseCRSIDs_positive by (auto simp: evidence_ok_def)
  then have "parseRuleIDs 0 (ruleText (de_CorazaRuleIDs e)) = Some (de_CorazaRuleIDs e)"
    using assms by (intro parseRuleIDs_ruleText) (auto simp: evidence_ok_def)
  then show ?thesis by (simp add: parseDefenseEvidenceMarker_def evidenceMarker_def)
qed

lemma parseRuleIDs_Some:
  "parseRuleIDs previous s = Some ids \<Longrightarrow>
   s = ruleText ids \<and> sorted_wrt (<) (previous # ids) \<and> set ids \<subseteq> set defenseCRSIDs"
proof (induction previous s arbitrary: ids rule: parseRuleIDs.induct)
  case (1 previous rest)
  show ?case
  proof (cases "rest = []")
    case True
    with 1(2) show ?thesis by (simp add: parseRuleIDs.simps ruleText_def)
  next
    case ne: False
    show ?thesis
    proof (cases "indexByte rest (CHR '','')")
      case None
      with 1(2) ne obtain x where "parseRuleID previous rest = Some x" "ids = [x]"
        by (auto simp: parseRuleIDs.simps [of previous rest] simp del: indexByte_None split: option.splits)
      with parseRuleID_Some [of previous rest x] show ?thesis by (simp add: ruleText_def)
    next
      case (Some i)
      with 1(2) ne obtain x xs where d: "drop (Suc i) rest \<noteq> []"
        and x: "parseRuleID previous (take i rest) = Some x"
        and xs: "parseRuleIDs x (drop (Suc i) rest) = Some xs" and ids: "ids = x # xs"
        by (auto simp: parseRuleIDs.simps [of previous rest] split: option.splits if_splits)
      from 1(1) [OF ne Some d x xs] parseRuleID_Some [OF x]
      have IH: "drop (Suc i) rest = ruleText xs" "sorted_wrt (<) (x # xs)" "set xs \<subseteq> set defenseCRSIDs"
        "take i rest = FormatUint (unat x)" "previous < x" "x \<in> set defenseCRSIDs" by auto
      have "rest = take i rest @ rest ! i # drop (Suc i) rest"
        using id_take_nth_drop [of i rest] indexByte_Some [OF Some] by blast
      then have "rest = FormatUint (unat x) @ CHR '','' # ruleText xs"
        using indexByte_Some [OF Some] IH by simp
      moreover have "xs \<noteq> []" using d IH(1) by (auto simp: ruleText_def)
      ultimately have "rest = ruleText (x # xs)" by (simp add: ruleText_def joinWith_Cons)
      with IH ids show ?thesis by (auto intro: less_trans)
    qed
  qed
qed

lemma marker_parse:
  assumes "parseDefenseEvidenceMarker s = Some e"
  shows "evidenceMarker e = s \<and> evidence_ok e"
proof -
  from assms obtain h r1 a r2 r3 ids where
    p: "parseFlag evidenceHTTPField s = Some (h, r1)" "parseFlag evidenceAllField r1 = Some (a, r2)"
      "CutPrefix r2 evidenceRulesField = Some r3" "parseRuleIDs 0 r3 = Some ids"
    and e: "e = \<lparr>de_HTTP = h, de_CorazaAll = a, de_CorazaRuleIDs = ids\<rparr>"
    by (auto simp: parseDefenseEvidenceMarker_def split: option.splits)
  from parseRuleIDs_Some [OF p(4)] show ?thesis
    by (auto simp: e evidenceMarker_def evidence_ok_def
        parseFlag_Some [OF p(1)] parseFlag_Some [OF p(2)] CutPrefix_Some [OF p(3)])
qed

text \<open>The exemption test is membership.\<close>

lemma corazaExempt_iff:
  "evidence_ok e \<Longrightarrow> corazaExempt e x \<longleftrightarrow> de_CorazaAll e \<or> x \<in> set (de_CorazaRuleIDs e)"
  using foundAt_iff [of "de_CorazaRuleIDs e" x]
  by (simp add: corazaExempt_def evidence_ok_def foundAt_def Let_def)

end
