(* ===== verification/Bitset.thy ===== *)
theory Bitset
  imports Prelude
begin

text \<open>
  Sets of small numbers as arrays of 64-bit words, the way the package's bitsets are written:
  \<open>set[i >> 6] |= 1 << (i & 63)\<close> and the test of that bit.
\<close>

definition shl1 :: "nat \<Rightarrow> u64" where
  "shl1 n = push_bit n 1"

definition setBit :: "nat \<Rightarrow> u64 list \<Rightarrow> u64 list" where
  "setBit i ws = ws[i div 64 := ws ! (i div 64) OR shl1 (i mod 64)]"

definition testBit :: "u64 list \<Rightarrow> nat \<Rightarrow> bool" where
  "testBit ws i = (ws ! (i div 64) AND shl1 (i mod 64) \<noteq> 0)"

lemma bit_shl1: "n < 64 \<Longrightarrow> bit (shl1 k) n \<longleftrightarrow> n = k"
  by (auto simp: shl1_def bit_simps)

lemma and_shl1: "n < 64 \<Longrightarrow> w AND shl1 n \<noteq> 0 \<longleftrightarrow> bit w n"
proof -
  assume n: "n < 64"
  have "w AND shl1 n = (if bit w n then shl1 n else 0)"
    by (rule bit_word_eqI) (auto simp: bit_simps shl1_def)
  moreover have "shl1 n \<noteq> 0" using bit_shl1 [of n n] n by auto
  ultimately show ?thesis by simp
qed

lemma testBit_bit: "testBit ws i \<longleftrightarrow> bit (ws ! (i div 64)) (i mod 64)"
  by (simp add: testBit_def and_shl1)

lemma length_setBit [simp]: "length (setBit i ws) = length ws"
  by (simp add: setBit_def)

lemma testBit_setBit:
  assumes "i div 64 < length ws"
  shows "testBit (setBit i ws) j \<longleftrightarrow> testBit ws j \<or> j = i"
proof (cases "j div 64 = i div 64")
  case True
  then have "j = i \<longleftrightarrow> j mod 64 = i mod 64" by (metis div_mult_mod_eq)
  with True assms show ?thesis
    by (auto simp: testBit_bit setBit_def bit_or_iff bit_shl1)
next
  case False
  then show ?thesis by (auto simp: testBit_bit setBit_def)
qed

lemma testBit_empty: "i div 64 < n \<Longrightarrow> \<not> testBit (replicate n 0) i"
  by (simp add: testBit_def)

lemma testBit_fold:
  assumes "\<And>i. i \<in> set ks \<Longrightarrow> i div 64 < length ws"
  shows "testBit (fold setBit ks ws) j \<longleftrightarrow> testBit ws j \<or> j \<in> set ks"
  using assms
proof (induction ks arbitrary: ws)
  case (Cons i ks)
  have "testBit (fold setBit ks (setBit i ws)) j \<longleftrightarrow> testBit (setBit i ws) j \<or> j \<in> set ks"
    using Cons.prems by (intro Cons.IH) auto
  moreover have "testBit (setBit i ws) j \<longleftrightarrow> testBit ws j \<or> j = i"
    using Cons.prems by (intro testBit_setBit) simp
  ultimately show ?case by auto
qed simp

end
