(* ===== verification/Fold_Matcher.thy ===== *)
theory Fold_Matcher
  imports Go_Text Bitset
begin

text \<open>
  The multi-pattern matcher of managed\_header\_privacy.go: a bitset over the first two folded
  bytes, then a map from the first eight folded bytes to the patterns that start with them.  The
  result is that the matcher finds exactly the texts that contain a pattern, ignoring ASCII case.
\<close>

section \<open>Folding\<close>

definition managedHeaderContainMinBytes :: nat where "managedHeaderContainMinBytes = 8"

definition foldByte :: "char \<Rightarrow> char" where
  "foldByte c = (if is_upper c then chr (byte c + 97 - 65) else c)"

definition foldASCII :: "string \<Rightarrow> string" where
  "foldASCII s = map foldByte s"

definition foldPrefix8 :: "string \<Rightarrow> u64" where
  "foldPrefix8 s =
     fold (\<lambda>i key. push_bit 8 key OR of_nat (byte (foldByte (s ! i)))) [0..<managedHeaderContainMinBytes] 0"

text \<open>\<open>s\<close> is cut to the length of the pattern by the caller.\<close>

definition equalFoldedASCII :: "string \<Rightarrow> string \<Rightarrow> bool" where
  "equalFoldedASCII s folded = list_all (\<lambda>i. foldByte (s ! i) = folded ! i) [0..<length folded]"

section \<open>The matcher\<close>

record foldMatcher =
  fm_first :: "u64 list"
  fm_patterns :: "(u64, string list) gomap"

definition emptyMatcher :: foldMatcher where
  "emptyMatcher = \<lparr>fm_first = replicate 1024 0, fm_patterns = []\<rparr>"

definition bytePair :: "char \<Rightarrow> char \<Rightarrow> nat" where
  "bytePair a b = byte a * 256 + byte b"

definition addPattern :: "string \<Rightarrow> foldMatcher \<Rightarrow> foldMatcher" where
  "addPattern pattern m =
     (let pair = bytePair (pattern ! 0) (pattern ! 1); key = foldPrefix8 pattern
      in m\<lparr>fm_first := setBit pair (fm_first m),
           fm_patterns := mput key ((case map_of (fm_patterns m) key of None \<Rightarrow> [] | Some ps \<Rightarrow> ps) @ [pattern])
                            (fm_patterns m)\<rparr>)"

text \<open>The test of one position: \<open>t\<close> is the text from there on.\<close>

definition matchAt :: "foldMatcher \<Rightarrow> string \<Rightarrow> bool" where
  "matchAt m t =
     (let pair = bytePair (foldByte (t ! 0)) (foldByte (t ! 1))
      in if \<not> testBit (fm_first m) pair then False
         else list_ex (\<lambda>pattern. length t \<ge> length pattern \<and> equalFoldedASCII (take (length pattern) t) pattern)
                (case map_of (fm_patterns m) (foldPrefix8 t) of None \<Rightarrow> [] | Some ps \<Rightarrow> ps))"

fun findLoop :: "foldMatcher \<Rightarrow> string \<Rightarrow> bool" where
  "findLoop m [] = False"
| "findLoop m (c # t) =
     (if managedHeaderContainMinBytes \<le> length (c # t)
      then matchAt m (c # t) \<or> findLoop m t else False)"

definition findPattern :: "foldMatcher \<Rightarrow> string \<Rightarrow> bool" where
  "findPattern m text = (if fm_patterns m = [] then False else findLoop m text)"

section \<open>What is in a matcher\<close>

text \<open>A pattern as the policy adds it: folded, and long enough.\<close>

definition pattern_ok :: "string \<Rightarrow> bool" where
  "pattern_ok p = (managedHeaderContainMinBytes \<le> length p \<and> foldASCII p = p)"

text \<open>\<open>m\<close> holds exactly the patterns \<open>ps\<close>.\<close>

definition holds_patterns :: "string set \<Rightarrow> foldMatcher \<Rightarrow> bool" where
  "holds_patterns ps m =
     (length (fm_first m) = 1024 \<and> (fm_patterns m = [] \<longrightarrow> ps = {}) \<and> (\<forall>p \<in> ps. pattern_ok p) \<and>
      (\<forall>p \<in> ps. testBit (fm_first m) (bytePair (p ! 0) (p ! 1))) \<and>
      (\<forall>key ps'. map_of (fm_patterns m) key = Some ps' \<longrightarrow> set ps' \<subseteq> ps) \<and>
      (\<forall>p \<in> ps. \<exists>ps'. map_of (fm_patterns m) (foldPrefix8 p) = Some ps' \<and> p \<in> set ps'))"

lemma holds_lookup:
  "holds_patterns ps m \<Longrightarrow> map_of (fm_patterns m) key = Some qs \<Longrightarrow> q \<in> set qs \<Longrightarrow> q \<in> ps"
  unfolding holds_patterns_def by blast

lemma holds_empty: "holds_patterns {} emptyMatcher"
  by (simp add: holds_patterns_def emptyMatcher_def)

lemma foldByte_idem [simp]: "foldByte (foldByte c) = foldByte c"
  by (auto simp: foldByte_def is_upper_def)

lemma foldASCII_idem [simp]: "foldASCII (foldASCII s) = foldASCII s"
  by (simp add: foldASCII_def)

lemma foldASCII_simps [simp]:
  "foldASCII [] = []" "foldASCII (c # s) = foldByte c # foldASCII s"
  "foldASCII (s @ t) = foldASCII s @ foldASCII t" "length (foldASCII s) = length s"
  by (simp_all add: foldASCII_def)

lemma bytePair_bound: "bytePair a b div 64 < 1024"
proof -
  have "byte a < 256" "byte b < 256" by simp_all
  then show ?thesis unfolding bytePair_def by linarith
qed

lemma testBit_add:
  assumes "length (fm_first m) = 1024"
  shows "testBit (fm_first (addPattern p m)) q \<longleftrightarrow> testBit (fm_first m) q \<or> q = bytePair (p ! 0) (p ! 1)"
  using testBit_setBit [of "bytePair (p ! 0) (p ! 1)" "fm_first m" q] bytePair_bound [of "p ! 0" "p ! 1"] assms
  by (simp add: addPattern_def Let_def)

lemma length_add [simp]: "length (fm_first (addPattern p m)) = length (fm_first m)"
  by (simp add: addPattern_def Let_def)

lemma holds_add:
  assumes "holds_patterns ps m" and "pattern_ok p"
  shows "holds_patterns (insert p ps) (addPattern p m)"
proof -
  have len: "length (fm_first m) = 1024" using assms(1) by (simp add: holds_patterns_def)
  let ?old = "case map_of (fm_patterns m) (foldPrefix8 p) of None \<Rightarrow> [] | Some ps \<Rightarrow> ps"
  have look: "map_of (fm_patterns (addPattern p m)) key =
      (if key = foldPrefix8 p then Some (?old @ [p]) else map_of (fm_patterns m) key)" for key
    by (simp add: addPattern_def Let_def)
  have old: "set ?old \<subseteq> ps" using holds_lookup [OF assms(1)]
    by (cases "map_of (fm_patterns m) (foldPrefix8 p)") (auto simp del: map_of_None_keys)
  have "\<exists>ps'. map_of (fm_patterns (addPattern p m)) (foldPrefix8 q) = Some ps' \<and> q \<in> set ps'"
    if "q \<in> insert p ps" for q
    using that assms(1) unfolding look holds_patterns_def by (cases "q = p") fastforce+
  moreover have "set ps' \<subseteq> insert p ps" if "map_of (fm_patterns (addPattern p m)) key = Some ps'" for key ps'
  proof (cases "key = foldPrefix8 p")
    case True
    with that old show ?thesis unfolding look by auto
  next
    case False
    with that holds_lookup [OF assms(1), of key ps'] show ?thesis unfolding look by auto
  qed
  moreover have "fm_patterns (addPattern p m) \<noteq> []"
    using look [of "foldPrefix8 p"] by (cases "fm_patterns (addPattern p m)") simp_all
  ultimately show ?thesis
    using assms len unfolding holds_patterns_def testBit_add [OF len] by auto
qed

section \<open>The matcher is exact\<close>

text \<open>A pattern stands at the front of a folded text.\<close>

lemma equalFolded_prefix:
  assumes "length p \<le> length t"
  shows "equalFoldedASCII (take (length p) t) p \<longleftrightarrow> prefix p (foldASCII t)"
proof -
  have "equalFoldedASCII (take (length p) t) p \<longleftrightarrow> (\<forall>i < length p. foldASCII t ! i = p ! i)"
    using assms by (auto simp: equalFoldedASCII_def list_all_iff foldASCII_def)
  also have "\<dots> \<longleftrightarrow> take (length p) (foldASCII t) = p"
    using assms by (auto simp: list_eq_iff_nth_eq)
  also have "\<dots> \<longleftrightarrow> prefix p (foldASCII t)"
    by (auto simp: prefix_def) (metis append_take_drop_id)
  finally show ?thesis .
qed

lemma foldPrefix8_fold:
  "managedHeaderContainMinBytes \<le> length s \<Longrightarrow> foldPrefix8 (foldASCII s) = foldPrefix8 s"
  unfolding foldPrefix8_def by (intro fold_cong) (auto simp: foldASCII_def managedHeaderContainMinBytes_def)

lemma foldPrefix8_prefix:
  "managedHeaderContainMinBytes \<le> length p \<Longrightarrow> prefix p s \<Longrightarrow> foldPrefix8 s = foldPrefix8 p"
  unfolding foldPrefix8_def
  by (intro fold_cong) (auto simp: prefix_def nth_append managedHeaderContainMinBytes_def)

lemma matchAt_iff:
  assumes "holds_patterns ps m" and "managedHeaderContainMinBytes \<le> length t"
  shows "matchAt m t \<longleftrightarrow> (\<exists>p \<in> ps. prefix p (foldASCII t))"
proof
  assume "matchAt m t"
  then obtain ps' p where "map_of (fm_patterns m) (foldPrefix8 t) = Some ps'" "p \<in> set ps'"
    "length p \<le> length t" "equalFoldedASCII (take (length p) t) p"
    by (cases "map_of (fm_patterns m) (foldPrefix8 t)")
      (auto simp: matchAt_def Let_def list_ex_iff simp del: map_of_None_keys split: if_splits)
  with holds_lookup [OF assms(1)] show "\<exists>p \<in> ps. prefix p (foldASCII t)"
    by (auto simp: equalFolded_prefix)
next
  assume "\<exists>p \<in> ps. prefix p (foldASCII t)"
  then obtain p where p: "p \<in> ps" "prefix p (foldASCII t)" by blast
  have ok: "8 \<le> length p" and len: "length p \<le> length t"
    using assms(1) p prefix_length_le [OF p(2)]
    by (auto simp: holds_patterns_def pattern_ok_def managedHeaderContainMinBytes_def)
  have key: "foldPrefix8 t = foldPrefix8 p"
    using foldPrefix8_prefix [OF _ p(2)] foldPrefix8_fold [OF assms(2)] ok
    by (simp add: managedHeaderContainMinBytes_def)
  obtain u where u: "foldASCII t = p @ u" using p(2) by (auto simp: prefix_def)
  have at: "p ! i = foldByte (t ! i)" if "i < length p" for i
    using arg_cong [OF u, of "\<lambda>s. s ! i"] that len by (simp add: foldASCII_def nth_append)
  have "p ! 0 = foldByte (t ! 0)" "p ! 1 = foldByte (t ! 1)" using at [of 0] at [of 1] ok by linarith+
  then have "testBit (fm_first m) (bytePair (foldByte (t ! 0)) (foldByte (t ! 1)))"
    using assms(1) p(1) by (auto simp: holds_patterns_def)
  moreover obtain ps' where "map_of (fm_patterns m) (foldPrefix8 t) = Some ps'" "p \<in> set ps'"
    using assms(1) p(1) key by (auto simp: holds_patterns_def)
  ultimately show "matchAt m t"
    using p len by (auto simp: matchAt_def Let_def list_ex_iff equalFolded_prefix intro!: bexI [of _ p])
qed

lemma findLoop_iff:
  assumes "holds_patterns ps m"
  shows "findLoop m t \<longleftrightarrow> (\<exists>p \<in> ps. sublist p (foldASCII t))"
proof (induction t)
  case Nil
  have "[] \<notin> ps" using assms by (auto simp: holds_patterns_def pattern_ok_def managedHeaderContainMinBytes_def)
  then show ?case by auto
next
  case (Cons c t)
  have short: "length (c # t) < managedHeaderContainMinBytes \<Longrightarrow> p \<in> ps \<Longrightarrow> \<not> sublist p (foldASCII (c # t))" for p
    using assms sublist_length_le [of p "foldASCII (c # t)"]
    by (fastforce simp: holds_patterns_def pattern_ok_def)
  show ?case
  proof (cases "managedHeaderContainMinBytes \<le> length (c # t)")
    case True
    with Cons matchAt_iff [OF assms True] show ?thesis
      by (auto simp: sublist_Cons_right)
  next
    case False
    then show ?thesis using short by auto
  qed
qed

lemma findPattern_iff:
  "holds_patterns ps m \<Longrightarrow> findPattern m t \<longleftrightarrow> (\<exists>p \<in> ps. sublist p (foldASCII t))"
  using findLoop_iff [of ps m t] by (auto simp: findPattern_def holds_patterns_def)

end
