(* ===== verification/Netip.thy ===== *)
theory Netip
  imports Json
begin

text \<open>
  What the code uses of Go's \<open>net/netip\<close>: parsing an address, unmapping an IPv4 address
  carried in IPv6, the network prefix and the canonical text.  An IPv6 address is its eight
  16-bit groups and a zone.
\<close>

datatype addr = V4 u32 | V6 "u16 list" string

section \<open>Parsing\<close>

definition octetOf :: "string \<Rightarrow> nat option" where
  "octetOf s = (if s = [] \<or> (hd s = CHR ''0'' \<and> length s > 1) then None
                else case digits_val 0 s of
                       Some n \<Rightarrow> if n \<le> 255 then Some n else None
                     | None \<Rightarrow> None)"

definition parseIPv4Fields :: "string \<Rightarrow> (nat \<times> nat \<times> nat \<times> nat) option" where
  "parseIPv4Fields s =
     (case map octetOf (splitOn (CHR ''.'') s) of
        [Some a, Some b, Some c, Some d] \<Rightarrow> Some (a, b, c, d)
      | _ \<Rightarrow> None)"

definition v4OfBytes :: "nat \<times> nat \<times> nat \<times> nat \<Rightarrow> u32" where
  "v4OfBytes q = (case q of (a, b, c, d) \<Rightarrow> of_nat (((a * 256 + b) * 256 + c) * 256 + d))"

text \<open>One field of an IPv6 address: up to four hex digits.\<close>

definition hexField :: "string \<Rightarrow> (nat \<times> string) option" where
  "hexField s =
     (let ds = takeWhile (\<lambda>c. unhex c \<noteq> None) s
      in if ds = [] \<or> 4 < length ds then None
         else Some (fold (\<lambda>c n. n * 16 + the (unhex c)) ds 0, drop (length ds) s))"

text \<open>
  The loop of \<open>parseIPv6\<close>: the groups read so far, where the \<open>::\<close> stood, and the rest of the
  text.  The result is the final groups, the place of the \<open>::\<close> and the unread text.
\<close>

function v6Loop :: "u16 list \<Rightarrow> nat option \<Rightarrow> string \<Rightarrow> (u16 list \<times> nat option \<times> string) option" where
  "v6Loop gs ell s =
     (if 8 \<le> length gs then Some (gs, ell, s)
      else case hexField s of
        None \<Rightarrow> None
      | Some (acc, t) \<Rightarrow>
          if t \<noteq> [] \<and> hd t = CHR ''.'' then
            (if (ell = None \<and> length gs \<noteq> 6) \<or> 6 < length gs then None
             else case parseIPv4Fields s of
               None \<Rightarrow> None
             | Some (a, b, c, d) \<Rightarrow> Some (gs @ [of_nat (a * 256 + b), of_nat (c * 256 + d)], ell, []))
          else
            (let gs' = gs @ [of_nat acc]
             in if t = [] then Some (gs', ell, [])
                else if hd t \<noteq> CHR '':'' then None
                else if length t = 1 then None
                else if t ! 1 = CHR '':'' then
                  (if ell \<noteq> None then None
                   else if length t = 2 then Some (gs', Some (length gs'), [])
                   else v6Loop gs' (Some (length gs')) (drop 2 t))
                else v6Loop gs' ell (drop 1 t)))"
  by pat_completeness auto
termination
  by (relation "measure (\<lambda>(gs, ell, s). 8 - length gs)") auto

declare v6Loop.simps [simp del]

definition v6Finish :: "string \<Rightarrow> u16 list \<times> nat option \<times> string \<Rightarrow> addr option" where
  "v6Finish zone r =
     (case r of (gs, ell, s) \<Rightarrow>
        if s \<noteq> [] then None
        else if length gs < 8 then
          (case ell of
             None \<Rightarrow> None
           | Some e \<Rightarrow> Some (V6 (take e gs @ replicate (8 - length gs) 0 @ drop e gs) zone))
        else if ell \<noteq> None then None
        else Some (V6 gs zone))"

definition parseIPv6 :: "string \<Rightarrow> addr option" where
  "parseIPv6 inp =
     (let (s, rest) = (takeWhile (\<lambda>c. c \<noteq> CHR ''%'') inp, dropWhile (\<lambda>c. c \<noteq> CHR ''%'') inp);
          zone = tl rest
      in if rest \<noteq> [] \<and> zone = [] then None
         else if prefix ''::'' s then
           (let t = drop 2 s
            in if t = [] then Some (V6 (replicate 8 0) zone)
               else Option.bind (v6Loop [] (Some 0) t) (v6Finish zone))
         else Option.bind (v6Loop [] None s) (v6Finish zone))"

definition ParseAddr :: "string \<Rightarrow> addr option" where
  "ParseAddr s =
     (case dropWhile (\<lambda>c. c \<noteq> CHR ''.'' \<and> c \<noteq> CHR '':'' \<and> c \<noteq> CHR ''%'') s of
        [] \<Rightarrow> None
      | c # _ \<Rightarrow>
          if c = CHR ''.'' then map_option (\<lambda>q. V4 (v4OfBytes q)) (parseIPv4Fields s)
          else if c = CHR '':'' then parseIPv6 s
          else None)"

section \<open>Operations\<close>

fun Unmap :: "addr \<Rightarrow> addr" where
  "Unmap (V4 a) = V4 a"
| "Unmap (V6 gs zone) =
     (if take 5 gs = replicate 5 0 \<and> gs ! 5 = 0xFFFF
      then V4 (of_nat (unat (gs ! 6) * 65536 + unat (gs ! 7)))
      else V6 gs zone)"

definition maskGroup :: "nat \<Rightarrow> u16 \<Rightarrow> u16" where
  "maskGroup b g = (if 16 \<le> b then g else if b = 0 then 0
                    else of_nat (unat g div 2 ^ (16 - b) * 2 ^ (16 - b)))"

text \<open>\<open>addr.Prefix(bits)\<close> for a length that fits: the host bits and the zone go.\<close>

fun Prefix_addr :: "addr \<Rightarrow> nat \<Rightarrow> addr" where
  "Prefix_addr (V4 a) b = V4 (of_nat (unat a div 2 ^ (32 - b) * 2 ^ (32 - b)))"
| "Prefix_addr (V6 gs zone) b = V6 (map (\<lambda>i. maskGroup (b - 16 * i) (gs ! i)) [0..<8]) []"

fun WithoutZone :: "addr \<Rightarrow> addr" where
  "WithoutZone (V4 a) = V4 a"
| "WithoutZone (V6 gs zone) = V6 gs []"

section \<open>Text\<close>

definition v4Text :: "u32 \<Rightarrow> string" where
  "v4Text a = (let n = unat a in
     FormatUint (n div 16777216) @ ''.'' @ FormatUint (n div 65536 mod 256) @ ''.''
     @ FormatUint (n div 256 mod 256) @ ''.'' @ FormatUint (n mod 256))"

fun hexText :: "nat \<Rightarrow> string" where
  "hexText n = (if n < 16 then [hexdig n] else hexText (n div 16) @ [hexdig (n mod 16)])"

declare hexText.simps [simp del]

text \<open>The first longest run of at least two zero groups, as (start, end).\<close>

definition zeroRun :: "u16 list \<Rightarrow> nat \<Rightarrow> nat" where
  "zeroRun gs i = length (takeWhile (\<lambda>g. g = 0) (drop i gs))"

definition bestRun :: "u16 list \<Rightarrow> nat \<times> nat" where
  "bestRun gs = fold (\<lambda>i (s, e). if 2 \<le> zeroRun gs i \<and> e - s < zeroRun gs i
                                 then (i, i + zeroRun gs i) else (s, e)) [0..<8] (255, 255)"

definition v6Text :: "u16 list \<Rightarrow> string" where
  "v6Text gs =
     (let (s, e) = bestRun gs;
          hexes = (\<lambda>xs. joinWith (CHR '':'') (map (\<lambda>g. hexText (unat g)) xs))
      in if s = 255 then hexes gs else hexes (take s gs) @ ''::'' @ hexes (drop e gs))"

fun addrString :: "addr \<Rightarrow> string" where
  "addrString (V4 a) = v4Text a"
| "addrString (V6 gs zone) =
     (if take 5 gs = replicate 5 0 \<and> gs ! 5 = 0xFFFF
      then ''::ffff:'' @ v4Text (of_nat (unat (gs ! 6) * 65536 + unat (gs ! 7)))
      else v6Text gs) @ (if zone = [] then [] else CHR ''%'' # zone)"

end
