(* ===== verification/Http_Request.thy ===== *)
theory Http_Request
  imports Go_Text
begin

text \<open>
  What the code reads of a \<open>net/http\<close> request: the parts of the parsed target, the header map
  with its canonical names, and the raw target.  \<open>EscapedPath\<close> is computed by \<open>net/url\<close> and
  is a field here.
\<close>

type_synonym header = "(string \<times> string list) list"

record httpRequest =
  rq_Method :: string
  rq_Path :: string
  rq_EscapedPath :: string
  rq_RawQuery :: string
  rq_Fragment :: string
  rq_RequestURI :: string
  rq_Proto :: string
  rq_ProtoMajor :: int
  rq_ProtoMinor :: int
  rq_ForceQuery :: bool
  rq_Host :: string
  rq_RemoteAddr :: string
  rq_ContentLength :: int
  rq_TransferEncoding :: "string list"
  rq_Header :: header

text \<open>\<open>Header.Get\<close> and \<open>Header.Values\<close>; the code only uses canonical names.\<close>

definition headerGet :: "header \<Rightarrow> string \<Rightarrow> string" where
  "headerGet h name = (case map_of h name of Some (v # vs) \<Rightarrow> v | _ \<Rightarrow> [])"

definition headerValues :: "header \<Rightarrow> string \<Rightarrow> string list" where
  "headerValues h name = (case map_of h name of Some vs \<Rightarrow> vs | None \<Rightarrow> [])"

lemma headerGet_in: "headerGet h name \<noteq> [] \<Longrightarrow> \<exists>vs. (name, vs) \<in> set h \<and> headerGet h name \<in> set vs"
  by (auto simp: headerGet_def split: option.splits list.splits dest: map_of_SomeD)

end
