(* ===== verification/Managed_Header.thy ===== *)
theory Managed_Header
  imports Fold_Matcher Netip Http_Request
begin

text \<open>
  The managed-Header policy of managed\_header\_privacy.go: how it is compiled, the decoding of
  escapes, and the tests that decide whether a Header field or a text carries a managed value.
  A Go set is a list.  \<open>html.UnescapeString\<close>, with its table of entities, is the parameter
  \<open>unesc\<close>.
\<close>

section \<open>Constants\<close>

definition managedHeaderPairMaxCount :: nat where "managedHeaderPairMaxCount = 128 * 16 * 16"

definition managedHeaderNameMaxBytes :: nat where "managedHeaderNameMaxBytes = 128"

definition managedHeaderValueMaxBytes :: nat where "managedHeaderValueMaxBytes = 1024"

definition managedHeaderMaskedText :: string where
  "managedHeaderMaskedText = ''[masked: managed header value]''"

definition managedHeaderMaskedURLPart :: string where "managedHeaderMaskedURLPart = ''[masked]''"

definition managedHeaderMaskedIP :: string where "managedHeaderMaskedIP = ''100::''"

section \<open>Data\<close>

record managedHeaderCredential =
  mc_Name :: string
  mc_Value :: string

record managedHeaderPolicy =
  mp_names :: "string list"
  mp_nameLens :: "bool list"
  mp_values :: "string list"
  mp_valueLens :: "bool list"
  mp_lengths :: "nat list"
  mp_ips :: "addr list"
  mp_contain :: foldMatcher
  mp_question :: bool
  mp_plusTokens :: "string list"
  mp_containInUserAgent :: foldMatcher
  mp_maskedText :: string
  mp_maskedURLPart :: string
  mp_maskedIP :: string

section \<open>Decoding\<close>

definition isHex :: "char \<Rightarrow> bool" where
  "isHex c = (is_digit c \<or> (97 \<le> byte c \<and> byte c \<le> 102) \<or> (65 \<le> byte c \<and> byte c \<le> 70))"

definition hexValue :: "char \<Rightarrow> u8" where
  "hexValue c =
     (if byte c \<ge> 97 then of_nat (byte c) - 97 + 10
      else if byte c \<ge> 65 then of_nat (byte c) - 65 + 10
      else of_nat (byte c) - 48)"

definition hexPair :: "char \<Rightarrow> char \<Rightarrow> u8" where
  "hexPair a b = push_bit 4 (hexValue a) OR hexValue b"

definition byteChar :: "u8 \<Rightarrow> char" where
  "byteChar b = chr (unat b)"

text \<open>The byte of \<open>%uXXXX\<close>: the lower pair, with full-width ASCII folded back.\<close>

definition uniByte :: "char \<Rightarrow> char \<Rightarrow> char \<Rightarrow> char \<Rightarrow> char" where
  "uniByte a b c d =
     (let v = hexPair c d
      in byteChar (if v > 0 \<and> v < 0x5f \<and> (a = CHR ''f'' \<or> a = CHR ''F'') \<and> (b = CHR ''f'' \<or> b = CHR ''F'')
                   then v + 0x20 else v))"

text \<open>The next \<open>n\<close> bytes exist and are hex digits.\<close>

definition allHex :: "nat \<Rightarrow> string \<Rightarrow> bool" where
  "allHex n s = (n \<le> length s \<and> list_all isHex (take n s))"

fun urlDecodeUni :: "string \<Rightarrow> string" where
  "urlDecodeUni [] = []"
| "urlDecodeUni (x # s) =
     (if x = CHR ''+'' then CHR '' '' # urlDecodeUni s
      else if x \<noteq> CHR ''%'' then x # urlDecodeUni s
      else if s \<noteq> [] \<and> (hd s = CHR ''u'' \<or> hd s = CHR ''U'') then
        (if allHex 4 (tl s) then uniByte (s ! 1) (s ! 2) (s ! 3) (s ! 4) # urlDecodeUni (drop 5 s)
         else x # hd s # urlDecodeUni (tl s))
      else if allHex 2 s then byteChar (hexPair (s ! 0) (s ! 1)) # urlDecodeUni (drop 2 s)
      else x # urlDecodeUni s)"

definition decodeManagedHeaderEscapes :: "(string \<Rightarrow> string) \<Rightarrow> string \<Rightarrow> string" where
  "decodeManagedHeaderEscapes unesc s =
     (let s1 = (if ContainsAny s ''%+'' then urlDecodeUni s else s);
          s2 = (if CHR ''&'' \<in> set s1 then unesc s1 else s1)
      in filter (\<lambda>c. c \<noteq> chr 0) s2)"

section \<open>Fields\<close>

definition managedName :: "managedHeaderPolicy \<Rightarrow> string \<Rightarrow> bool" where
  "managedName p name =
     (if length name = 0 \<or> length name > managedHeaderNameMaxBytes \<or> \<not> mp_nameLens p ! length name then False
      else foldASCII name \<in> set (mp_names p))"

definition equalsValue :: "managedHeaderPolicy \<Rightarrow> string \<Rightarrow> bool" where
  "equalsValue p field =
     (if length field = 0 \<or> length field > managedHeaderValueMaxBytes \<or> \<not> mp_valueLens p ! length field then False
      else foldASCII field \<in> set (mp_values p))"

definition managedIP :: "managedHeaderPolicy \<Rightarrow> string \<Rightarrow> bool" where
  "managedIP p s =
     (if mp_ips p = [] then False
      else case ParseAddr s of None \<Rightarrow> False | Some ip \<Rightarrow> Unmap ip \<in> set (mp_ips p))"

text \<open>
  The loop over the elements of a list: an element is read as long as text remains, so a
  trailing comma adds no empty element.
\<close>

function elements :: "string \<Rightarrow> string list" where
  "elements rest =
     (if rest = [] then []
      else case indexByte rest (CHR '','') of
             Some i \<Rightarrow> take i rest # elements (drop (Suc i) rest)
           | None \<Rightarrow> [rest])"
  by pat_completeness auto
termination
  by (relation "measure length") auto

declare elements.simps [simp del]

definition formCarries :: "managedHeaderPolicy \<Rightarrow> string \<Rightarrow> bool" where
  "formCarries p t =
     (if equalsValue p t \<or> managedIP p t then True
      else if CHR '','' \<notin> set t then False
      else list_ex (\<lambda>e. equalsValue p (trimSpace e) \<or> managedIP p (trimSpace e)) (elements t))"

text \<open>At most \<open>n\<close> more rounds of decoding.\<close>

fun fieldRounds :: "(string \<Rightarrow> string) \<Rightarrow> managedHeaderPolicy \<Rightarrow> nat \<Rightarrow> string \<Rightarrow> bool" where
  "fieldRounds unesc p 0 t = False"
| "fieldRounds unesc p (Suc n) t =
     (let nxt = decodeManagedHeaderEscapes unesc t
      in if nxt = t then False
         else if formCarries p (trimSpace nxt) then True
         else fieldRounds unesc p n (trimSpace nxt))"

definition fieldCarries :: "(string \<Rightarrow> string) \<Rightarrow> managedHeaderPolicy \<Rightarrow> string \<Rightarrow> bool" where
  "fieldCarries unesc p field =
     (let t = trimSpace field
      in if formCarries p t then True
         else if length t > 6 * managedHeaderValueMaxBytes \<or> \<not> ContainsAny t ''%+&'' then False
         else fieldRounds unesc p 3 t)"

definition headersCarry :: "(string \<Rightarrow> string) \<Rightarrow> managedHeaderPolicy \<Rightarrow> header \<Rightarrow> bool" where
  "headersCarry unesc p headers =
     list_ex (\<lambda>(name, values). managedName p name \<and> list_ex (fieldCarries unesc p) values) headers"

section \<open>Tokens of a text\<close>

definition isAlnum :: "char \<Rightarrow> bool" where
  "isAlnum c = (is_digit c \<or> is_lower c \<or> is_upper c)"

text \<open>The bytes between separators of the run scan: maximal runs, with empty ones in between.\<close>

function ipRuns :: "(char \<Rightarrow> bool) \<Rightarrow> string \<Rightarrow> string list" where
  "ipRuns inRun t =
     (if t = [] then []
      else takeWhile inRun t # ipRuns inRun (drop (Suc (length (takeWhile inRun t))) t))"
  by pat_completeness auto
termination
  by (relation "measure (\<lambda>(f, t). length t)") auto

declare ipRuns.simps [simp del]

definition ipTokenCarries :: "managedHeaderPolicy \<Rightarrow> string \<Rightarrow> bool" where
  "ipTokenCarries p t =
     (if mp_ips p = [] then False
      else list_ex (\<lambda>inRun. list_ex (\<lambda>run. run \<noteq> [] \<and> managedIP p run) (ipRuns inRun t))
             [\<lambda>c. isHex c \<or> c = CHR '':'' \<or> c = CHR ''.'', \<lambda>c. is_digit c \<or> c = CHR ''.''])"

text \<open>The candidate of length \<open>n\<close> at \<open>i\<close>, and the loop over the lengths, which stops at the
  first length that does not fit.\<close>

definition tokenAt :: "managedHeaderPolicy \<Rightarrow> string \<Rightarrow> nat \<Rightarrow> nat \<Rightarrow> bool" where
  "tokenAt p t i n =
     (let e = i + n; w = foldASCII (take n (drop i t))
      in (w \<in> set (mp_values p) \<or> w \<in> set (mp_plusTokens p))
         \<and> \<not> (e < length t \<and> isAlnum (t ! (e - 1)) \<and> isAlnum (t ! e)))"

definition tokenCarries :: "managedHeaderPolicy \<Rightarrow> string \<Rightarrow> bool" where
  "tokenCarries p t =
     (if formCarries p (trimSpace t) \<or> ipTokenCarries p t then True
      else list_ex (\<lambda>i. \<not> (i > 0 \<and> isAlnum (t ! (i - 1)) \<and> isAlnum (t ! i))
                         \<and> list_ex (tokenAt p t i) (takeWhile (\<lambda>n. i + n \<le> length t) (mp_lengths p)))
             [0..<length t])"

text \<open>The rounds of \<open>urlTextCarries\<close>; \<open>n\<close> is how many are left.\<close>

fun carryRounds :: "(string \<Rightarrow> string) \<Rightarrow> managedHeaderPolicy \<Rightarrow> bool \<Rightarrow> nat \<Rightarrow> string \<Rightarrow> bool" where
  "carryRounds unesc p all n t =
     (if findPattern (mp_contain p) t \<or> (all \<and> tokenCarries p t) then True
      else case n of
             0 \<Rightarrow> False
           | Suc k \<Rightarrow>
               if \<not> ContainsAny t [CHR ''%'', CHR ''+'', CHR ''&'', chr 0] then False
               else let nxt = decodeManagedHeaderEscapes unesc t
                    in if nxt = t then False else carryRounds unesc p all k nxt)"

declare carryRounds.simps [simp del]

definition urlTextCarries :: "(string \<Rightarrow> string) \<Rightarrow> managedHeaderPolicy \<Rightarrow> string \<Rightarrow> bool \<Rightarrow> bool" where
  "urlTextCarries unesc p text all = carryRounds unesc p all 3 text"

section \<open>Compiling a policy\<close>

definition emptyPolicy :: managedHeaderPolicy where
  "emptyPolicy =
     \<lparr>mp_names = [], mp_nameLens = replicate (managedHeaderNameMaxBytes + 1) False,
      mp_values = [], mp_valueLens = replicate (managedHeaderValueMaxBytes + 1) False,
      mp_lengths = [], mp_ips = [], mp_contain = emptyMatcher, mp_question = False, mp_plusTokens = [],
      mp_containInUserAgent = emptyMatcher, mp_maskedText = [], mp_maskedURLPart = [], mp_maskedIP = []\<rparr>"

text \<open>The addresses among the elements of a value.\<close>

definition valueIPs :: "string \<Rightarrow> addr list" where
  "valueIPs value =
     map Unmap (List.map_filter (\<lambda>e. ParseAddr (trimSpace e)) (splitOn (CHR '','') value))"

text \<open>A value not seen before.\<close>

definition addValue :: "string \<Rightarrow> string \<Rightarrow> managedHeaderPolicy \<Rightarrow> managedHeaderPolicy" where
  "addValue raw value p =
     (let long = (managedHeaderContainMinBytes \<le> length value);
          spaced = map (\<lambda>c. if c = CHR ''+'' then CHR '' '' else c) value;
          plus = (CHR ''+'' \<in> set value);
          c1 = (if plus \<and> long then addPattern spaced (mp_contain p) else mp_contain p)
      in p\<lparr>mp_values := value # mp_values p,
           mp_valueLens := (mp_valueLens p)[length value := True],
           mp_question := (mp_question p \<or> CHR ''?'' \<in> set value),
           mp_contain := (if long then addPattern value c1 else c1),
           mp_plusTokens := (if plus \<and> \<not> long then spaced # mp_plusTokens p else mp_plusTokens p),
           mp_ips := valueIPs raw @ mp_ips p\<rparr>)"

text \<open>One pair; the first component collects the values already added for other Headers.\<close>

definition addPair ::
    "managedHeaderCredential \<Rightarrow> string list \<times> managedHeaderPolicy \<Rightarrow> string list \<times> managedHeaderPolicy" where
  "addPair pair acc =
     (case acc of (inUserAgent, p) \<Rightarrow>
        let name = foldASCII (mc_Name pair);
            value = foldASCII (mc_Value pair);
            p1 = p\<lparr>mp_names := name # mp_names p, mp_nameLens := (mp_nameLens p)[length name := True]\<rparr>;
            ua = (name \<noteq> ''user-agent'' \<and> managedHeaderContainMinBytes \<le> length value \<and> value \<notin> set inUserAgent);
            p2 = (if ua then p1\<lparr>mp_containInUserAgent := addPattern value (mp_containInUserAgent p1)\<rparr> else p1)
        in (if ua then value # inUserAgent else inUserAgent,
            if value \<in> set (mp_values p2) then p2 else addValue (mc_Value pair) value p2))"

text \<open>The first marker of the list that the test accepts; the last one is the empty text.\<close>

fun pickMarker :: "(string \<Rightarrow> bool) \<Rightarrow> string list \<Rightarrow> string" where
  "pickMarker carries [] = []"
| "pickMarker carries (m # ms) = (if m = [] \<or> \<not> carries m then m else pickMarker carries ms)"

function maskedIPLoop :: "managedHeaderPolicy \<Rightarrow> nat \<Rightarrow> string \<Rightarrow> string" where
  "maskedIPLoop p n ip =
     (if managedIP p ip \<and> n \<le> 0xffff then maskedIPLoop p (Suc n) (''100::'' @ hexText n) else ip)"
  by pat_completeness auto
termination
  by (relation "measure (\<lambda>(p, n, ip). 0x10000 - n)") auto

declare maskedIPLoop.simps [simp del]

definition finishPolicy :: "(string \<Rightarrow> string) \<Rightarrow> managedHeaderPolicy \<Rightarrow> managedHeaderPolicy" where
  "finishPolicy unesc p =
     (let p1 = p\<lparr>mp_lengths := filter (\<lambda>n. mp_valueLens p ! n) [0..<managedHeaderContainMinBytes]\<rparr>;
          p2 = p1\<lparr>mp_maskedText := pickMarker (\<lambda>m. equalsValue p1 m \<or> findPattern (mp_contain p1) m)
                     [managedHeaderMaskedText, ''[masked]'', ''[*]'', []]\<rparr>;
          p3 = p2\<lparr>mp_maskedURLPart := pickMarker (\<lambda>m. urlTextCarries unesc p2 m True)
                     [managedHeaderMaskedURLPart, ''[*]'', ''-'', []]\<rparr>
      in p3\<lparr>mp_maskedIP := maskedIPLoop p3 1 managedHeaderMaskedIP\<rparr>)"

definition compileManagedHeaderPolicy ::
    "(string \<Rightarrow> string) \<Rightarrow> managedHeaderCredential list \<Rightarrow> managedHeaderPolicy" where
  "compileManagedHeaderPolicy unesc pairs = finishPolicy unesc (snd (fold addPair pairs ([], emptyPolicy)))"

section \<open>Formatting\<close>

text \<open>What the \<open>fmt\<close> verbs print of a credential and of a policy, whatever the verb.\<close>

definition formatCredential :: "managedHeaderCredential \<Rightarrow> string" where
  "formatCredential c = ''{'' @ mc_Name c @ '' [redacted]}''"

definition formatPolicy :: "managedHeaderPolicy \<Rightarrow> string" where
  "formatPolicy p = ''managedHeaderPolicy{redacted}''"

lemma format_hides: "formatCredential (c\<lparr>mc_Value := v\<rparr>) = formatCredential c" "formatPolicy p = formatPolicy p'"
  by (simp_all add: formatCredential_def formatPolicy_def)

end
