(* ===== verification/Defense_Plan.thy ===== *)
theory Defense_Plan
  imports Defense_Marker Bitset Managed_Header
begin

text \<open>
  The compiled plan of a defense-evidence handler (defense\_evidence.go): validation of its
  configuration, and the capture of the selected rule ids from the request's variables, by probing
  each selector or, at catalog scale, by one scan of the variables into bitsets.
\<close>

section \<open>Data\<close>

record defenseSnapshot =
  sn_Evidence :: defenseEvidence
  sn_ObserveCoraza :: bool
  sn_SkipCorazaRuleIDs :: "u32 list"

record defenseEvidenceHandler =
  dh_ManagedHeaders :: "managedHeaderCredential list"
  dh_Mode :: string
  dh_HTTPVar :: string
  dh_CorazaAllVar :: string
  dh_CorazaRuleVars :: "(string, string) gomap"
  dh_ObserveCorazaVar :: string
  dh_SkipCorazaRuleVars :: "(string, string) gomap"

record defenseSelector =
  ds_id :: u32
  ds_index :: nat
  ds_name :: string

record defenseSelectorTarget =
  dt_index :: nat
  dt_skip :: bool

record defenseEvidencePlan =
  pl_mode :: string
  pl_httpVar :: string
  pl_allVar :: string
  pl_observeVar :: string
  pl_rules :: "defenseSelector list"
  pl_skips :: "defenseSelector list"
  pl_byName :: "(string, defenseSelectorTarget list) gomap"
  pl_unknown :: "u32 list"
  pl_privacy :: "managedHeaderPolicy option"

text \<open>A request variable: Caddy's variables hold any value, and only strings count here.\<close>

datatype varValue = VString string | VOther

type_synonym vars = "(string, varValue) gomap"

definition varIs :: "vars \<Rightarrow> string \<Rightarrow> string \<Rightarrow> bool" where
  "varIs vs name value = (map_of vs name = Some (VString value))"

section \<open>Compiling\<close>

datatype compileError = BadMode | BadPrivacyInput | StampCaptures | TooManySelectors | BadSelector

definition defenseSelectorMaxCount :: nat where "defenseSelectorMaxCount = 4096"

definition pairRefused :: "managedHeaderCredential \<Rightarrow> bool" where
  "pairRefused c = (mc_Name c = [] \<or> length (mc_Name c) > managedHeaderNameMaxBytes
     \<or> mc_Value c = [] \<or> length (mc_Value c) > managedHeaderValueMaxBytes)"

text \<open>The selectors of one group, the targets by name and the unknown ids collected so far.\<close>

record groupState =
  gs_selectors :: "defenseSelector list"
  gs_byName :: "(string, defenseSelectorTarget list) gomap"
  gs_unknown :: "u32 list"

definition addTarget ::
    "string \<Rightarrow> defenseSelectorTarget \<Rightarrow> (string, defenseSelectorTarget list) gomap
     \<Rightarrow> (string, defenseSelectorTarget list) gomap" where
  "addTarget name tg m = mput name ((case map_of m name of None \<Rightarrow> [] | Some ts \<Rightarrow> ts) @ [tg]) m"

definition addSelector :: "bool \<Rightarrow> string \<times> string \<Rightarrow> groupState \<Rightarrow> compileError + groupState" where
  "addSelector skip kv g =
     (case kv of (key, name) \<Rightarrow>
        case ParseUint 32 key of
          None \<Rightarrow> Inl BadSelector
        | Some n \<Rightarrow>
            if FormatUint n \<noteq> key \<or> name = [] then Inl BadSelector
            else case defenseCRSIndex (of_nat n) of (index, known) \<Rightarrow>
                   if \<not> known then Inr (g\<lparr>gs_unknown := List.insert (of_nat n) (gs_unknown g)\<rparr>)
                   else Inr (g\<lparr>gs_selectors := gs_selectors g @ [\<lparr>ds_id = of_nat n, ds_index = index, ds_name = name\<rparr>],
                               gs_byName := addTarget name \<lparr>dt_index = index, dt_skip = skip\<rparr> (gs_byName g)\<rparr>))"

fun addSelectors :: "bool \<Rightarrow> (string, string) gomap \<Rightarrow> groupState \<Rightarrow> compileError + groupState" where
  "addSelectors skip [] g = Inr g"
| "addSelectors skip (kv # kvs) g =
     (case addSelector skip kv g of Inl e \<Rightarrow> Inl e | Inr g' \<Rightarrow> addSelectors skip kvs g')"

definition compileGroup ::
    "bool \<Rightarrow> (string, string) gomap \<Rightarrow> (string, defenseSelectorTarget list) gomap \<Rightarrow> u32 list
     \<Rightarrow> compileError + groupState" where
  "compileGroup skip kvs byName unknown =
     (if length kvs > defenseSelectorMaxCount then Inl TooManySelectors
      else case addSelectors skip kvs \<lparr>gs_selectors = [], gs_byName = byName, gs_unknown = unknown\<rparr> of
             Inl e \<Rightarrow> Inl e
           | Inr g \<Rightarrow> Inr (g\<lparr>gs_selectors := sort_key ds_id (gs_selectors g)\<rparr>))"

definition compilePlan ::
    "(string \<Rightarrow> string) \<Rightarrow> defenseEvidenceHandler \<Rightarrow> compileError + defenseEvidencePlan" where
  "compilePlan unesc h =
     (if dh_Mode h \<notin> {''capture'', ''capture_privacy'', ''stamp_waf''} then Inl BadMode
      else if length (dh_ManagedHeaders h) > managedHeaderPairMaxCount
           \<or> (dh_Mode h \<noteq> ''capture_privacy'' \<and> dh_ManagedHeaders h \<noteq> []) then Inl BadPrivacyInput
      else if list_ex pairRefused (dh_ManagedHeaders h) then Inl BadPrivacyInput
      else if dh_Mode h \<in> {''stamp_waf'', ''capture_privacy''}
           \<and> (dh_HTTPVar h \<noteq> [] \<or> dh_CorazaAllVar h \<noteq> [] \<or> dh_ObserveCorazaVar h \<noteq> []
              \<or> dh_CorazaRuleVars h \<noteq> [] \<or> dh_SkipCorazaRuleVars h \<noteq> []) then Inl StampCaptures
      else case compileGroup False (dh_CorazaRuleVars h) [] [] of
             Inl e \<Rightarrow> Inl e
           | Inr g1 \<Rightarrow>
               (case compileGroup True (dh_SkipCorazaRuleVars h) (gs_byName g1) (gs_unknown g1) of
                  Inl e \<Rightarrow> Inl e
                | Inr g2 \<Rightarrow>
                    Inr \<lparr>pl_mode = dh_Mode h, pl_httpVar = dh_HTTPVar h, pl_allVar = dh_CorazaAllVar h,
                         pl_observeVar = dh_ObserveCorazaVar h, pl_rules = gs_selectors g1,
                         pl_skips = gs_selectors g2, pl_byName = gs_byName g2,
                         pl_unknown = sort (gs_unknown g2),
                         pl_privacy = (if dh_Mode h = ''capture_privacy''
                                       then Some (compileManagedHeaderPolicy unesc (dh_ManagedHeaders h)) else None)\<rparr>))"

section \<open>Capturing\<close>

definition selectedVar :: "vars \<Rightarrow> string \<Rightarrow> bool" where
  "selectedVar vs name = (if name = [] then False else varIs vs name ''true'')"

definition probeSelectors :: "vars \<Rightarrow> defenseSelector list \<Rightarrow> u32 list" where
  "probeSelectors vs selectors = map ds_id (filter (\<lambda>s. varIs vs (ds_name s) ''true'') selectors)"

definition defenseCatalogWords :: nat where "defenseCatalogWords = 16"

text \<open>\<open>bits.TrailingZeros64\<close>.\<close>

definition TrailingZeros64 :: "u64 \<Rightarrow> nat" where
  "TrailingZeros64 w = length (takeWhile (\<lambda>n. \<not> bit w n) [0..<64])"

text \<open>The set bits of one word, lowest first: the loop with \<open>w &= w - 1\<close>.\<close>

function wordBits :: "u64 \<Rightarrow> nat list" where
  "wordBits w = (if w = 0 then [] else TrailingZeros64 w # wordBits (w AND (w - 1)))"
  by pat_completeness auto
termination
proof (relation "measure unat")
  fix w :: u64
  assume "w \<noteq> 0"
  then have "unat (w - 1) < unat w" by (rule measure_unat)
  moreover have "unat (w AND (w - 1)) \<le> unat (w - 1)" using word_and_le1 [of w "w - 1"] by (simp add: word_le_nat_alt)
  ultimately show "(w AND (w - 1), w) \<in> measure unat" by simp
qed simp

declare wordBits.simps [simp del]

definition catalogIDs :: "u64 list \<Rightarrow> u32 list" where
  "catalogIDs ws =
     concat (map (\<lambda>i. map (\<lambda>b. defenseCRSIDs ! (i * 64 + b)) (wordBits (ws ! i))) [0..<defenseCatalogWords])"

text \<open>The scan of the variables: the targets of each name whose value is \<open>true\<close>.\<close>

definition markTarget :: "defenseSelectorTarget \<Rightarrow> u64 list \<times> u64 list \<Rightarrow> u64 list \<times> u64 list" where
  "markTarget tg acc =
     (case acc of (ruleBits, skipBits) \<Rightarrow>
        if dt_skip tg then (ruleBits, setBit (dt_index tg) skipBits)
        else (setBit (dt_index tg) ruleBits, skipBits))"

definition targetsOf :: "defenseEvidencePlan \<Rightarrow> string \<Rightarrow> defenseSelectorTarget list" where
  "targetsOf p name = (case map_of (pl_byName p) name of None \<Rightarrow> [] | Some ts \<Rightarrow> ts)"

definition scanVars :: "defenseEvidencePlan \<Rightarrow> vars \<Rightarrow> u64 list \<times> u64 list" where
  "scanVars p vs =
     fold (\<lambda>(name, value) acc. if value = VString ''true'' then fold markTarget (targetsOf p name) acc else acc) vs
       (replicate defenseCatalogWords 0, replicate defenseCatalogWords 0)"

definition selectedIDs :: "defenseEvidencePlan \<Rightarrow> vars \<Rightarrow> u32 list \<times> u32 list" where
  "selectedIDs p vs =
     (let n = length (pl_rules p) + length (pl_skips p)
      in if n = 0 \<or> vs = [] then ([], [])
         else if n < 64 \<or> length vs > 2 * n then (probeSelectors vs (pl_rules p), probeSelectors vs (pl_skips p))
         else case scanVars p vs of (ruleBits, skipBits) \<Rightarrow> (catalogIDs ruleBits, catalogIDs skipBits))"

definition capture :: "defenseEvidencePlan \<Rightarrow> vars \<Rightarrow> defenseSnapshot" where
  "capture p vs =
     (case selectedIDs p vs of (rules, skips) \<Rightarrow>
        \<lparr>sn_Evidence = \<lparr>de_HTTP = selectedVar vs (pl_httpVar p), de_CorazaAll = selectedVar vs (pl_allVar p),
                         de_CorazaRuleIDs = rules\<rparr>,
         sn_ObserveCoraza = selectedVar vs (pl_observeVar p), sn_SkipCorazaRuleIDs = skips\<rparr>)"

end
