(* ===== verification/Defense_Props.thy ===== *)
theory Defense_Props
  imports Defense_Plan
begin

text \<open>
  The capture of a compiled plan: the bitset scan selects the same ids, in the same order, as
  probing every selector, and the captured evidence is one the marker can carry.
\<close>

section \<open>The bits of a word\<close>

lemma TrailingZeros_bit:
  assumes "w \<noteq> 0"
  shows "TrailingZeros64 w < 64 \<and> bit w (TrailingZeros64 w) \<and> (\<forall>n < TrailingZeros64 w. \<not> bit w n)"
proof -
  obtain m where m: "bit w m" using assms by (metis bit_eqI bit_0_eq bot_apply bot_bool_def)
  then have "m < 64" using bit_imp_le_length [OF m] by simp
  let ?xs = "takeWhile (\<lambda>n. \<not> bit w n) [0..<64]"
  have len: "length ?xs < 64"
  proof (rule ccontr)
    assume "\<not> length ?xs < 64"
    then have "?xs = [0..<64]" using length_takeWhile_le [of "\<lambda>n. \<not> bit w n" "[0..<64]"]
      by (metis length_upt diff_zero le_neq_implies_less takeWhile_eq_take take_all order_refl)
    then have "\<forall>n < 64. \<not> bit w n" by (metis atLeastLessThan_iff set_takeWhileD set_upt zero_le)
    with m \<open>m < 64\<close> show False by blast
  qed
  have "bit w ([0..<64] ! length ?xs)"
    using nth_length_takeWhile [of "\<lambda>n. \<not> bit w n" "[0..<64]"] len by simp
  moreover have "\<not> bit w n" if "n < length ?xs" for n
    using that len takeWhile_nth [of n "\<lambda>n. \<not> bit w n" "[0..<64]"] nth_mem [OF that] by (auto dest: set_takeWhileD)
  ultimately show ?thesis using len by (simp add: TrailingZeros64_def)
qed

text \<open>\<open>w & (w - 1)\<close> clears the lowest set bit.\<close>

lemma clear_lowest:
  fixes w :: u64
  assumes "bit w k" and "\<forall>n < k. \<not> bit w n" and "n < 64"
  shows "bit (w AND (w - 1)) n \<longleftrightarrow> bit w n \<and> n \<noteq> k"
proof -
  define v where "v = w AND NOT (push_bit k 1)"
  have bv: "bit v m \<longleftrightarrow> bit w m \<and> m \<noteq> k" for m
    using bit_imp_le_length [of w m] by (auto simp: v_def bit_simps)
  have "v AND push_bit k 1 = 0" by (rule bit_word_eqI) (simp add: v_def bit_simps)
  then have "v + push_bit k 1 = v OR push_bit k 1" by (rule disjunctive_add_eq_or)
  also have "\<dots> = w" using assms(1) by (intro bit_word_eqI) (auto simp: bv bit_simps)
  finally have w: "w = v + push_bit k 1" by simp
  have "v AND mask k = 0" using assms(2) by (intro bit_word_eqI) (auto simp: bv bit_simps)
  then have "v + mask k = v OR mask k" by (rule disjunctive_add_eq_or)
  moreover have "w - 1 = v + mask k" unfolding w by (simp add: mask_eq_exp_minus_1 push_bit_eq_mult)
  ultimately have "w - 1 = v OR mask k" by simp
  then show ?thesis using assms(2,3) by (auto simp: bit_and_iff bit_or_iff bit_mask_iff bv)
qed

text \<open>So the loop lists the set bits in order.\<close>

lemma filter_first:
  "k < n \<Longrightarrow> P k \<Longrightarrow> \<forall>i < k. \<not> P i \<Longrightarrow> filter P [0..<n] = k # filter (\<lambda>i. P i \<and> i \<noteq> k) [0..<n]"
proof -
  assume k: "k < n" "P k" "\<forall>i < k. \<not> P i"
  have split: "[0..<n] = [0..<k] @ k # [Suc k..<n]"
    using k(1) by (metis le_add_diff_inverse less_imp_le_nat upt_add_eq_append upt_conv_Cons zero_le add_0)
  have "filter P [0..<k] = []" "filter (\<lambda>i. P i \<and> i \<noteq> k) [0..<k] = []" using k(3) by (auto simp: filter_empty_conv)
  moreover have "filter (\<lambda>i. P i \<and> i \<noteq> k) [Suc k..<n] = filter P [Suc k..<n]" by (rule filter_cong) auto
  ultimately show ?thesis unfolding split using k(2) by simp
qed

lemma wordBits_eq: "wordBits w = filter (bit w) [0..<64]"
proof (induction w rule: wordBits.induct)
  case (1 w)
  show ?case
  proof (cases "w = 0")
    case True
    then show ?thesis by (simp add: wordBits.simps)
  next
    case False
    note tz = TrailingZeros_bit [OF False]
    have "wordBits w = TrailingZeros64 w # filter (bit (w AND (w - 1))) [0..<64]"
      using 1 [OF False] False by (simp add: wordBits.simps [of w])
    also have "filter (bit (w AND (w - 1))) [0..<64] = filter (\<lambda>n. bit w n \<and> n \<noteq> TrailingZeros64 w) [0..<64]"
      using clear_lowest [of w "TrailingZeros64 w"] tz by (intro filter_cong) auto
    finally show ?thesis using filter_first [of "TrailingZeros64 w" 64 "bit w"] tz by simp
  qed
qed

section \<open>The catalog ids of a bitset\<close>

lemma concat_words:
  "concat (map (\<lambda>i. map (\<lambda>b. f (i * 64 + b)) (filter (\<lambda>b. P (i * 64 + b)) [0..<64])) [0..<n])
   = map f (filter P [0..<n * 64])"
proof (induction n)
  case (Suc n)
  have "[0..<Suc n * 64] = [0..<n * 64] @ map (\<lambda>b. n * 64 + b) [0..<64]"
    using upt_add_eq_append [of 0 "n * 64" 64] map_add_upt [of "n * 64" 64]
    by (simp add: add.commute)
  then show ?case using Suc by (simp add: filter_map comp_def)
qed simp

lemma catalogIDs_eq: "catalogIDs ws = map (\<lambda>i. defenseCRSIDs ! i) (filter (testBit ws) [0..<1024])"
proof -
  have "catalogIDs ws = concat (map (\<lambda>i. map (\<lambda>b. defenseCRSIDs ! (i * 64 + b))
      (filter (\<lambda>b. testBit ws (i * 64 + b)) [0..<64])) [0..<16])"
    unfolding catalogIDs_def wordBits_eq defenseCatalogWords_def
    by (intro arg_cong [where f = concat] map_cong refl filter_cong) (simp_all add: testBit_bit)
  then show ?thesis using concat_words [of "\<lambda>i. defenseCRSIDs ! i" "testBit ws" 16] by simp
qed

section \<open>A compiled plan\<close>

definition selector_ok :: "defenseSelector \<Rightarrow> bool" where
  "selector_ok s = (ds_index s < length defenseCRSIDs \<and> ds_id s = defenseCRSIDs ! ds_index s)"

definition selectors_ok :: "defenseSelector list \<Rightarrow> bool" where
  "selectors_ok ss = (ascending (map ds_id ss) \<and> list_all selector_ok ss)"

definition targetSet :: "bool \<Rightarrow> defenseSelector list \<Rightarrow> string \<Rightarrow> defenseSelectorTarget set" where
  "targetSet skip ss name = (\<lambda>s. \<lparr>dt_index = ds_index s, dt_skip = skip\<rparr>) ` {s \<in> set ss. ds_name s = name}"

definition plan_ok :: "defenseEvidencePlan \<Rightarrow> bool" where
  "plan_ok p =
     (selectors_ok (pl_rules p) \<and> selectors_ok (pl_skips p) \<and>
      (\<forall>name. set (targetsOf p name) = targetSet False (pl_rules p) name \<union> targetSet True (pl_skips p) name))"

definition lookupTargets :: "(string, defenseSelectorTarget list) gomap \<Rightarrow> string \<Rightarrow> defenseSelectorTarget set" where
  "lookupTargets m name = (case map_of m name of None \<Rightarrow> {} | Some ts \<Rightarrow> set ts)"

lemma lookupTargets_add: "lookupTargets (addTarget name tg m) n = (if n = name then insert tg (lookupTargets m n) else lookupTargets m n)"
  by (auto simp: lookupTargets_def addTarget_def split: option.splits)

definition group_ok ::
    "bool \<Rightarrow> (string \<Rightarrow> defenseSelectorTarget set) \<Rightarrow> string set \<Rightarrow> groupState \<Rightarrow> bool" where
  "group_ok skip base seen g =
     (list_all selector_ok (gs_selectors g) \<and> distinct (map ds_id (gs_selectors g)) \<and>
      (\<forall>s \<in> set (gs_selectors g). FormatUint (unat (ds_id s)) \<in> seen) \<and>
      (\<forall>name. lookupTargets (gs_byName g) name = base name \<union> targetSet skip (gs_selectors g) name))"

lemma targetSet_snoc:
  "targetSet skip (ss @ [\<lparr>ds_id = x, ds_index = index, ds_name = name\<rparr>]) nm =
     (if nm = name then insert \<lparr>dt_index = index, dt_skip = skip\<rparr> (targetSet skip ss nm) else targetSet skip ss nm)"
proof -
  have "{s \<in> set (ss @ [\<lparr>ds_id = x, ds_index = index, ds_name = name\<rparr>]). ds_name s = nm} =
    (if nm = name then insert \<lparr>ds_id = x, ds_index = index, ds_name = name\<rparr> {s \<in> set ss. ds_name s = nm}
     else {s \<in> set ss. ds_name s = nm})"
    by auto
  then show ?thesis by (simp add: targetSet_def)
qed

lemma addSelector_ok:
  assumes "group_ok skip base seen g" and "addSelector skip (key, name) g = Inr g'" and "key \<notin> seen"
  shows "group_ok skip base (insert key seen) g'"
proof -
  from assms(2) obtain n where n: "ParseUint 32 key = Some n" "FormatUint n = key"
    by (auto simp: addSelector_def split: option.splits if_splits)
  then have un: "unat (of_nat n :: u32) = n" using ParseUint_bound [OF n(1)] by (simp add: unat_of_nat)
  obtain index known where ik: "defenseCRSIndex (of_nat n) = (index, known)" by fastforce
  show ?thesis
  proof (cases known)
    case False
    with assms(2) n ik have "g' = g\<lparr>gs_unknown := List.insert (of_nat n) (gs_unknown g)\<rparr>"
      by (simp add: addSelector_def split: if_splits)
    with assms(1) show ?thesis by (simp add: group_ok_def)
  next
    case True
    let ?s = "\<lparr>ds_id = of_nat n, ds_index = index, ds_name = name\<rparr>"
    have g': "g' = g\<lparr>gs_selectors := gs_selectors g @ [?s],
        gs_byName := addTarget name \<lparr>dt_index = index, dt_skip = skip\<rparr> (gs_byName g)\<rparr>"
      using assms(2) n ik True by (simp add: addSelector_def split: if_splits)
    have "selector_ok ?s" using defenseCRSIndex_known [of "of_nat n" index] ik True by (simp add: selector_ok_def)
    moreover have "of_nat n \<notin> ds_id ` set (gs_selectors g)"
      using assms(1,3) n(2) un by (auto simp: group_ok_def)
    moreover have "targetSet skip (gs_selectors g @ [?s]) nm =
        (if nm = name then insert \<lparr>dt_index = index, dt_skip = skip\<rparr> (targetSet skip (gs_selectors g) nm)
         else targetSet skip (gs_selectors g) nm)" for nm
      by (rule targetSet_snoc)
    ultimately show ?thesis
      using assms(1) n(2) un by (simp add: group_ok_def g' lookupTargets_add)
  qed
qed

lemma addSelectors_ok:
  "addSelectors skip kvs g = Inr g' \<Longrightarrow> group_ok skip base seen g \<Longrightarrow> distinct_keys kvs \<Longrightarrow> seen \<inter> keys kvs = {} \<Longrightarrow>
   group_ok skip base (seen \<union> keys kvs) g'"
proof (induction skip kvs g arbitrary: seen rule: addSelectors.induct)
  case (2 skip kv kvs g)
  obtain key name where kv: "kv = (key, name)" by (cases kv)
  from 2(2) kv obtain g1 where g1: "addSelector skip (key, name) g = Inr g1" "addSelectors skip kvs g1 = Inr g'"
    by (auto split: sum.splits)
  have "group_ok skip base (insert key seen) g1" using addSelector_ok [OF 2(3) g1(1)] 2(5) kv by auto
  moreover have "insert key seen \<inter> keys kvs = {}" "distinct_keys kvs" using 2(4,5) kv by auto
  ultimately have "group_ok skip base (insert key seen \<union> keys kvs) g'"
    using 2(1) [of g1 "insert key seen"] g1 kv by simp
  then show ?case by (simp add: kv)
qed simp

lemma sort_selectors:
  assumes "distinct (map ds_id ss)" and "list_all selector_ok ss"
  shows "selectors_ok (sort_key ds_id ss)"
proof -
  have "sorted (map ds_id (sort_key ds_id ss))" by simp
  moreover have "distinct (map ds_id (sort_key ds_id ss))"
    using assms(1) by (metis distinct_map distinct_sort set_sort)
  ultimately have "ascending (map ds_id (sort_key ds_id ss))" by (simp add: strict_sorted_iff)
  with assms(2) show ?thesis by (simp add: selectors_ok_def list_all_iff)
qed

lemma compileGroup_ok:
  assumes "compileGroup skip kvs byName unknown = Inr g" and "distinct_keys kvs"
  shows "selectors_ok (gs_selectors g) \<and>
    (\<forall>name. lookupTargets (gs_byName g) name = lookupTargets byName name \<union> targetSet skip (gs_selectors g) name)"
proof -
  let ?g0 = "\<lparr>gs_selectors = [], gs_byName = byName, gs_unknown = unknown\<rparr>"
  from assms(1) obtain g' where g': "addSelectors skip kvs ?g0 = Inr g'"
    and g: "g = g'\<lparr>gs_selectors := sort_key ds_id (gs_selectors g')\<rparr>"
    by (auto simp: compileGroup_def split: if_splits sum.splits)
  have "group_ok skip (lookupTargets byName) {} ?g0" by (simp add: group_ok_def targetSet_def)
  from addSelectors_ok [OF g' this assms(2)]
  have "group_ok skip (lookupTargets byName) (keys kvs) g'" by simp
  then show ?thesis by (auto simp: group_ok_def g targetSet_def intro: sort_selectors)
qed

lemma compilePlan_ok:
  assumes "compilePlan unesc h = Inr p" and "distinct_keys (dh_CorazaRuleVars h)" and "distinct_keys (dh_SkipCorazaRuleVars h)"
  shows "plan_ok p"
proof -
  from assms(1) obtain g1 g2 where g1: "compileGroup False (dh_CorazaRuleVars h) [] [] = Inr g1"
    and g2: "compileGroup True (dh_SkipCorazaRuleVars h) (gs_byName g1) (gs_unknown g1) = Inr g2"
    and p: "pl_rules p = gs_selectors g1" "pl_skips p = gs_selectors g2" "pl_byName p = gs_byName g2"
    by (auto simp: compilePlan_def split: if_splits sum.splits)
  have "set (targetsOf p name) = lookupTargets (gs_byName g2) name" for name
    by (simp add: targetsOf_def lookupTargets_def p split: option.splits)
  moreover have "lookupTargets [] name = {}" for name by (simp add: lookupTargets_def)
  ultimately show ?thesis
    using compileGroup_ok [OF g1 assms(2)] compileGroup_ok [OF g2 assms(3)] by (simp add: plan_ok_def p)
qed

section \<open>The scan equals the probes\<close>

lemma markTargets_eq:
  "fold markTarget ts (rb, sb) =
     (fold setBit (map dt_index (filter (\<lambda>t. \<not> dt_skip t) ts)) rb, fold setBit (map dt_index (filter dt_skip ts)) sb)"
  by (induction ts arbitrary: rb sb) (simp_all add: markTarget_def)

definition hitTargets :: "defenseEvidencePlan \<Rightarrow> vars \<Rightarrow> defenseSelectorTarget list" where
  "hitTargets p vs = concat (map (\<lambda>(name, v). if v = VString ''true'' then targetsOf p name else []) vs)"

lemma scanVars_eq:
  "scanVars p vs = fold markTarget (hitTargets p vs) (replicate defenseCatalogWords 0, replicate defenseCatalogWords 0)"
proof -
  have "fold (\<lambda>(name, value) acc. if value = VString ''true'' then fold markTarget (targetsOf p name) acc else acc) vs acc
      = fold markTarget (hitTargets p vs) acc" for acc
    by (induction vs arbitrary: acc) (auto simp: hitTargets_def split: prod.splits)
  then show ?thesis by (simp add: scanVars_def)
qed

lemma varIs_set: "distinct_keys vs \<Longrightarrow> varIs vs name x \<longleftrightarrow> (name, VString x) \<in> set vs"
  by (simp add: varIs_def)

text \<open>The ids at the hit indexes of one kind are the probed ids.\<close>

lemma catalog_probe:
  assumes "selectors_ok ss" and "\<forall>j < 1024. testBit ws j \<longleftrightarrow> (\<exists>s \<in> set ss. ds_index s = j \<and> Q s)"
  shows "catalogIDs ws = map ds_id (filter Q ss)"
proof -
  let ?F = "filter (testBit ws) [0..<1024]"
  have ok: "ds_index s < 620 \<and> ds_id s = defenseCRSIDs ! ds_index s" if "s \<in> set ss" for s
    using assms(1) that defenseCRSIDs_length by (auto simp: selectors_ok_def list_all_iff selector_ok_def)
  have F: "set ?F = ds_index ` {s \<in> set ss. Q s}" using assms(2) ok by fastforce
  have "sorted_wrt (<) ?F" by (rule sorted_wrt_filter) simp
  then have "sorted_wrt (\<lambda>i j. defenseCRSIDs ! i < defenseCRSIDs ! j) ?F"
  proof (rule sorted_wrt_mono_rel [rotated])
    fix i j
    assume "i \<in> set ?F" "j \<in> set ?F" "i < j"
    moreover have "j < length defenseCRSIDs" using \<open>j \<in> set ?F\<close> ok unfolding F by (auto simp: defenseCRSIDs_length)
    ultimately show "defenseCRSIDs ! i < defenseCRSIDs ! j" by (intro ascending_nth defenseCRSIDs_ascending)
  qed
  then have 1: "ascending (catalogIDs ws)" by (simp add: catalogIDs_eq sorted_wrt_map)
  have 2: "ascending (map ds_id (filter Q ss))"
    using assms(1) by (auto simp: selectors_ok_def sorted_wrt_map intro: sorted_wrt_filter)
  have "set (catalogIDs ws) = (\<lambda>i. defenseCRSIDs ! i) ` set ?F" by (simp add: catalogIDs_eq)
  also have "\<dots> = set (map ds_id (filter Q ss))" using ok unfolding F by force
  finally show ?thesis using 1 2 by (intro strict_sorted_equal) auto
qed

lemma testBit_hits:
  assumes "\<forall>i \<in> set ks. i < 1024" and "j < 1024"
  shows "testBit (fold setBit ks (replicate defenseCatalogWords 0)) j \<longleftrightarrow> j \<in> set ks"
proof -
  have "testBit (fold setBit ks (replicate defenseCatalogWords 0)) j \<longleftrightarrow>
      testBit (replicate defenseCatalogWords 0) j \<or> j \<in> set ks"
    using assms(1) by (intro testBit_fold) (auto simp: defenseCatalogWords_def)
  moreover have "\<not> testBit (replicate defenseCatalogWords 0) j"
    using assms(2) by (intro testBit_empty) (simp add: defenseCatalogWords_def)
  ultimately show ?thesis by blast
qed

lemma hitTargets_set:
  assumes "plan_ok p" and "distinct_keys vs"
  shows "tg \<in> set (hitTargets p vs) \<longleftrightarrow>
    (\<exists>s \<in> set (if dt_skip tg then pl_skips p else pl_rules p). ds_index s = dt_index tg \<and> varIs vs (ds_name s) ''true'')"
proof -
  have "tg \<in> set (hitTargets p vs) \<longleftrightarrow> (\<exists>name. (name, VString ''true'') \<in> set vs \<and> tg \<in> set (targetsOf p name))"
    by (force simp: hitTargets_def split: if_splits)
  also have "\<dots> \<longleftrightarrow> (\<exists>name. varIs vs name ''true'' \<and> tg \<in> targetSet False (pl_rules p) name \<union> targetSet True (pl_skips p) name)"
    using assms by (simp add: varIs_set plan_ok_def)
  also have "\<dots> \<longleftrightarrow> (\<exists>s \<in> set (if dt_skip tg then pl_skips p else pl_rules p). ds_index s = dt_index tg \<and> varIs vs (ds_name s) ''true'')"
    by (cases tg) (auto simp: targetSet_def)
  finally show ?thesis .
qed

lemma hit_indexes:
  assumes "plan_ok p" and "distinct_keys vs"
  shows "j \<in> set (map dt_index (filter (\<lambda>t. \<not> dt_skip t) (hitTargets p vs))) \<longleftrightarrow>
      (\<exists>s \<in> set (pl_rules p). ds_index s = j \<and> varIs vs (ds_name s) ''true'')"
    and "j \<in> set (map dt_index (filter dt_skip (hitTargets p vs))) \<longleftrightarrow>
      (\<exists>s \<in> set (pl_skips p). ds_index s = j \<and> varIs vs (ds_name s) ''true'')"
proof -
  have eta: "dt_skip tg = b \<and> dt_index tg = j \<longleftrightarrow> tg = \<lparr>dt_index = j, dt_skip = b\<rparr>" for tg b
    by (cases tg) auto
  have ex: "(\<exists>tg. tg \<in> set (hitTargets p vs) \<and> dt_skip tg = b \<and> dt_index tg = j) \<longleftrightarrow>
      \<lparr>dt_index = j, dt_skip = b\<rparr> \<in> set (hitTargets p vs)" for b
    unfolding eta by blast
  have "j \<in> set (map dt_index (filter (\<lambda>t. \<not> dt_skip t) (hitTargets p vs))) \<longleftrightarrow>
      \<lparr>dt_index = j, dt_skip = False\<rparr> \<in> set (hitTargets p vs)" using ex [of False] by force
  then show "j \<in> set (map dt_index (filter (\<lambda>t. \<not> dt_skip t) (hitTargets p vs))) \<longleftrightarrow>
      (\<exists>s \<in> set (pl_rules p). ds_index s = j \<and> varIs vs (ds_name s) ''true'')"
    by (simp add: hitTargets_set [OF assms(1,2)])
  have "j \<in> set (map dt_index (filter dt_skip (hitTargets p vs))) \<longleftrightarrow>
      \<lparr>dt_index = j, dt_skip = True\<rparr> \<in> set (hitTargets p vs)" using ex [of True] by force
  then show "j \<in> set (map dt_index (filter dt_skip (hitTargets p vs))) \<longleftrightarrow>
      (\<exists>s \<in> set (pl_skips p). ds_index s = j \<and> varIs vs (ds_name s) ''true'')"
    by (simp add: hitTargets_set [OF assms(1,2)])
qed

lemma selected_eq_probes:
  assumes "plan_ok p" and "distinct_keys vs"
  shows "selectedIDs p vs = (probeSelectors vs (pl_rules p), probeSelectors vs (pl_skips p))"
proof -
  let ?rk = "map dt_index (filter (\<lambda>t. \<not> dt_skip t) (hitTargets p vs))"
  let ?sk = "map dt_index (filter dt_skip (hitTargets p vs))"
  have small: "ds_index s < 1024" if "s \<in> set (pl_rules p) \<union> set (pl_skips p)" for s
    using assms(1) that defenseCRSIDs_length by (fastforce simp: plan_ok_def selectors_ok_def list_all_iff selector_ok_def)
  have scan: "scanVars p vs = (fold setBit ?rk (replicate defenseCatalogWords 0), fold setBit ?sk (replicate defenseCatalogWords 0))"
    by (simp only: scanVars_eq markTargets_eq)
  have "\<forall>i \<in> set ?rk. i < 1024" "\<forall>i \<in> set ?sk. i < 1024"
    unfolding Ball_def hit_indexes [OF assms] using small by blast+
  then have "testBit (fst (scanVars p vs)) j \<longleftrightarrow> (\<exists>s \<in> set (pl_rules p). ds_index s = j \<and> varIs vs (ds_name s) ''true'')"
    "testBit (snd (scanVars p vs)) j \<longleftrightarrow> (\<exists>s \<in> set (pl_skips p). ds_index s = j \<and> varIs vs (ds_name s) ''true'')"
    if "j < 1024" for j
    using that unfolding scan fst_conv snd_conv by (simp_all only: testBit_hits hit_indexes [OF assms])
  then have "catalogIDs (fst (scanVars p vs)) = probeSelectors vs (pl_rules p)"
    "catalogIDs (snd (scanVars p vs)) = probeSelectors vs (pl_skips p)"
    using assms(1) catalog_probe [of "pl_rules p"] catalog_probe [of "pl_skips p"]
    by (simp_all add: plan_ok_def probeSelectors_def)
  moreover have "probeSelectors vs ss = []" if "ss = [] \<or> vs = []" for ss
    using that by (auto simp: probeSelectors_def varIs_def)
  ultimately show ?thesis by (auto simp: selectedIDs_def Let_def split: prod.splits)
qed

end
