(* ===== verification/Managed_Props.thy ===== *)
theory Managed_Props
  imports Managed_Header
begin

text \<open>
  What a compiled policy finds.  The length bitmaps, the first-bytes bitset and the prefix map
  are optimisations: the tests are membership and containment up to ASCII case.
\<close>

section \<open>What is in a policy\<close>

definition longValue :: "string \<Rightarrow> bool" where
  "longValue v = (managedHeaderContainMinBytes \<le> length v)"

definition spacedPlus :: "string \<Rightarrow> string" where
  "spacedPlus v = map (\<lambda>c. if c = CHR ''+'' then CHR '' '' else c) v"

definition lens_ok :: "nat \<Rightarrow> string set \<Rightarrow> bool list \<Rightarrow> bool" where
  "lens_ok mx A ls = (length ls = Suc mx \<and> (\<forall>v \<in> A. length v \<le> mx) \<and> (\<forall>n \<le> mx. ls ! n = (\<exists>v \<in> A. length v = n)))"

text \<open>The patterns of the containment matcher for a set of folded values.\<close>

definition containPatterns :: "string set \<Rightarrow> string set" where
  "containPatterns V = {v \<in> V. longValue v} \<union> {spacedPlus v | v. v \<in> V \<and> longValue v \<and> CHR ''+'' \<in> set v}"

definition policy_ok :: "string set \<Rightarrow> string set \<Rightarrow> string set \<Rightarrow> managedHeaderPolicy \<Rightarrow> bool" where
  "policy_ok N V U p =
     (set (mp_names p) = N \<and> lens_ok managedHeaderNameMaxBytes N (mp_nameLens p) \<and>
      set (mp_values p) = V \<and> lens_ok managedHeaderValueMaxBytes V (mp_valueLens p) \<and>
      holds_patterns (containPatterns V) (mp_contain p) \<and>
      mp_question p = (\<exists>v \<in> V. CHR ''?'' \<in> set v) \<and>
      set (mp_plusTokens p) = {spacedPlus v | v. v \<in> V \<and> \<not> longValue v \<and> CHR ''+'' \<in> set v} \<and>
      holds_patterns U (mp_containInUserAgent p))"

lemma lens_ok_empty: "lens_ok mx {} (replicate (Suc mx) False)"
  by (auto simp: lens_ok_def simp del: replicate.simps)

lemma lens_ok_insert:
  "lens_ok mx A ls \<Longrightarrow> length v \<le> mx \<Longrightarrow> lens_ok mx (insert v A) (ls[length v := True])"
  by (auto simp: lens_ok_def nth_list_update)

lemma policy_ok_empty: "policy_ok {} {} {} emptyPolicy"
  by (simp add: policy_ok_def emptyPolicy_def lens_ok_empty holds_empty containPatterns_def del: replicate.simps)

lemma spacedPlus_fold: "foldASCII v = v \<Longrightarrow> foldASCII (spacedPlus v) = spacedPlus v"
  by (induction v) (auto simp: spacedPlus_def foldASCII_def foldByte_def is_upper_def)

lemma length_spacedPlus [simp]: "length (spacedPlus v) = length v"
  by (simp add: spacedPlus_def)

lemma policy_ok_addValue:
  assumes "policy_ok N V U p" and "foldASCII v = v" and "length v \<le> managedHeaderValueMaxBytes"
  shows "policy_ok N (insert v V) U (addValue raw v p)"
proof -
  let ?plus = "CHR ''+'' \<in> set v" and ?c = "mp_contain p"
  have ok: "pattern_ok v" "pattern_ok (spacedPlus v)" if "longValue v"
    using that assms(2) spacedPlus_fold by (auto simp: pattern_ok_def longValue_def)
  have pats: "containPatterns (insert v V) =
    (if longValue v then insert v (if ?plus then insert (spacedPlus v) (containPatterns V) else containPatterns V)
     else containPatterns V)"
    by (auto simp: containPatterns_def)
  have c: "holds_patterns (containPatterns V) ?c" using assms(1) by (simp add: policy_ok_def)
  have "holds_patterns (containPatterns (insert v V))
     (if longValue v then addPattern v (if ?plus then addPattern (spacedPlus v) ?c else ?c) else ?c)"
    unfolding pats using c ok by (auto intro: holds_add)
  moreover have "mp_contain (addValue raw v p) =
     (if longValue v then addPattern v (if ?plus then addPattern (spacedPlus v) ?c else ?c) else ?c)"
    by (simp add: addValue_def Let_def longValue_def spacedPlus_def)
  moreover have "set (mp_plusTokens (addValue raw v p)) =
      {spacedPlus w | w. w \<in> insert v V \<and> \<not> longValue w \<and> CHR ''+'' \<in> set w}"
    using assms(1) by (auto simp: policy_ok_def addValue_def Let_def longValue_def spacedPlus_def)
  ultimately show ?thesis
    using assms lens_ok_insert [of _ V "mp_valueLens p" v]
    by (auto simp: policy_ok_def addValue_def Let_def)
qed

text \<open>A pair as the handler validates it.\<close>

definition pair_ok :: "managedHeaderCredential \<Rightarrow> bool" where
  "pair_ok c = (mc_Name c \<noteq> [] \<and> length (mc_Name c) \<le> managedHeaderNameMaxBytes
     \<and> mc_Value c \<noteq> [] \<and> length (mc_Value c) \<le> managedHeaderValueMaxBytes)"

definition foldedName :: "managedHeaderCredential \<Rightarrow> string" where
  "foldedName c = foldASCII (mc_Name c)"

definition foldedValue :: "managedHeaderCredential \<Rightarrow> string" where
  "foldedValue c = foldASCII (mc_Value c)"

definition uaValues :: "managedHeaderCredential set \<Rightarrow> string set" where
  "uaValues cs = {foldedValue c | c. c \<in> cs \<and> foldedName c \<noteq> ''user-agent'' \<and> longValue (foldedValue c)}"

lemma policy_ok_addPair:
  assumes "policy_ok N V (set ua) p" and "pair_ok c"
  shows "case addPair c (ua, p) of (ua', p') \<Rightarrow>
    set ua' = set ua \<union> uaValues {c} \<and> policy_ok (insert (foldedName c) N) (insert (foldedValue c) V) (set ua') p'"
proof -
  let ?n = "foldedName c" and ?v = "foldedValue c"
  define new where "new = (?n \<noteq> ''user-agent'' \<and> longValue ?v \<and> ?v \<notin> set ua)"
  define ua' where "ua' = (if new then ?v # ua else ua)"
  define p1 where "p1 = p\<lparr>mp_names := ?n # mp_names p, mp_nameLens := (mp_nameLens p)[length ?n := True]\<rparr>"
  define p2 where "p2 = (if new then p1\<lparr>mp_containInUserAgent := addPattern ?v (mp_containInUserAgent p1)\<rparr> else p1)"
  have v: "foldASCII ?v = ?v" "length ?v \<le> managedHeaderValueMaxBytes" "length ?n \<le> managedHeaderNameMaxBytes"
    using assms(2) by (auto simp: foldedValue_def foldedName_def pair_ok_def)
  have ua: "set ua' = set ua \<union> uaValues {c}" by (auto simp: ua'_def new_def uaValues_def)
  have 1: "policy_ok (insert ?n N) V (set ua) p1"
    using assms(1) lens_ok_insert [of _ N "mp_nameLens p" ?n] v(3) by (auto simp: policy_ok_def p1_def)
  have 2: "policy_ok (insert ?n N) V (set ua') p2"
    using 1 holds_add [of "set ua" "mp_containInUserAgent p1" ?v] v(1)
    by (auto simp: policy_ok_def p2_def ua'_def new_def pattern_ok_def longValue_def)
  have "addPair c (ua, p) = (ua', if ?v \<in> set (mp_values p2) then p2 else addValue (mc_Value c) ?v p2)"
    by (simp add: addPair_def Let_def ua'_def p2_def p1_def new_def foldedName_def foldedValue_def longValue_def)
  moreover have "set (mp_values p2) = V" using 2 by (simp add: policy_ok_def)
  ultimately show ?thesis
    using ua 2 policy_ok_addValue [OF 2 v(1,2)] by (auto simp: insert_absorb)
qed

lemma policy_ok_fold:
  assumes "\<forall>c \<in> set cs. pair_ok c" and "policy_ok N V (set ua) p"
  shows "case fold addPair cs (ua, p) of (ua', p') \<Rightarrow>
    set ua' = set ua \<union> uaValues (set cs) \<and>
    policy_ok (N \<union> foldedName ` set cs) (V \<union> foldedValue ` set cs) (set ua') p'"
  using assms
proof (induction cs arbitrary: N V ua p)
  case (Cons c cs)
  obtain ua1 p1 where s: "addPair c (ua, p) = (ua1, p1)" by fastforce
  with policy_ok_addPair [OF Cons.prems(2), of c] Cons.prems(1)
  have "set ua1 = set ua \<union> uaValues {c}" "policy_ok (insert (foldedName c) N) (insert (foldedValue c) V) (set ua1) p1"
    by auto
  with Cons.IH [OF _ this(2)] Cons.prems(1) show ?case
    by (auto simp: s uaValues_def)
qed (simp add: uaValues_def)

lemma policy_ok_finish: "policy_ok N V U p \<Longrightarrow> policy_ok N V U (finishPolicy unesc p)"
  by (simp add: finishPolicy_def Let_def policy_ok_def)

lemma compile_ok:
  assumes "\<forall>c \<in> set cs. pair_ok c"
  shows "policy_ok (foldedName ` set cs) (foldedValue ` set cs) (uaValues (set cs)) (compileManagedHeaderPolicy unesc cs)"
  using policy_ok_fold [OF assms, of "{}" "{}" "[]" emptyPolicy] policy_ok_empty
  by (auto simp: compileManagedHeaderPolicy_def intro!: policy_ok_finish split: prod.splits)

section \<open>The tests are exact\<close>

lemma lens_ok_test:
  "lens_ok mx A ls \<Longrightarrow> length w \<le> mx \<and> ls ! length w \<and> w \<in> A \<longleftrightarrow> w \<in> A"
  by (auto simp: lens_ok_def)

lemma equalsValue_iff:
  "policy_ok N V U p \<Longrightarrow> equalsValue p f \<longleftrightarrow> f \<noteq> [] \<and> foldASCII f \<in> V"
  using lens_ok_test [of managedHeaderValueMaxBytes V "mp_valueLens p" "foldASCII f"]
  by (auto simp: equalsValue_def policy_ok_def)

lemma managedName_iff:
  "policy_ok N V U p \<Longrightarrow> managedName p f \<longleftrightarrow> f \<noteq> [] \<and> foldASCII f \<in> N"
  using lens_ok_test [of managedHeaderNameMaxBytes N "mp_nameLens p" "foldASCII f"]
  by (auto simp: managedName_def policy_ok_def)

lemma contain_iff:
  "policy_ok N V U p \<Longrightarrow> findPattern (mp_contain p) t \<longleftrightarrow>
   (\<exists>v \<in> V. longValue v \<and> (sublist v (foldASCII t) \<or> CHR ''+'' \<in> set v \<and> sublist (spacedPlus v) (foldASCII t)))"
  using findPattern_iff [of "containPatterns V" "mp_contain p" t]
  by (auto simp: policy_ok_def containPatterns_def)

lemma containInUserAgent_iff:
  "policy_ok N V U p \<Longrightarrow> findPattern (mp_containInUserAgent p) t \<longleftrightarrow> (\<exists>v \<in> U. sublist v (foldASCII t))"
  using findPattern_iff [of U "mp_containInUserAgent p" t] by (simp add: policy_ok_def)

section \<open>What decoding uncovers\<close>

text \<open>A percent sign is never taken for a hex digit, so decoding restarts at every one.\<close>

lemma not_hex_percent [simp]: "\<not> isHex (CHR ''%'')"
  by (simp add: isHex_def is_digit_def)

lemma allHex_short: "length t < n \<Longrightarrow> \<not> allHex n (t @ CHR ''%'' # b)"
  by (auto simp: allHex_def take_Cons' list_all_iff)

lemma allHex_append: "n \<le> length t \<Longrightarrow> allHex n (t @ u) \<longleftrightarrow> allHex n t"
  by (simp add: allHex_def)

lemma allHex_percent: "allHex n (t @ CHR ''%'' # b) \<longleftrightarrow> allHex n t \<and> n \<le> length t"
  using allHex_short [of t n b] allHex_append [of n t "CHR ''%'' # b"] by (cases "n \<le> length t") auto

lemma urlDecodeUni_split:
  "urlDecodeUni (a @ CHR ''%'' # b) = urlDecodeUni a @ urlDecodeUni (CHR ''%'' # b)"
proof (induction a rule: urlDecodeUni.induct)
  case (2 x s)
  let ?b = "CHR ''%'' # b"
  show ?case
  proof (cases "x = CHR ''%''")
    case False
    with 2 show ?thesis by simp
  next
    case x: True
    show ?thesis
    proof (cases "s \<noteq> [] \<and> (hd s = CHR ''u'' \<or> hd s = CHR ''U'')")
      case u: True
      then obtain u t where s: "s = u # t" by (cases s) auto
      have "allHex 4 (t @ ?b) \<longleftrightarrow> allHex 4 t"
        using allHex_percent [of 4 t b] by (auto simp: allHex_def)
      with 2 x u s show ?thesis by (auto simp: nth_append allHex_def)
    next
      case nu: False
      have h: "allHex 2 (s @ ?b) \<longleftrightarrow> allHex 2 s"
        using allHex_percent [of 2 s b] by (auto simp: allHex_def)
      have "\<not> (s @ ?b \<noteq> [] \<and> (hd (s @ ?b) = CHR ''u'' \<or> hd (s @ ?b) = CHR ''U''))"
        using nu by (cases s) auto
      with 2 x nu h show ?thesis by (auto simp: nth_append allHex_def simp del: append_is_Nil_conv hd_append)
    qed
  qed
qed simp

text \<open>The percent encoding of every byte of a text.\<close>

definition percentByte :: "char \<Rightarrow> string" where
  "percentByte c = [CHR ''%'', hexdig (byte c div 16), hexdig (byte c mod 16)]"

definition percentEncode :: "string \<Rightarrow> string" where
  "percentEncode s = concat (map percentByte s)"

lemma byte_hexdig: "n < 16 \<Longrightarrow> byte (hexdig n) = (if n < 10 then 48 + n else 87 + n)"
  by (simp add: hexdig_def)

lemma hexdig_facts: "n < 16 \<Longrightarrow> isHex (hexdig n) \<and> hexdig n \<noteq> CHR ''u'' \<and> hexdig n \<noteq> CHR ''U''"
  using byte_hexdig [of n] by (auto simp: isHex_def is_digit_def split: if_splits)

lemma hexValue_hexdig: "n < 16 \<Longrightarrow> hexValue (hexdig n) = of_nat n"
proof -
  assume n: "n < 16"
  have "of_nat (48 + n) - 48 = (of_nat n :: u8)"
    by (simp only: of_nat_add of_nat_numeral add_diff_cancel_left')
  moreover have "of_nat (87 + n) - 97 + 10 = (of_nat n :: u8) + (87 - 97 + 10)"
    by (simp only: of_nat_add of_nat_numeral algebra_simps)
  moreover have "(87 - 97 + 10 :: u8) = 0" by simp
  ultimately show ?thesis using n by (simp add: hexValue_def byte_hexdig del: of_nat_add)
qed

lemma hexPair_digits: "byteChar (hexPair (hexdig (byte c div 16)) (hexdig (byte c mod 16))) = c"
proof -
  have d: "byte c div 16 < 16" "byte c mod 16 < 16" using byte_less_256 [of c] by linarith+
  have "\<forall>h < 16. \<forall>l < 16. push_bit 4 (of_nat h :: u8) OR of_nat l = of_nat (h * 16 + l)"
    by (simp add: All_less_Suc numeral_eq_Suc)
  then have "hexPair (hexdig (byte c div 16)) (hexdig (byte c mod 16)) = of_nat (byte c div 16 * 16 + byte c mod 16)"
    unfolding hexPair_def using d by (simp only: hexValue_hexdig)
  then have "hexPair (hexdig (byte c div 16)) (hexdig (byte c mod 16)) = (of_nat (byte c) :: u8)"
    by (simp only: div_mult_mod_eq)
  then show ?thesis by (simp add: byteChar_def unat_of_nat)
qed

lemma urlDecodeUni_percent: "urlDecodeUni (percentByte c @ b) = c # urlDecodeUni b"
proof -
  have d: "byte c div 16 < 16" "byte c mod 16 < 16" using byte_less_256 [of c] by linarith+
  show ?thesis
    using hexdig_facts [OF d(1)] hexdig_facts [OF d(2)] hexPair_digits [of c] by (simp add: percentByte_def allHex_def)
qed

lemma urlDecodeUni_encoded: "urlDecodeUni (percentEncode v @ b) = v @ urlDecodeUni b"
  by (induction v) (simp_all add: percentEncode_def urlDecodeUni_percent)

lemma urlDecodeUni_uncovers:
  "v \<noteq> [] \<Longrightarrow> urlDecodeUni (a @ percentEncode v @ b) = urlDecodeUni a @ v @ urlDecodeUni b"
proof -
  assume "v \<noteq> []"
  then obtain t where "percentEncode v @ b = CHR ''%'' # t"
    by (cases v) (auto simp: percentEncode_def percentByte_def)
  with urlDecodeUni_split [of a t] urlDecodeUni_encoded [of v b] show ?thesis by simp
qed

section \<open>What a text cannot hide\<close>

lemma carries_now: "findPattern (mp_contain p) t \<Longrightarrow> urlTextCarries unesc p t all"
  by (simp add: urlTextCarries_def carryRounds.simps [of unesc p all 3])

lemma sublist_fold: "sublist w t \<Longrightarrow> sublist (foldASCII w) (foldASCII t)"
  unfolding sublist_def by (metis foldASCII_simps(3))

lemma sublist_filter_keep: "sublist w t \<Longrightarrow> \<forall>c \<in> set w. P c \<Longrightarrow> sublist w (filter P t)"
  by (auto simp: sublist_def) (metis append_assoc filter_True filter_append)

text \<open>
  A long managed value is found in a text as it is, and under one layer of percent encoding as
  long as the text decodes without an ampersand.
\<close>

lemma long_value_found:
  assumes "policy_ok N V U p" and "foldASCII w \<in> V" and "longValue w" and "sublist w t"
  shows "findPattern (mp_contain p) t"
  unfolding contain_iff [OF assms(1)]
  using assms(2,3) sublist_fold [OF assms(4)] by (intro bexI [of _ "foldASCII w"]) (simp_all add: longValue_def)

lemma encoded_value_found:
  assumes "policy_ok N V U p" and "foldASCII w \<in> V" and "longValue w" and "chr 0 \<notin> set w"
    and "t = a @ percentEncode w @ b" and "CHR ''&'' \<notin> set (urlDecodeUni t)"
  shows "urlTextCarries unesc p t all"
proof -
  let ?d = "decodeManagedHeaderEscapes unesc t"
  have w: "w \<noteq> []" using assms(3) by (auto simp: longValue_def managedHeaderContainMinBytes_def)
  then have pct: "CHR ''%'' \<in> set t"
    using assms(5) by (cases w) (auto simp: percentEncode_def percentByte_def)
  then have any: "ContainsAny t ''%+''" "ContainsAny t [CHR ''%'', CHR ''+'', CHR ''&'', chr 0]"
    by (auto simp: ContainsAny_def list_ex_iff)
  have "sublist w (urlDecodeUni t)" unfolding assms(5) urlDecodeUni_uncovers [OF w] by (auto simp: sublist_def)
  then have "sublist w (filter (\<lambda>c. c \<noteq> chr 0) (urlDecodeUni t))"
    using assms(4) by (intro sublist_filter_keep) auto
  then have "sublist w ?d"
    using any(1) assms(6) by (simp add: decodeManagedHeaderEscapes_def Let_def)
  then have found: "findPattern (mp_contain p) ?d"
    by (rule long_value_found [OF assms(1-3)])
  show ?thesis
  proof (cases "?d = t")
    case True
    with found show ?thesis by (simp add: carries_now)
  next
    case False
    then show ?thesis
      using found any(2) carryRounds.simps [of unesc p all 2 ?d] carryRounds.simps [of unesc p all 3 t]
      by (simp add: urlTextCarries_def Let_def numeral_3_eq_3 numeral_2_eq_2)
  qed
qed

section \<open>The markers\<close>

lemma pickMarker_safe: "pickMarker carries ms = [] \<or> \<not> carries (pickMarker carries ms)"
  by (induction ms) auto

text \<open>The markers are not read by any test, so setting them changes no test.\<close>

lemma tests_ignore_markers [simp]:
  "equalsValue (p\<lparr>mp_maskedText := x\<rparr>) = equalsValue p" "equalsValue (p\<lparr>mp_maskedURLPart := x\<rparr>) = equalsValue p"
  "equalsValue (p\<lparr>mp_maskedIP := x\<rparr>) = equalsValue p"
  "managedIP (p\<lparr>mp_maskedText := x\<rparr>) = managedIP p" "managedIP (p\<lparr>mp_maskedURLPart := x\<rparr>) = managedIP p"
  "managedIP (p\<lparr>mp_maskedIP := x\<rparr>) = managedIP p"
  by (auto simp: fun_eq_iff equalsValue_def managedIP_def split: option.splits)

lemma tokens_ignore_markers [simp]:
  "tokenCarries (p\<lparr>mp_maskedText := x\<rparr>) t = tokenCarries p t"
  "tokenCarries (p\<lparr>mp_maskedURLPart := x\<rparr>) t = tokenCarries p t"
  "tokenCarries (p\<lparr>mp_maskedIP := x\<rparr>) t = tokenCarries p t"
  by (simp_all add: tokenCarries_def formCarries_def ipTokenCarries_def tokenAt_def [abs_def])

lemma rounds_ignore_markers:
  "carryRounds unesc (p\<lparr>mp_maskedURLPart := x\<rparr>) all n t = carryRounds unesc p all n t \<and>
   carryRounds unesc (p\<lparr>mp_maskedIP := y\<rparr>) all n t = carryRounds unesc p all n t"
proof (induction n arbitrary: t)
  case 0
  then show ?case by (simp add: carryRounds.simps [of _ _ _ 0])
next
  case (Suc n)
  then show ?case by (simp add: carryRounds.simps [of _ _ _ "Suc n"] Let_def)
qed

lemma carries_ignore_markers [simp]:
  "urlTextCarries unesc (p\<lparr>mp_maskedURLPart := x\<rparr>) t all = urlTextCarries unesc p t all"
  "urlTextCarries unesc (p\<lparr>mp_maskedIP := x\<rparr>) t all = urlTextCarries unesc p t all"
  by (simp_all add: urlTextCarries_def rounds_ignore_markers)

lemma marker_safe:
  assumes "p = compileManagedHeaderPolicy unesc cs"
  shows "mp_maskedURLPart p = [] \<or> \<not> urlTextCarries unesc p (mp_maskedURLPart p) True"
    and "mp_maskedText p = [] \<or> \<not> (equalsValue p (mp_maskedText p) \<or> findPattern (mp_contain p) (mp_maskedText p))"
proof -
  define q where "q = snd (fold addPair cs ([], emptyPolicy))"
  define p1 where "p1 = q\<lparr>mp_lengths := filter (\<lambda>n. mp_valueLens q ! n) [0..<managedHeaderContainMinBytes]\<rparr>"
  define mt where "mt = pickMarker (\<lambda>m. equalsValue p1 m \<or> findPattern (mp_contain p1) m)
     [managedHeaderMaskedText, ''[masked]'', ''[*]'', []]"
  define p2 where "p2 = p1\<lparr>mp_maskedText := mt\<rparr>"
  define mu where "mu = pickMarker (\<lambda>m. urlTextCarries unesc p2 m True) [managedHeaderMaskedURLPart, ''[*]'', ''-'', []]"
  have p: "p = p2\<lparr>mp_maskedURLPart := mu, mp_maskedIP := maskedIPLoop (p2\<lparr>mp_maskedURLPart := mu\<rparr>) 1 managedHeaderMaskedIP\<rparr>"
    unfolding assms compileManagedHeaderPolicy_def finishPolicy_def Let_def
      mu_def p2_def mt_def p1_def q_def ..
  show "mp_maskedURLPart p = [] \<or> \<not> urlTextCarries unesc p (mp_maskedURLPart p) True"
    using pickMarker_safe [of "\<lambda>m. urlTextCarries unesc p2 m True"] by (simp add: p mu_def del: pickMarker.simps)
  show "mp_maskedText p = [] \<or> \<not> (equalsValue p (mp_maskedText p) \<or> findPattern (mp_contain p) (mp_maskedText p))"
    using pickMarker_safe [of "\<lambda>m. equalsValue p1 m \<or> findPattern (mp_contain p1) m"]
    by (simp add: p p2_def mt_def del: pickMarker.simps)
qed

lemma maskedIPLoop_free:
  "\<not> managedIP p (maskedIPLoop p n ip) \<or> (managedIP p ip \<and> (\<forall>k. n \<le> k \<and> k \<le> 0xffff \<longrightarrow> managedIP p (''100::'' @ hexText k)))"
proof (induction p n ip rule: maskedIPLoop.induct)
  case (1 p n ip)
  show ?case
  proof (cases "managedIP p ip \<and> n \<le> 0xffff")
    case True
    then have step: "maskedIPLoop p n ip = maskedIPLoop p (Suc n) (''100::'' @ hexText n)"
      by (simp add: maskedIPLoop.simps [of p n])
    show ?thesis using 1 [OF True] True unfolding step by (metis le_antisym not_less_eq_eq)
  next
    case False
    then show ?thesis by (auto simp: maskedIPLoop.simps [of p n])
  qed
qed

end
