(* ===== verification/Request_Dimensions.thy ===== *)
theory Request_Dimensions
  imports Http_Request Netip Hashing
begin

text \<open>
  The labels a request is counted under (l7\_dimensions.go, request\_event\_dimensions.go and the
  helpers of handler.go): the path bucket, the HTTP version, the status bucket, the client
  addresses, the fronting proxy, and the byte counts.  \<open>strings.ToLower\<close> on text that is not
  ASCII is the parameter \<open>uni\<close>.
\<close>

section \<open>Package net\<close>

text \<open>The host of \<open>net.SplitHostPort\<close>, or \<open>None\<close> where it returns an error.\<close>

definition SplitHostPort :: "string \<Rightarrow> string option" where
  "SplitHostPort hostport =
     (case LastIndexByte hostport (CHR '':'') of
        None \<Rightarrow> None
      | Some i \<Rightarrow>
          if hd hostport = CHR ''['' then
            (case indexByte hostport (CHR '']'') of
               None \<Rightarrow> None
             | Some e \<Rightarrow>
                 if e + 1 = length hostport \<or> e + 1 \<noteq> i then None
                 else if CHR ''['' \<in> set (drop 1 hostport) \<or> CHR '']'' \<in> set (drop (e + 1) hostport) then None
                 else Some (drop 1 (take e hostport)))
          else if CHR '':'' \<in> set (take i hostport) then None
          else if CHR ''['' \<in> set hostport \<or> CHR '']'' \<in> set hostport then None
          else Some (take i hostport))"

text \<open>\<open>net.ParseIP\<close> followed by \<open>IP.String\<close>: no zone, and a mapped address prints as IPv4.\<close>

definition addrZone :: "addr \<Rightarrow> string" where
  "addrZone a = (case a of V4 _ \<Rightarrow> [] | V6 _ zone \<Rightarrow> zone)"

definition ParseIP :: "string \<Rightarrow> addr option" where
  "ParseIP s = (case ParseAddr s of
                  None \<Rightarrow> None
                | Some a \<Rightarrow> if addrZone a \<noteq> [] then None else Some (Unmap a))"

section \<open>The path bucket\<close>

definition L7PathBucketMaxBytes :: nat where "L7PathBucketMaxBytes = 128"

definition isAllDigits :: "string \<Rightarrow> bool" where
  "isAllDigits s = (s \<noteq> [] \<and> list_all is_digit s)"

definition isHexLower :: "char \<Rightarrow> bool" where
  "isHexLower c = (is_digit c \<or> (97 \<le> byte c \<and> byte c \<le> 102))"

definition isUUID :: "string \<Rightarrow> bool" where
  "isUUID s =
     (length s = 36 \<and>
      list_all (\<lambda>i. if i \<in> {8, 13, 18, 23} then s ! i = CHR ''-'' else isHexLower (s ! i)) [0..<length s])"

fun slugCount :: "nat \<times> nat \<Rightarrow> string \<Rightarrow> nat \<times> nat" where
  "slugCount (letters, digits) [] = (letters, digits)"
| "slugCount (letters, digits) (c # s) =
     slugCount (if is_digit c then (letters, digits + 1)
                else if is_lower c \<or> is_upper c then (letters + 1, digits)
                else (letters, digits)) s"

definition isSlugID :: "string \<Rightarrow> bool" where
  "isSlugID s =
     (if length s < 8 then False
      else case slugCount (0, 0) s of (letters, digits) \<Rightarrow> letters \<ge> 1 \<and> digits \<ge> 3)"

definition hasDigitAdjacentToDotOrDash :: "string \<Rightarrow> bool" where
  "hasDigitAdjacentToDotOrDash s =
     list_ex (\<lambda>i. (s ! i = CHR ''.'' \<or> s ! i = CHR ''-'')
                  \<and> (i > 0 \<and> is_digit (s ! (i - 1)) \<or> i + 1 < length s \<and> is_digit (s ! (i + 1))))
             [0..<length s]"

definition isDynamicSegment :: "string \<Rightarrow> bool" where
  "isDynamicSegment seg =
     (if length seg > 64 then True
      else if isAllDigits seg then True
      else if isUUID seg then True
      else if isSlugID seg then True
      else hasDigitAdjacentToDotOrDash seg)"

definition cutAt :: "char \<Rightarrow> string \<Rightarrow> string" where
  "cutAt c p = (case indexByte p c of Some i \<Rightarrow> take i p | None \<Rightarrow> p)"

definition stripQuery :: "string \<Rightarrow> string" where
  "stripQuery p = cutAt (CHR ''#'') (cutAt (CHR ''?'') p)"

text \<open>The loop over the segments, with the segments kept so far.\<close>

fun keepSegments :: "string list \<Rightarrow> string list \<Rightarrow> string list" where
  "keepSegments kept [] = kept"
| "keepSegments kept (seg # segs) =
     (if seg = [] then keepSegments kept segs
      else let kept' = kept @ [if isDynamicSegment seg then ''*'' else seg]
           in if length kept' = 3 then kept' else keepSegments kept' segs)"

definition pathBucket :: "(string \<Rightarrow> string) \<Rightarrow> string \<Rightarrow> string" where
  "pathBucket uni rawPath =
     (let p = ToLower uni (stripQuery rawPath);
          kept = keepSegments [] (splitOn (CHR ''/'') p)
      in truncateBytes (CHR ''/'' # joinWith (CHR ''/'') kept) L7PathBucketMaxBytes)"

section \<open>Version and status\<close>

definition httpVersionOrUnknown :: "httpRequest \<Rightarrow> string" where
  "httpVersionOrUnknown r =
     (if rq_ProtoMajor r = 2 then ''2''
      else if rq_ProtoMajor r = 3 then ''3''
      else if rq_ProtoMajor r = 1 \<and> rq_ProtoMinor r = 1 then ''1.1''
      else ''other'')"

definition statusBucket :: "u16 \<Rightarrow> u8" where
  "statusBucket code = (let d = code div 100 in if d \<ge> 1 \<and> d \<le> 5 then ucast d else 0)"

definition methodOrUnknown :: "string \<Rightarrow> string" where
  "methodOrUnknown m =
     (if m \<in> {''GET'', ''POST'', ''PUT'', ''PATCH'', ''DELETE'', ''HEAD'', ''OPTIONS'', ''CONNECT'', ''TRACE''}
      then m else ''OTHER'')"

section \<open>Client addresses\<close>

definition securityClientIP :: "httpRequest \<Rightarrow> string" where
  "securityClientIP r =
     (let host = (case SplitHostPort (rq_RemoteAddr r) of None \<Rightarrow> rq_RemoteAddr r | Some h \<Rightarrow> h)
      in case ParseIP host of Some ip \<Rightarrow> addrString ip | None \<Rightarrow> trimSpace host)"

text \<open>The rightmost entry of \<open>X-Forwarded-For\<close>.\<close>

definition lastForwarded :: "string \<Rightarrow> string" where
  "lastForwarded xff =
     (case lastIndexByte xff (CHR '','') of
        Some i \<Rightarrow> trimSpace (drop (i + 1) xff)
      | None \<Rightarrow> trimSpace xff)"

definition forwardedIP :: "httpRequest \<Rightarrow> string" where
  "forwardedIP r =
     (let cf = trimSpace (headerGet (rq_Header r) ''Cf-Connecting-Ip'');
          xff = headerGet (rq_Header r) ''X-Forwarded-For''
      in case (if cf \<noteq> [] then ParseIP cf else None) of
           Some ip \<Rightarrow> addrString ip
         | None \<Rightarrow>
             (case (if xff \<noteq> [] then ParseIP (lastForwarded xff) else None) of
                Some ip \<Rightarrow> addrString ip
              | None \<Rightarrow> ''::''))"

definition frontProxy :: "httpRequest \<Rightarrow> string" where
  "frontProxy r =
     (if headerGet (rq_Header r) ''Cf-Connecting-Ip'' \<noteq> [] \<or> headerGet (rq_Header r) ''Cf-Ray'' \<noteq> []
      then ''cloudflare''
      else if headerGet (rq_Header r) ''X-Forwarded-For'' \<noteq> [] \<or> headerGet (rq_Header r) ''X-Real-Ip'' \<noteq> []
      then ''forwarded'' else [])"

definition clientIP :: "httpRequest \<Rightarrow> string" where
  "clientIP r =
     (let xff = headerGet (rq_Header r) ''X-Forwarded-For''
      in if xff \<noteq> [] then lastForwarded xff else rq_RemoteAddr r)"

definition challengeVhostMaxBytes :: nat where "challengeVhostMaxBytes = 255"

definition challengeVhost :: "(string \<Rightarrow> string) \<Rightarrow> httpRequest \<Rightarrow> string" where
  "challengeVhost uni r =
     (let host = (case SplitHostPort (rq_Host r) of Some h \<Rightarrow> h | None \<Rightarrow> rq_Host r)
      in truncateBytes (ToLower uni host) challengeVhostMaxBytes)"

section \<open>Capped text\<close>

definition requestEventPathMaxBytes :: nat where "requestEventPathMaxBytes = 1024"

definition capPath :: "string \<Rightarrow> string" where
  "capPath p = ownedTruncate (stripQuery p) requestEventPathMaxBytes"

definition capUA :: "string \<Rightarrow> string" where
  "capUA ua = truncateBytes ua 512"

section \<open>Country and network\<close>

text \<open>Reading a byte at a time, upper-casing, and refusing anything but a letter.\<close>

definition upper_byte :: "char \<Rightarrow> char" where
  "upper_byte c = (if is_lower c then chr (byte c - 32) else c)"

definition normalizeCountry :: "string \<Rightarrow> string" where
  "normalizeCountry s =
     (if length s \<noteq> 2 then []
      else if list_all (\<lambda>c. is_lower c \<or> is_upper c) s then map upper_byte s
      else [])"

section \<open>Message sizes\<close>

definition headerBytes :: "header \<Rightarrow> u64" where
  "headerBytes h =
     sum_list (concat (map (\<lambda>(name, vals).
       map (\<lambda>v. of_nat (length name) + 2 + of_nat (length v) + 2) vals) h))"

definition requestBytes :: "httpRequest \<Rightarrow> u64" where
  "requestBytes r =
     of_nat (length (rq_Method r)) + 1 + of_nat (length (rq_RequestURI r)) + 1
     + of_nat (length (rq_Proto r)) + 2 + headerBytes (rq_Header r) + 2
     + (if rq_ContentLength r > 0 then of_int (rq_ContentLength r) else 0)"

section \<open>Laws of the path bucket\<close>

text \<open>A kept segment is text without a slash that no longer looks like an identifier.\<close>

definition staticSegment :: "string \<Rightarrow> bool" where
  "staticSegment seg = (seg \<noteq> [] \<and> CHR ''/'' \<notin> set seg \<and> \<not> isDynamicSegment seg)"

lemma star_static [simp]: "staticSegment ''*''"
  by code_simp

lemma keepSegments_static:
  "list_all staticSegment kept \<Longrightarrow> \<forall>s \<in> set segs. CHR ''/'' \<notin> set s \<Longrightarrow>
   list_all staticSegment (keepSegments kept segs)"
proof (induction kept segs rule: keepSegments.induct)
  case (2 kept seg segs)
  let ?k = "if isDynamicSegment seg then ''*'' else seg"
  have "seg \<noteq> [] \<Longrightarrow> list_all staticSegment (kept @ [?k])"
    using 2 by (auto simp: staticSegment_def [of seg])
  with 2 show ?case by (simp add: Let_def)
qed simp

lemma keepSegments_length: "length kept < 3 \<Longrightarrow> length (keepSegments kept segs) \<le> 3"
  by (induction kept segs rule: keepSegments.induct) (auto simp: Let_def)

lemma keepSegments_bytes:
  "\<forall>s \<in> set kept. set s \<subseteq> A \<Longrightarrow> \<forall>s \<in> set segs. set s \<subseteq> A \<Longrightarrow> CHR ''*'' \<in> A \<Longrightarrow>
   \<forall>s \<in> set (keepSegments kept segs). set s \<subseteq> A"
  by (induction kept segs rule: keepSegments.induct) (auto simp: Let_def)

lemma keepSegments_fixed:
  "list_all staticSegment segs \<Longrightarrow> length kept + length segs \<le> 3 \<Longrightarrow> length kept < 3 \<Longrightarrow>
   keepSegments kept segs = kept @ segs"
proof (induction segs arbitrary: kept)
  case (Cons seg segs)
  then show ?case
  proof (cases "length kept = 2")
    case True
    with Cons have "segs = []" by simp
    with Cons True show ?thesis by (simp add: staticSegment_def Let_def)
  next
    case False
    with Cons show ?thesis by (simp add: staticSegment_def Let_def)
  qed
qed simp

lemma cutAt_eq: "cutAt c p = takeWhile (\<lambda>x. x \<noteq> c) p"
proof (induction p)
  case (Cons a p)
  then show ?case by (cases "indexByte p c") (simp_all add: cutAt_def del: indexByte_None)
qed (simp add: cutAt_def)

lemma stripQuery_prefix: "prefix (stripQuery p) p"
  unfolding stripQuery_def cutAt_eq by (meson prefix_order.trans takeWhile_is_prefix)

lemma stripQuery_clean: "CHR ''?'' \<notin> set (stripQuery p) \<and> CHR ''#'' \<notin> set (stripQuery p)"
  by (auto simp: stripQuery_def cutAt_eq dest: set_takeWhileD)

lemma stripQuery_id: "CHR ''?'' \<notin> set p \<Longrightarrow> CHR ''#'' \<notin> set p \<Longrightarrow> stripQuery p = p"
proof -
  assume "CHR ''?'' \<notin> set p" "CHR ''#'' \<notin> set p"
  then have "cutAt (CHR ''?'') p = p" "cutAt (CHR ''#'') p = p"
    by (auto simp: cutAt_eq takeWhile_eq_all_conv)
  then show ?thesis by (simp add: stripQuery_def)
qed

lemma splitOn_subset: "x \<in> set (splitOn c s) \<Longrightarrow> set x \<subseteq> set s"
proof (induction s arbitrary: x)
  case (Cons a s)
  obtain y ys where sp: "splitOn c s = y # ys" by (cases "splitOn c s") auto
  have "set y \<subseteq> set s" "\<And>z. z \<in> set ys \<Longrightarrow> set z \<subseteq> set s" using Cons.IH sp by auto
  with Cons.prems sp show ?case by (auto split: if_splits)
qed simp

text \<open>The segments behind a bucket, before it is cut to its length.\<close>

definition bucketSegments :: "(string \<Rightarrow> string) \<Rightarrow> string \<Rightarrow> string list" where
  "bucketSegments uni p = keepSegments [] (splitOn (CHR ''/'') (ToLower uni (stripQuery p)))"

lemma pathBucket_eq:
  "pathBucket uni p =
     truncateBytes (CHR ''/'' # joinWith (CHR ''/'') (bucketSegments uni p)) L7PathBucketMaxBytes"
  by (simp add: pathBucket_def bucketSegments_def)

lemma bucketSegments_static:
  "list_all staticSegment (bucketSegments uni p) \<and> length (bucketSegments uni p) \<le> 3"
  unfolding bucketSegments_def
  by (intro conjI keepSegments_static keepSegments_length ballI splitOn_parts) simp_all

lemma pathBucket_length: "length (pathBucket uni p) \<le> 128"
  using truncateBytes_length [of _ L7PathBucketMaxBytes]
  by (simp add: pathBucket_eq L7PathBucketMaxBytes_def)

lemma count_joinWith:
  "\<forall>s \<in> set xs. c \<notin> set s \<Longrightarrow> length (filter (\<lambda>x. x = c) (joinWith c xs)) = length xs - 1"
  by (induction c xs rule: joinWith.induct) (auto simp: filter_empty_conv)

lemma prefix_filter_length: "prefix xs ys \<Longrightarrow> length (filter P xs) \<le> length (filter P ys)"
  by (auto simp: prefix_def)

lemma static_no_slash: "list_all staticSegment xs \<Longrightarrow> s \<in> set xs \<Longrightarrow> CHR ''/'' \<notin> set s"
  by (auto simp: list_all_iff staticSegment_def)

lemma pathBucket_slashes: "length (filter (\<lambda>c. c = CHR ''/'') (pathBucket uni p)) \<le> 3"
proof -
  let ?b = "bucketSegments uni p"
  have "\<forall>s \<in> set ?b. CHR ''/'' \<notin> set s"
    using bucketSegments_static static_no_slash by blast
  then have "length (filter (\<lambda>c. c = CHR ''/'') (CHR ''/'' # joinWith (CHR ''/'') ?b))
    = Suc (length ?b - 1)"
    using count_joinWith [of ?b "CHR ''/''"] by simp
  also have "\<dots> \<le> 3" using bucketSegments_static [of uni p] by linarith
  finally show ?thesis
    unfolding pathBucket_eq by (rule le_trans [OF prefix_filter_length [OF truncateBytes_prefix]])
qed

text \<open>On ASCII text the label of a label is the label itself, unless the length cut it.\<close>

lemma lower_byte_not:
  "lower_byte c = d \<Longrightarrow> \<not> is_lower d \<Longrightarrow> c = d"
  by (auto simp: lower_byte_def is_lower_def is_upper_def split: if_splits)

lemma bucket_bytes:
  assumes "isASCII p" and "s \<in> set (bucketSegments uni p)"
  shows "set s \<subseteq> {c. byte c < 128 \<and> lower_byte c = c \<and> c \<noteq> CHR ''?'' \<and> c \<noteq> CHR ''#''}" (is "_ \<subseteq> ?A")
proof -
  have sub: "set (stripQuery p) \<subseteq> set p" using stripQuery_prefix set_mono_prefix by blast
  with assms(1) have asc: "isASCII (stripQuery p)" by (auto simp: isASCII_def list_all_iff)
  have "set (map lower_byte (stripQuery p)) \<subseteq> ?A"
  proof
    fix c
    assume "c \<in> set (map lower_byte (stripQuery p))"
    then obtain d where d: "d \<in> set (stripQuery p)" "c = lower_byte d" by auto
    have "d \<noteq> CHR ''?''" "d \<noteq> CHR ''#''" using d(1) stripQuery_clean by blast+
    then have "c \<noteq> CHR ''?''" "c \<noteq> CHR ''#''"
      using d(2) lower_byte_not [of d "CHR ''?''"] lower_byte_not [of d "CHR ''#''"]
      by (auto simp: is_lower_def)
    moreover have "byte c < 128"
      using asc d by (auto simp: isASCII_def list_all_iff byte_lower_byte)
    ultimately show "c \<in> ?A" using d(2) by simp
  qed
  then have "\<forall>x \<in> set (splitOn (CHR ''/'') (map lower_byte (stripQuery p))). set x \<subseteq> ?A"
    using splitOn_subset by blast
  moreover have "CHR ''*'' \<in> ?A" by (simp add: lower_byte_def is_upper_def)
  ultimately have "\<forall>x \<in> set (keepSegments [] (splitOn (CHR ''/'') (map lower_byte (stripQuery p)))). set x \<subseteq> ?A"
    by (intro keepSegments_bytes) simp_all
  with assms(2) asc show ?thesis by (auto simp: bucketSegments_def ToLower_def)
qed

lemma bucketSegments_idem:
  assumes "isASCII p"
  shows "bucketSegments uni (CHR ''/'' # joinWith (CHR ''/'') (bucketSegments uni p)) = bucketSegments uni p"
proof -
  let ?b = "bucketSegments uni p" and ?t = "CHR ''/'' # joinWith (CHR ''/'') (bucketSegments uni p)"
  let ?A = "{c. byte c < 128 \<and> lower_byte c = c \<and> c \<noteq> CHR ''?'' \<and> c \<noteq> CHR ''#''}"
  have "set (joinWith (CHR ''/'') ?b) \<subseteq> insert (CHR ''/'') ?A"
    using set_joinWith [of "CHR ''/''" ?b] bucket_bytes [OF assms, of _ uni] by blast
  moreover have "CHR ''/'' \<in> ?A" by (simp add: lower_byte_def is_upper_def)
  ultimately have "set ?t \<subseteq> ?A" by auto
  then have 1: "stripQuery ?t = ?t" by (intro stripQuery_id) auto
  have 2: "ToLower uni ?t = ?t"
    using \<open>set ?t \<subseteq> ?A\<close> by (auto simp: ToLower_def isASCII_def list_all_iff intro!: map_idI)
  have 3: "splitOn (CHR ''/'') ?t = [] # (if ?b = [] then [[]] else ?b)"
    using split_join [of ?b "CHR ''/''"] bucketSegments_static [of uni p] static_no_slash by auto
  have "keepSegments [] ([] # (if ?b = [] then [[]] else ?b)) = ?b"
    using keepSegments_fixed [of ?b "[]"] bucketSegments_static [of uni p] by auto
  then show ?thesis unfolding bucketSegments_def [of uni ?t] 1 2 3 .
qed

end
