(* ===== verification/Managed_Redact.thy ===== *)
theory Managed_Redact
  imports Managed_Props Request_Dimensions
begin

text \<open>
  Redaction of URLs and telemetry text (managed\_header\_privacy.go): the scan window, the path,
  the query and the whole target, the privacy state of a request, and the identity and path that
  request telemetry records.
\<close>

section \<open>Scan windows\<close>

definition managedURLScanBytes :: "string \<Rightarrow> nat \<Rightarrow> string" where
  "managedURLScanBytes text limit =
     (let n = limit + 6 * managedHeaderValueMaxBytes in if length text > n then take n text else text)"

text \<open>\<open>strings.LastIndexByte (s, c) + 1\<close>.\<close>

definition afterLast :: "string \<Rightarrow> char \<Rightarrow> nat" where
  "afterLast s c = (case LastIndexByte s c of None \<Rightarrow> 0 | Some i \<Rightarrow> i + 1)"

definition urlScanWindow :: "managedHeaderPolicy \<Rightarrow> string \<Rightarrow> nat \<Rightarrow> bool \<Rightarrow> string" where
  "urlScanWindow p text limit target =
     (let window = managedURLScanBytes text limit
      in if length window = length text then window
         else
           let start = (case indexByte window (CHR ''?'') of
                          Some q \<Rightarrow> if target then max (q + 1) (afterLast window (CHR ''&''))
                                     else afterLast window (CHR ''/'')
                        | None \<Rightarrow> afterLast window (CHR ''/''))
           in if start < limit \<and> ContainsAny (drop start window) ''%&''
              then take start window @ mp_maskedURLPart p else window)"

section \<open>Paths and queries\<close>

definition maskParts :: "(string \<Rightarrow> string) \<Rightarrow> managedHeaderPolicy \<Rightarrow> bool \<Rightarrow> string list \<Rightarrow> string list" where
  "maskParts unesc p all parts =
     map (\<lambda>s. if s \<noteq> [] \<and> urlTextCarries unesc p s all then mp_maskedURLPart p else s) parts"

definition redactURLPath :: "(string \<Rightarrow> string) \<Rightarrow> managedHeaderPolicy \<Rightarrow> string \<Rightarrow> bool \<Rightarrow> string" where
  "redactURLPath unesc p path all =
     (if \<not> urlTextCarries unesc p path all then path
      else let out = joinWith (CHR ''/'') (maskParts unesc p all (splitOn (CHR ''/'') path))
           in if \<not> urlTextCarries unesc p out all then out else CHR ''/'' # mp_maskedURLPart p)"

definition redactURLParams :: "(string \<Rightarrow> string) \<Rightarrow> managedHeaderPolicy \<Rightarrow> string \<Rightarrow> bool \<Rightarrow> string" where
  "redactURLParams unesc p query all =
     (if query = [] \<or> \<not> urlTextCarries unesc p query all then query
      else let out = joinWith (CHR ''&'') (maskParts unesc p all (splitOn (CHR ''&'') query))
           in if \<not> urlTextCarries unesc p out all then out else mp_maskedURLPart p)"

definition redactURLQuery :: "(string \<Rightarrow> string) \<Rightarrow> managedHeaderPolicy \<Rightarrow> string \<Rightarrow> bool \<Rightarrow> string" where
  "redactURLQuery unesc p query all =
     (if query = [] then [] else if all then mp_maskedURLPart p else redactURLParams unesc p query False)"

text \<open>The last step of \<open>redactURLTarget\<close>: a value with a question mark split over path and query.\<close>

definition redactSplitValue ::
    "(string \<Rightarrow> string) \<Rightarrow> managedHeaderPolicy \<Rightarrow> string \<Rightarrow> string \<Rightarrow> string \<Rightarrow> bool \<Rightarrow> string \<times> string" where
  "redactSplitValue unesc p path query redacted all =
     (let segment = drop (afterLast path (CHR ''/'')) path;
          (first, rest, hasRest) = cutOn (CHR ''&'') query;
          everything = (CHR ''/'' # mp_maskedURLPart p, mp_maskedURLPart p)
      in if urlTextCarries unesc p segment all \<or> urlTextCarries unesc p first all
            \<or> \<not> urlTextCarries unesc p (segment @ ''?'' @ first) all
         then everything
         else
           let path' = take (afterLast redacted (CHR ''/'')) redacted @ mp_maskedURLPart p;
               out = (if \<not> all \<and> hasRest then mp_maskedURLPart p @ ''&'' @ redactURLParams unesc p rest False
                      else mp_maskedURLPart p)
           in if urlTextCarries unesc p (path' @ ''?'' @ out) all then everything else (path', out))"

definition redactURLTarget ::
    "(string \<Rightarrow> string) \<Rightarrow> managedHeaderPolicy \<Rightarrow> string \<Rightarrow> string \<Rightarrow> bool \<Rightarrow> bool \<Rightarrow> string \<times> string" where
  "redactURLTarget unesc p path query hasQuery all =
     (let redacted = redactURLPath unesc p path all
      in if \<not> hasQuery then (redacted, [])
         else
           let out = redactURLQuery unesc p query all
           in if \<not> mp_question p then (redacted, out)
              else
                let params = (if all then redactURLParams unesc p query True else out)
                in if \<not> urlTextCarries unesc p (redacted @ ''?'' @ params) all then (redacted, out)
                   else redactSplitValue unesc p path query redacted all)"

definition redactURI :: "(string \<Rightarrow> string) \<Rightarrow> managedHeaderPolicy \<Rightarrow> string \<Rightarrow> bool \<Rightarrow> string" where
  "redactURI unesc p uri all =
     (case cutOn (CHR ''?'') uri of (path, query, hasQuery) \<Rightarrow>
        case redactURLTarget unesc p path query hasQuery all of (path', query') \<Rightarrow>
          if \<not> hasQuery then path' else path' @ ''?'' @ query')"

section \<open>The privacy state of a request\<close>

record managedHeaderState =
  ms_policy :: "managedHeaderPolicy option"
  ms_masked :: bool

definition observeHeaders :: "(string \<Rightarrow> string) \<Rightarrow> header \<Rightarrow> managedHeaderState \<Rightarrow> managedHeaderState" where
  "observeHeaders unesc headers s =
     (case ms_policy s of
        None \<Rightarrow> s
      | Some p \<Rightarrow> if ms_masked s then s
                  else if headersCarry unesc p headers then s\<lparr>ms_masked := True\<rparr> else s)"

definition newManagedHeaderState ::
    "(string \<Rightarrow> string) \<Rightarrow> managedHeaderPolicy \<Rightarrow> header \<Rightarrow> managedHeaderState" where
  "newManagedHeaderState unesc p headers = observeHeaders unesc headers \<lparr>ms_policy = Some p, ms_masked = False\<rparr>"

definition redactText :: "(string \<Rightarrow> string) \<Rightarrow> managedHeaderState \<Rightarrow> string \<Rightarrow> string" where
  "redactText unesc s text =
     (if text = [] \<or> ms_masked s then []
      else case ms_policy s of
             None \<Rightarrow> []
           | Some p \<Rightarrow> if urlTextCarries unesc p text False then [] else text)"

definition failClosedManagedHeaderState :: managedHeaderState where
  "failClosedManagedHeaderState = \<lparr>ms_policy = None, ms_masked = True\<rparr>"

section \<open>What telemetry records of a request\<close>

record requestTelemetryIdentity =
  ti_userAgent :: string
  ti_forwardedIP :: string
  ti_hashIP :: string

definition telemetryIdentity ::
    "(string \<Rightarrow> string) \<Rightarrow> managedHeaderState option \<Rightarrow> httpRequest \<Rightarrow> requestTelemetryIdentity" where
  "telemetryIdentity unesc state r =
     (let ua = headerGet (rq_Header r) ''User-Agent'';
          i = \<lparr>ti_userAgent = ua, ti_forwardedIP = forwardedIP r, ti_hashIP = clientIP r\<rparr>
      in case Option.bind state ms_policy of
           None \<Rightarrow> i
         | Some p \<Rightarrow>
             \<lparr>ti_userAgent = (if ua \<noteq> [] \<and> (fieldCarries unesc p ua \<or> findPattern (mp_containInUserAgent p) ua)
                              then mp_maskedText p else ua),
              ti_forwardedIP = (if forwardedIP r \<noteq> ''::'' \<and> managedIP p (forwardedIP r)
                                then mp_maskedIP p else forwardedIP r),
              ti_hashIP = (if headerGet (rq_Header r) ''X-Forwarded-For'' \<noteq> [] \<and> fieldCarries unesc p (clientIP r)
                           then rq_RemoteAddr r else clientIP r)\<rparr>)"

text \<open>The text of the path that is scanned: the window, or the cut with its last segment masked.\<close>

definition pathWindow :: "managedHeaderPolicy \<Rightarrow> string \<Rightarrow> string" where
  "pathWindow p path =
     (let window = urlScanWindow p path requestEventPathMaxBytes False;
          cut = managedURLScanBytes path requestEventPathMaxBytes;
          start = afterLast cut (CHR ''/'')
      in if length cut < length path \<and> path ! length cut \<noteq> CHR ''/'' \<and> start \<ge> requestEventPathMaxBytes
         then take start cut @ mp_maskedURLPart p else window)"

definition telemetryPath :: "(string \<Rightarrow> string) \<Rightarrow> managedHeaderState option \<Rightarrow> httpRequest \<Rightarrow> string" where
  "telemetryPath unesc state r =
     (let path = rq_Path r
      in case (if path = [] then None else state) of
           None \<Rightarrow> path
         | Some st \<Rightarrow>
             (case ms_policy st of
                None \<Rightarrow> path
              | Some p \<Rightarrow>
                  let cut = managedURLScanBytes path requestEventPathMaxBytes;
                      hasQuery = (mp_question p \<and> length cut = length path \<and> (rq_RawQuery r \<noteq> [] \<or> rq_ForceQuery r))
                  in fst (redactURLTarget unesc p (pathWindow p path) (managedURLScanBytes (rq_RawQuery r) 0)
                            hasQuery (ms_masked st))))"

section \<open>What redaction leaves\<close>

text \<open>Every result is a text in which nothing is found, or the fallback marker.\<close>

lemma redactURLPath_clean:
  "\<not> urlTextCarries unesc p (redactURLPath unesc p path all) all
   \<or> redactURLPath unesc p path all = CHR ''/'' # mp_maskedURLPart p"
  by (simp add: redactURLPath_def Let_def)

lemma redactURLParams_clean:
  "redactURLParams unesc p query all = [] \<or> \<not> urlTextCarries unesc p (redactURLParams unesc p query all) all
   \<or> redactURLParams unesc p query all = mp_maskedURLPart p"
  by (simp add: redactURLParams_def Let_def)

lemma redactURLPath_id: "\<not> urlTextCarries unesc p path all \<Longrightarrow> redactURLPath unesc p path all = path"
  by (simp add: redactURLPath_def)

lemma redactURLTarget_path:
  assumes "redactURLTarget unesc p path query hasQuery all = (path', query')"
  shows "path' = redactURLPath unesc p path all
    \<or> path' = CHR ''/'' # mp_maskedURLPart p
    \<or> \<not> urlTextCarries unesc p (path' @ ''?'' @ query') all"
  using assms
  by (auto simp: redactURLTarget_def redactSplitValue_def Let_def split: if_splits prod.splits)

lemma redactURLTarget_untouched:
  assumes "\<not> urlTextCarries unesc p path all"
    and "hasQuery \<longrightarrow> \<not> urlTextCarries unesc p query all \<and> \<not> all \<and> \<not> urlTextCarries unesc p (path @ ''?'' @ query) all"
  shows "redactURLTarget unesc p path query hasQuery all = (path, if hasQuery then query else [])"
  using assms
  by (auto simp: redactURLTarget_def redactURLPath_id redactURLQuery_def redactURLParams_def Let_def)

text \<open>Masking only grows, and the policy of the first capture stays.\<close>

lemma observe_monotone:
  "ms_policy (observeHeaders unesc h s) = ms_policy s \<and> (ms_masked s \<longrightarrow> ms_masked (observeHeaders unesc h s))"
  by (simp add: observeHeaders_def split: option.splits)

lemma redactText_or_empty: "redactText unesc s text \<in> {[], text}"
  by (auto simp: redactText_def split: option.splits)

lemma redactText_keeps:
  "redactText unesc s text \<noteq> [] \<longleftrightarrow>
   text \<noteq> [] \<and> \<not> ms_masked s \<and> (\<exists>p. ms_policy s = Some p \<and> \<not> urlTextCarries unesc p text False)"
  by (auto simp: redactText_def split: option.splits)

end
