(* ===== verification/Defense_Handler.thy ===== *)
theory Defense_Handler
  imports Defense_Props Managed_Redact
begin

text \<open>
  The defense-evidence handler (defense\_evidence.go): the request's holder, the removal of
  client-supplied control markers, the stamping of the captured evidence before the WAF, and the
  reading of it after.  The holder's lock makes each of its operations one step.
\<close>

section \<open>The holder\<close>

record defenseSnapshotHolder =
  hd_snapshot :: "defenseSnapshot option"
  hd_privacy :: "managedHeaderState option"

definition newHolder :: defenseSnapshotHolder where
  "newHolder = \<lparr>hd_snapshot = None, hd_privacy = None\<rparr>"

text \<open>The error of a second capture is \<open>False\<close>.\<close>

definition publishOwned :: "defenseSnapshot \<Rightarrow> defenseSnapshotHolder \<Rightarrow> bool \<times> defenseSnapshotHolder" where
  "publishOwned s h =
     (if hd_snapshot h \<noteq> None then (False, h) else (True, h\<lparr>hd_snapshot := Some s\<rparr>))"

definition sharedSnapshot :: "defenseSnapshotHolder option \<Rightarrow> defenseSnapshot option" where
  "sharedSnapshot ho = Option.bind ho hd_snapshot"

definition capturePrivacy ::
    "(string \<Rightarrow> string) \<Rightarrow> managedHeaderPolicy \<Rightarrow> header \<Rightarrow> defenseSnapshotHolder \<Rightarrow> defenseSnapshotHolder" where
  "capturePrivacy unesc p headers h =
     (case hd_privacy h of
        None \<Rightarrow> h\<lparr>hd_privacy := Some (newManagedHeaderState unesc p headers)\<rparr>
      | Some s \<Rightarrow> h\<lparr>hd_privacy := Some (observeHeaders unesc headers s)\<rparr>)"

section \<open>Control markers\<close>

definition defenseEvidenceHeader :: string where "defenseEvidenceHeader = ''X-Apx-Defense-Evidence''"

definition defenseObserveHeader :: string where "defenseObserveHeader = ''X-Apx-Coraza-Observe''"

definition isDefenseMarker :: "string \<Rightarrow> bool" where
  "isDefenseMarker name =
     (let pfx = ''x-apx-''; skip = ''coraza-skip-'' in
      if length name < length pfx \<or> \<not> equalFold (take (length pfx) name) pfx then False
      else
        let rest = drop (length pfx) name
        in equalFold rest ''l7-header-exempt'' \<or> equalFold rest ''defense-evidence''
           \<or> equalFold rest ''coraza-observe''
           \<or> (length rest \<ge> length skip \<and> equalFold (take (length skip) rest) skip))"

definition clearDefenseMarkers :: "header \<Rightarrow> header" where
  "clearDefenseMarkers headers = filter (\<lambda>(name, _). \<not> isDefenseMarker name) headers"

definition skipHeaderName :: "u32 \<Rightarrow> string" where
  "skipHeaderName rid = ''X-Apx-Coraza-Skip-'' @ FormatUint (unat rid)"

definition defenseSkipHeaderNames :: "string list" where
  "defenseSkipHeaderNames = map skipHeaderName defenseCRSIDs"

definition stampSkip :: "u32 \<Rightarrow> header \<Rightarrow> header" where
  "stampSkip rid headers =
     (case defenseCRSIndex rid of (index, ok) \<Rightarrow>
        if ok then mput (defenseSkipHeaderNames ! index) [''true''] headers else headers)"

definition stampDefenseEvidence :: "defenseSnapshot \<Rightarrow> header \<Rightarrow> header" where
  "stampDefenseEvidence s headers =
     (let h1 = mput defenseEvidenceHeader [evidenceMarker (sn_Evidence s)] headers;
          h2 = (if sn_ObserveCoraza s then mput defenseObserveHeader [''true''] h1 else h1)
      in fold stampSkip (sn_SkipCorazaRuleIDs s) h2)"

section \<open>The handler\<close>

text \<open>The part of \<open>ServeHTTP\<close> before the next handler: the request's headers and its holder.\<close>

definition serveEvidence ::
    "(string \<Rightarrow> string) \<Rightarrow> defenseEvidenceHandler \<Rightarrow> vars \<Rightarrow> header \<Rightarrow> defenseSnapshotHolder option
     \<Rightarrow> header \<times> defenseSnapshotHolder option" where
  "serveEvidence unesc h vs headers0 ho =
     (let headers = (if dh_Mode h \<noteq> ''capture_privacy'' then clearDefenseMarkers headers0 else headers0)
      in case compilePlan unesc h of
           Inl _ \<Rightarrow> (headers, ho)
         | Inr plan \<Rightarrow>
             if pl_mode plan = ''capture_privacy'' then
               (headers, case pl_privacy plan of
                           None \<Rightarrow> ho
                         | Some p \<Rightarrow> map_option (capturePrivacy unesc p headers) ho)
             else if pl_mode plan = ''capture'' then
               (headers, map_option (\<lambda>holder. snd (publishOwned (capture plan vs) holder)) ho)
             else if pl_mode plan = ''stamp_waf'' then
               (case sharedSnapshot ho of
                  None \<Rightarrow> (headers, ho)
                | Some s \<Rightarrow> (stampDefenseEvidence s headers, ho))
             else (headers, ho))"

section \<open>Reading the evidence back\<close>

text \<open>The loop over the headers: the marker found so far, or \<open>None\<close> once it is ambiguous.\<close>

fun evidenceLoop :: "string option \<Rightarrow> header \<Rightarrow> string option option" where
  "evidenceLoop found [] = Some found"
| "evidenceLoop found ((name, values) # hs) =
     (if \<not> equalFold name defenseEvidenceHeader then evidenceLoop found hs
      else if found \<noteq> None \<or> length values \<noteq> 1 then None
      else evidenceLoop (Some (hd values)) hs)"

definition defenseEvidenceFromHeaders :: "header \<Rightarrow> defenseEvidence option" where
  "defenseEvidenceFromHeaders headers =
     (case evidenceLoop None headers of
        Some (Some marker) \<Rightarrow>
          if length marker > 64 + 7 * length defenseCRSIDs then None
          else (case parseDefenseEvidenceMarker marker of
                  None \<Rightarrow> None
                | Some e \<Rightarrow> if evidenceMarker e \<noteq> marker then None else Some e)
      | _ \<Rightarrow> None)"

section \<open>Markers after clearing and stamping\<close>

text \<open>
  Where the pattern has no letter that a wider code point folds to, a fold match splits at the
  same byte.
\<close>

lemma equalFold_split:
  "list_all (\<lambda>c. lower_byte c \<noteq> CHR ''s'' \<and> lower_byte c \<noteq> CHR ''k'') p \<Longrightarrow> equalFold s (p @ q) \<Longrightarrow>
   length p \<le> length s \<and> equalFold (take (length p) s) p \<and> equalFold (drop (length p) s) q"
proof (induction p arbitrary: s)
  case (Cons y p)
  then show ?case by (cases s) (auto split: if_splits)
qed (cases s; simp)

lemma equalFold_lower:
  "equalFold s t \<longleftrightarrow> equalFold s (map lower_byte t)"
  by (induction s t rule: equalFold.induct) (auto split: if_splits)

lemma evidence_name_is_marker: "equalFold name defenseEvidenceHeader \<Longrightarrow> isDefenseMarker name"
proof -
  assume "equalFold name defenseEvidenceHeader"
  then have "equalFold name (map lower_byte defenseEvidenceHeader)" by (simp add: equalFold_lower [symmetric])
  moreover have "map lower_byte defenseEvidenceHeader = ''x-apx-'' @ ''defense-evidence''" by code_simp
  ultimately have "equalFold name (''x-apx-'' @ ''defense-evidence'')" by simp
  moreover have "list_all (\<lambda>c. lower_byte c \<noteq> CHR ''s'' \<and> lower_byte c \<noteq> CHR ''k'') ''x-apx-''" by code_simp
  ultimately show ?thesis using equalFold_split [of "''x-apx-''" name "''defense-evidence''"]
    by (simp add: isDefenseMarker_def Let_def)
qed

lemma evidenceLoop_filter:
  "evidenceLoop found hs = evidenceLoop found (filter (\<lambda>(n, _). equalFold n defenseEvidenceHeader) hs)"
  by (induction found hs rule: evidenceLoop.induct) auto

lemma filter_mput_other: "\<not> P k \<Longrightarrow> filter (\<lambda>(n, _). P n) (mput k v m) = filter (\<lambda>(n, _). P n) m"
  by (induction m) auto

lemma filter_mput_new: "P k \<Longrightarrow> filter (\<lambda>(n, _). P n) m = [] \<Longrightarrow> filter (\<lambda>(n, _). P n) (mput k v m) = [(k, v)]"
  by (induction m) (auto split: if_splits)

lemma skip_name_not_evidence: "\<not> equalFold (skipHeaderName rid) defenseEvidenceHeader"
  by (simp add: skipHeaderName_def defenseEvidenceHeader_def lower_byte_def is_upper_def)

lemma observe_name_not_evidence: "\<not> equalFold defenseObserveHeader defenseEvidenceHeader"
  by (simp add: defenseObserveHeader_def defenseEvidenceHeader_def lower_byte_def is_upper_def)

lemma stampSkip_eq:
  "stampSkip rid headers = (if validDefenseCRSID rid then mput (skipHeaderName rid) [''true''] headers else headers)"
proof (cases "validDefenseCRSID rid")
  case True
  then obtain i where "defenseCRSIndex rid = (i, True)"
    by (cases "defenseCRSIndex rid") (auto simp: validDefenseCRSID_def)
  moreover from this have "defenseSkipHeaderNames ! i = skipHeaderName rid"
    by (auto simp: defenseCRSIndex_known defenseSkipHeaderNames_def)
  ultimately show ?thesis using True by (simp add: stampSkip_def)
qed (auto simp: stampSkip_def validDefenseCRSID_def split: prod.splits)

lemma evidence_name: "equalFold defenseEvidenceHeader defenseEvidenceHeader"
  by code_simp

lemma evidence_only:
  assumes "\<forall>(n, _) \<in> set h. \<not> isDefenseMarker n"
  shows "filter (\<lambda>(n, _). equalFold n defenseEvidenceHeader) (stampDefenseEvidence s h)
    = [(defenseEvidenceHeader, [evidenceMarker (sn_Evidence s)])]"
proof -
  let ?P = "\<lambda>n. equalFold n defenseEvidenceHeader"
  have skips: "filter (\<lambda>(n, _). ?P n) (fold stampSkip ids m) = filter (\<lambda>(n, _). ?P n) m" for ids m
    by (induction ids arbitrary: m) (auto simp: stampSkip_eq filter_mput_other [of ?P] skip_name_not_evidence)
  have "filter (\<lambda>(n, _). ?P n) h = []"
    using assms evidence_name_is_marker by (auto simp: filter_empty_conv)
  moreover note evidence_name
  ultimately have "filter (\<lambda>(n, _). ?P n) (mput defenseEvidenceHeader [evidenceMarker (sn_Evidence s)] h)
      = [(defenseEvidenceHeader, [evidenceMarker (sn_Evidence s)])]"
    by (intro filter_mput_new)
  then show ?thesis
    by (simp add: stampDefenseEvidence_def Let_def skips filter_mput_other [of ?P] observe_name_not_evidence)
qed

section \<open>The length of a marker\<close>

lemma FormatUint_length: "n < 10 ^ k \<Longrightarrow> 0 < k \<Longrightarrow> length (FormatUint n) \<le> k"
proof (induction n arbitrary: k rule: FormatUint.induct)
  case (1 n)
  show ?case
  proof (cases "n < 10")
    case True
    with 1 show ?thesis by (simp add: FormatUint.simps [of n])
  next
    case False
    with 1(2) obtain j where j: "k = Suc j" "0 < j"
      by (cases k; cases "k - 1") auto
    with 1(2) have "n div 10 < 10 ^ j" by (simp add: less_mult_imp_div_less mult.commute)
    from 1(1) [OF False this j(2)] False j show ?thesis by (simp add: FormatUint.simps [of n])
  qed
qed

lemma joinWith_length:
  "\<forall>x \<in> set xs. length x \<le> m \<Longrightarrow> length (joinWith c xs) \<le> (m + 1) * length xs"
  by (induction c xs rule: joinWith.induct) auto

lemma marker_length:
  assumes "evidence_ok e"
  shows "length (evidenceMarker e) \<le> 64 + 7 * length defenseCRSIDs"
proof -
  let ?ids = "de_CorazaRuleIDs e"
  have "length (FormatUint (unat x)) \<le> 6" if "x \<in> set ?ids" for x
  proof -
    have "x \<in> set defenseCRSIDs" using assms that by (auto simp: evidence_ok_def)
    then have "x < 1000000" using defenseCRSIDs_range by blast
    then have "unat x < 10 ^ 6" by (simp add: word_less_nat_alt)
    then show ?thesis by (rule FormatUint_length) simp
  qed
  then have "length (ruleText ?ids) \<le> 7 * length ?ids"
    using joinWith_length [of "map (\<lambda>x. FormatUint (unat x)) ?ids" 6] by (simp add: ruleText_def)
  moreover have "distinct ?ids" using assms by (auto simp: evidence_ok_def strict_sorted_iff)
  then have "length ?ids = card (set ?ids)" by (simp add: distinct_card)
  moreover have "card (set ?ids) \<le> card (set defenseCRSIDs)"
    using assms by (intro card_mono) (auto simp: evidence_ok_def)
  then have "card (set ?ids) \<le> length defenseCRSIDs" using card_length [of defenseCRSIDs] by simp
  ultimately show ?thesis
    by (simp add: evidenceMarker_def evidenceHTTPField_def evidenceAllField_def evidenceRulesField_def)
qed

lemma stamp_read_back:
  assumes "evidence_ok (sn_Evidence s)" and "\<forall>(n, _) \<in> set h. \<not> isDefenseMarker n"
  shows "defenseEvidenceFromHeaders (stampDefenseEvidence s h) = Some (sn_Evidence s)"
  using evidenceLoop_filter [of None "stampDefenseEvidence s h"] evidence_only [OF assms(2), of s]
    marker_length [OF assms(1)] parse_marker [OF assms(1)] evidence_name
  by (simp add: defenseEvidenceFromHeaders_def)

text \<open>The control markers after stamping are those of the snapshot, and no others.\<close>

lemma keys_skips: "keys (fold stampSkip ids m) = keys m \<union> skipHeaderName ` (set ids \<inter> set defenseCRSIDs)"
  by (induction ids arbitrary: m) (auto simp: stampSkip_eq validDefenseCRSID_iff)

lemma stamped_markers:
  assumes "n \<in> keys (stampDefenseEvidence s (clearDefenseMarkers h))" and "isDefenseMarker n"
  shows "n = defenseEvidenceHeader \<or> (n = defenseObserveHeader \<and> sn_ObserveCoraza s)
    \<or> n \<in> skipHeaderName ` set (sn_SkipCorazaRuleIDs s)"
proof -
  have "n \<notin> keys (clearDefenseMarkers h)" using assms(2) by (auto simp: clearDefenseMarkers_def)
  with assms(1) show ?thesis
    by (auto simp: stampDefenseEvidence_def Let_def keys_skips split: if_splits)
qed

section \<open>What a capture gives\<close>

lemma probe_ok:
  assumes "selectors_ok ss"
  shows "ascending (probeSelectors vs ss)" and "set (probeSelectors vs ss) \<subseteq> set defenseCRSIDs"
  using assms by (auto simp: selectors_ok_def probeSelectors_def sorted_wrt_map list_all_iff selector_ok_def
      intro: sorted_wrt_filter)

lemma capture_ok:
  assumes "plan_ok p" and "distinct_keys vs"
  shows "evidence_ok (sn_Evidence (capture p vs))"
  using probe_ok [of "pl_rules p" vs] assms selected_eq_probes [OF assms]
  by (simp add: capture_def evidence_ok_def plan_ok_def)

end
