(* ===== verification/Managed_Registry.thy ===== *)
theory Managed_Registry
  imports Prelude
begin

text \<open>
  The registry from WAF transactions to the privacy state of their request
  (managed\_header\_privacy.go).  Entries are heap cells: \<open>bind\<close> returns a handle that holds the
  cell, and the release of a handle works on that cell, whatever the index holds by then.  The
  shard of an id is \<open>seed id mod 64\<close>; each operation runs under the lock of one shard.  A state is
  only passed on, so its type is a parameter.
\<close>

section \<open>State and operations\<close>

record 's registryEntry =
  me_state :: 's
  me_refs :: int
  me_poisoned :: bool

record 's managedHeaderRegistry =
  rg_heap :: "'s registryEntry list"
  rg_shards :: "(string, nat) gomap list"

definition newManagedHeaderRegistry :: "'s managedHeaderRegistry" where
  "newManagedHeaderRegistry = \<lparr>rg_heap = [], rg_shards = replicate 64 []\<rparr>"

definition registryShard :: "(string \<Rightarrow> nat) \<Rightarrow> string \<Rightarrow> nat" where
  "registryShard seed key = seed key mod 64"

definition entryOf :: "(string \<Rightarrow> nat) \<Rightarrow> 's managedHeaderRegistry \<Rightarrow> string \<Rightarrow> nat option" where
  "entryOf seed r key = map_of (rg_shards r ! registryShard seed key) key"

text \<open>A handle: the cell and its id, or nothing for an id that is refused.\<close>

definition bindState ::
    "(string \<Rightarrow> nat) \<Rightarrow> string \<Rightarrow> 's \<Rightarrow> 's managedHeaderRegistry \<Rightarrow> nat option \<times> 's managedHeaderRegistry" where
  "bindState seed key st r =
     (if key = [] \<or> length key > 128 then (None, r)
      else case entryOf seed r key of
             Some ptr \<Rightarrow>
               (Some ptr, r\<lparr>rg_heap := (rg_heap r)[ptr := (rg_heap r ! ptr)\<lparr>me_poisoned := True,
                                                        me_refs := me_refs (rg_heap r ! ptr) + 1\<rparr>]\<rparr>)
           | None \<Rightarrow>
               (let ptr = length (rg_heap r); s = registryShard seed key
                in (Some ptr, r\<lparr>rg_heap := rg_heap r @ [\<lparr>me_state = st, me_refs = 1, me_poisoned = False\<rparr>],
                                rg_shards := (rg_shards r)[s := mput key ptr (rg_shards r ! s)]\<rparr>)))"

text \<open>The body of the returned function; \<open>sync.Once\<close> runs it at most once per handle.\<close>

definition releaseState ::
    "(string \<Rightarrow> nat) \<Rightarrow> string \<Rightarrow> nat \<Rightarrow> 's managedHeaderRegistry \<Rightarrow> 's managedHeaderRegistry" where
  "releaseState seed key ptr r =
     (let e = (rg_heap r ! ptr)\<lparr>me_refs := me_refs (rg_heap r ! ptr) - 1\<rparr>; s = registryShard seed key;
          r1 = r\<lparr>rg_heap := (rg_heap r)[ptr := e]\<rparr>
      in if me_refs e = 0 \<and> entryOf seed r key = Some ptr
         then r1\<lparr>rg_shards := (rg_shards r)[s := AList.delete key (rg_shards r ! s)]\<rparr> else r1)"

definition lookupState ::
    "(string \<Rightarrow> nat) \<Rightarrow> string \<Rightarrow> 's managedHeaderRegistry \<Rightarrow> 's option \<times> bool" where
  "lookupState seed key r =
     (case entryOf seed r key of
        None \<Rightarrow> (None, False)
      | Some ptr \<Rightarrow> if me_poisoned (rg_heap r ! ptr) then (None, True)
                    else (Some (me_state (rg_heap r ! ptr)), True))"

definition registryLen :: "'s managedHeaderRegistry \<Rightarrow> nat" where
  "registryLen r = sum_list (map length (rg_shards r))"

section \<open>Runs\<close>

text \<open>
  A run binds and releases in any order; \<open>live\<close> lists the handles not released yet, with the id
  and the state each was bound with.
\<close>

record 's registryRun =
  rr_reg :: "'s managedHeaderRegistry"
  rr_live :: "(string \<times> 's \<times> nat) list"

inductive registry_step :: "(string \<Rightarrow> nat) \<Rightarrow> 's registryRun \<Rightarrow> 's registryRun \<Rightarrow> bool"
  for seed :: "string \<Rightarrow> nat" where
  binds: "bindState seed key st (rr_reg s) = (Some ptr, r) \<Longrightarrow>
      registry_step seed s \<lparr>rr_reg = r, rr_live = (key, st, ptr) # rr_live s\<rparr>"
| refuses: "bindState seed key st (rr_reg s) = (None, r) \<Longrightarrow> registry_step seed s (s\<lparr>rr_reg := r\<rparr>)"
| releases: "rr_live s = xs @ (key, st, ptr) # ys \<Longrightarrow>
      registry_step seed s \<lparr>rr_reg = releaseState seed key ptr (rr_reg s), rr_live = xs @ ys\<rparr>"

inductive registry_reach :: "(string \<Rightarrow> nat) \<Rightarrow> 's registryRun \<Rightarrow> bool" for seed :: "string \<Rightarrow> nat" where
  registry_start: "registry_reach seed \<lparr>rr_reg = newManagedHeaderRegistry, rr_live = []\<rparr>"
| registry_more: "registry_reach seed s \<Longrightarrow> registry_step seed s s' \<Longrightarrow> registry_reach seed s'"

section \<open>The invariant\<close>

definition handlesOf :: "(string \<times> 's \<times> nat) list \<Rightarrow> string \<Rightarrow> (string \<times> 's \<times> nat) list" where
  "handlesOf live key = filter (\<lambda>(k, _). k = key) live"

text \<open>
  An indexed cell is the cell of its id's live handles, counts them, and holds the state of the
  only one unless it is poisoned.
\<close>

definition cell_ok :: "'s registryEntry \<Rightarrow> (string \<times> 's \<times> nat) list \<Rightarrow> string \<Rightarrow> nat \<Rightarrow> bool" where
  "cell_ok e hs key ptr =
     (hs \<noteq> [] \<and> (\<forall>h \<in> set hs. snd (snd h) = ptr) \<and> me_refs e = int (length hs) \<and>
      (\<not> me_poisoned e \<longrightarrow> hs = [(key, me_state e, ptr)]))"

text \<open>The invariant over the index as a function; an id without live handles is not indexed.\<close>

definition index_ok ::
    "(string \<Rightarrow> nat option) \<Rightarrow> 's registryEntry list \<Rightarrow> (string \<times> 's \<times> nat) list \<Rightarrow> bool" where
  "index_ok E heap live =
     ((\<forall>key. case E key of
               None \<Rightarrow> handlesOf live key = []
             | Some ptr \<Rightarrow> ptr < length heap \<and> cell_ok (heap ! ptr) (handlesOf live key) key ptr) \<and>
      (\<forall>k1 k2 ptr. E k1 = Some ptr \<longrightarrow> E k2 = Some ptr \<longrightarrow> k1 = k2))"

definition registry_inv :: "(string \<Rightarrow> nat) \<Rightarrow> 's registryRun \<Rightarrow> bool" where
  "registry_inv seed s =
     (length (rg_shards (rr_reg s)) = 64 \<and> index_ok (entryOf seed (rr_reg s)) (rg_heap (rr_reg s)) (rr_live s))"

lemma handlesOf_Cons [simp]:
  "handlesOf ((k, st, q) # live) key = (if k = key then (k, st, q) # handlesOf live key else handlesOf live key)"
  by (simp add: handlesOf_def)

lemma handlesOf_append [simp]: "handlesOf (xs @ ys) key = handlesOf xs key @ handlesOf ys key"
  by (simp add: handlesOf_def)

lemma shard_bound [simp]: "registryShard seed key < 64"
  by (simp add: registryShard_def)

lemma entryOf_heap [simp]: "entryOf seed (r\<lparr>rg_heap := h\<rparr>) key = entryOf seed r key"
  by (simp add: entryOf_def)

lemma entryOf_put:
  assumes "length (rg_shards r) = 64"
  shows "entryOf seed (r\<lparr>rg_shards := (rg_shards r)[registryShard seed key :=
      mput key ptr (rg_shards r ! registryShard seed key)]\<rparr>) k = (if k = key then Some ptr else entryOf seed r k)"
  using assms by (auto simp: entryOf_def nth_list_update)

lemma entryOf_delete:
  assumes "length (rg_shards r) = 64"
  shows "entryOf seed (r\<lparr>rg_shards := (rg_shards r)[registryShard seed key :=
      AList.delete key (rg_shards r ! registryShard seed key)]\<rparr>) k = (if k = key then None else entryOf seed r k)"
  using assms by (auto simp: entryOf_def nth_list_update delete_conv simp del: map_of_None_keys)

lemma index_ok_Some:
  "index_ok E heap live \<Longrightarrow> E key = Some ptr \<Longrightarrow>
   ptr < length heap \<and> cell_ok (heap ! ptr) (handlesOf live key) key ptr"
  by (auto simp: index_ok_def dest: spec [of _ key])

lemma index_ok_None: "index_ok E heap live \<Longrightarrow> E key = None \<Longrightarrow> handlesOf live key = []"
  by (auto simp: index_ok_def dest: spec [of _ key])

lemma index_ok_inj: "index_ok E heap live \<Longrightarrow> E k1 = Some ptr \<Longrightarrow> E k2 = Some ptr \<Longrightarrow> k1 = k2"
  unfolding index_ok_def by blast

lemma index_okI:
  assumes "\<And>key. E key = None \<Longrightarrow> handlesOf live key = []"
    and "\<And>key ptr. E key = Some ptr \<Longrightarrow> ptr < length heap \<and> cell_ok (heap ! ptr) (handlesOf live key) key ptr"
    and "\<And>k1 k2 ptr. E k1 = Some ptr \<Longrightarrow> E k2 = Some ptr \<Longrightarrow> k1 = k2"
  shows "index_ok E heap live"
  using assms by (auto simp: index_ok_def simp del: map_of_None_keys split: option.splits)

lemma index_ok_new:
  assumes "index_ok E heap live" and "E key = None"
  shows "index_ok (E(key \<mapsto> length heap)) (heap @ [\<lparr>me_state = st, me_refs = 1, me_poisoned = False\<rparr>])
    ((key, st, length heap) # live)"
proof (rule index_okI)
  fix k ptr
  assume k: "(E(key \<mapsto> length heap)) k = Some ptr"
  show "ptr < length (heap @ [\<lparr>me_state = st, me_refs = 1, me_poisoned = False\<rparr>]) \<and>
    cell_ok ((heap @ [\<lparr>me_state = st, me_refs = 1, me_poisoned = False\<rparr>]) ! ptr)
      (handlesOf ((key, st, length heap) # live) k) k ptr"
  proof (cases "k = key")
    case True
    with k index_ok_None [OF assms] show ?thesis by (auto simp: cell_ok_def nth_append)
  next
    case False
    with k index_ok_Some [OF assms(1), of k ptr] show ?thesis by (simp add: nth_append)
  qed
next
  fix k1 k2 ptr
  assume "(E(key \<mapsto> length heap)) k1 = Some ptr" "(E(key \<mapsto> length heap)) k2 = Some ptr"
  then show "k1 = k2"
    using index_ok_Some [OF assms(1), of k1 ptr] index_ok_Some [OF assms(1), of k2 ptr]
      index_ok_inj [OF assms(1), of k1 ptr k2] by (auto split: if_splits)
qed (use index_ok_None [OF assms(1)] in \<open>auto split: if_splits\<close>)

lemma index_ok_again:
  assumes "index_ok E heap live" and "E key = Some ptr"
  shows "index_ok E (heap[ptr := (heap ! ptr)\<lparr>me_poisoned := True, me_refs := me_refs (heap ! ptr) + 1\<rparr>])
    ((key, st, ptr) # live)"
proof (rule index_okI)
  fix k q
  assume k: "E k = Some q"
  let ?h = "heap[ptr := (heap ! ptr)\<lparr>me_poisoned := True, me_refs := me_refs (heap ! ptr) + 1\<rparr>]"
  show "q < length ?h \<and> cell_ok (?h ! q) (handlesOf ((key, st, ptr) # live) k) k q"
  proof (cases "k = key")
    case True
    with k assms(2) have "q = ptr" by simp
    with True index_ok_Some [OF assms] show ?thesis by (auto simp: cell_ok_def)
  next
    case False
    with k assms(2) index_ok_inj [OF assms(1), of k q key] have "q \<noteq> ptr" by auto
    with False index_ok_Some [OF assms(1) k] show ?thesis by simp
  qed
next
  fix k1 k2 ptr
  assume "E k1 = Some ptr" "E k2 = Some ptr"
  then show "k1 = k2" by (rule index_ok_inj [OF assms(1)])
qed (use index_ok_None [OF assms(1)] assms(2) in \<open>auto split: if_splits\<close>)

lemma index_ok_release:
  assumes "index_ok E heap (xs @ (key, st, ptr) # ys)"
  defines "e \<equiv> (heap ! ptr)\<lparr>me_refs := me_refs (heap ! ptr) - 1\<rparr>"
  shows "E key = Some ptr"
    and "me_refs e = 0 \<Longrightarrow> index_ok (E(key := None)) (heap[ptr := e]) (xs @ ys)"
    and "me_refs e \<noteq> 0 \<Longrightarrow> index_ok E (heap[ptr := e]) (xs @ ys)"
proof -
  let ?live = "xs @ (key, st, ptr) # ys"
  have mem: "(key, st, ptr) \<in> set (handlesOf ?live key)" by simp
  then obtain q where "E key = Some q" using index_ok_None [OF assms(1), of key] by (cases "E key") auto
  with index_ok_Some [OF assms(1) this] mem show Ek: "E key = Some ptr" by (fastforce simp: cell_ok_def)
  note ok = index_ok_Some [OF assms(1) Ek]
  have refs: "me_refs e = int (length (handlesOf (xs @ ys) key))" using ok by (simp add: e_def cell_ok_def)
  have other: "q < length (heap[ptr := e]) \<and> cell_ok (heap[ptr := e] ! q) (handlesOf (xs @ ys) k) k q"
    if "k \<noteq> key" "E k = Some q" for k q
    using index_ok_Some [OF assms(1) that(2)] index_ok_inj [OF assms(1) that(2), of key] that(1) Ek by (cases "q = ptr") auto
  have none: "handlesOf (xs @ ys) k = []" if "E k = None" for k
    using index_ok_None [OF assms(1) that] by (auto split: if_splits)
  show "index_ok (E(key := None)) (heap[ptr := e]) (xs @ ys)" if "me_refs e = 0"
  proof (rule index_okI)
    fix k
    assume "(E(key := None)) k = None"
    then show "handlesOf (xs @ ys) k = []" using that refs none [of k] by (cases "k = key") (simp_all del: handlesOf_append)
  next
    fix k q
    assume "(E(key := None)) k = Some q"
    then show "q < length (heap[ptr := e]) \<and> cell_ok (heap[ptr := e] ! q) (handlesOf (xs @ ys) k) k q"
      by (intro other) (auto split: if_splits)
  next
    fix k1 k2 q
    assume "(E(key := None)) k1 = Some q" "(E(key := None)) k2 = Some q"
    then show "k1 = k2" using index_ok_inj [OF assms(1), of k1 q k2] by (auto split: if_splits)
  qed
  show "index_ok E (heap[ptr := e]) (xs @ ys)" if "me_refs e \<noteq> 0"
  proof (rule index_okI)
    fix k q
    assume k: "E k = Some q"
    have "me_poisoned (heap ! ptr)" 
    proof (rule ccontr)
      assume "\<not> me_poisoned (heap ! ptr)"
      with ok have "handlesOf xs key @ (key, st, ptr) # handlesOf ys key = [(key, me_state (heap ! ptr), ptr)]"
        by (simp add: cell_ok_def)
      then have "handlesOf (xs @ ys) key = []" by (cases "handlesOf xs key") auto
      with that refs show False by simp
    qed
    then have "cell_ok e (handlesOf (xs @ ys) key) key ptr"
      using that refs ok by (auto simp: cell_ok_def e_def)
    with k other [of k q] Ek ok show "q < length (heap[ptr := e]) \<and> cell_ok (heap[ptr := e] ! q) (handlesOf (xs @ ys) k) k q"
      by (cases "k = key") auto
  next
    fix k1 k2 q
    assume "E k1 = Some q" "E k2 = Some q"
    then show "k1 = k2" by (rule index_ok_inj [OF assms(1)])
  qed (rule none)
qed

lemma registry_inv_start: "registry_inv seed \<lparr>rr_reg = newManagedHeaderRegistry, rr_live = []\<rparr>"
  by (simp add: registry_inv_def newManagedHeaderRegistry_def entryOf_def handlesOf_def index_ok_def)

lemma registry_inv_step: "registry_step seed s s' \<Longrightarrow> registry_inv seed s \<Longrightarrow> registry_inv seed s'"
proof (induction rule: registry_step.induct)
  case (refuses key st s r)
  then show ?case by (auto simp: bindState_def Let_def split: if_splits option.splits)
next
  case (binds key st s ptr r)
  let ?r = "rr_reg s" and ?new = "\<lparr>me_state = st, me_refs = 1, me_poisoned = False\<rparr>"
  have len: "length (rg_shards ?r) = 64" and ok: "index_ok (entryOf seed ?r) (rg_heap ?r) (rr_live s)"
    using binds(2) by (simp_all add: registry_inv_def)
  show ?case
  proof (cases "entryOf seed ?r key")
    case None
    with binds(1) have ptr: "ptr = length (rg_heap ?r)"
      and r: "r = (?r\<lparr>rg_heap := rg_heap ?r @ [?new]\<rparr>)\<lparr>rg_shards :=
        (rg_shards ?r)[registryShard seed key := mput key ptr (rg_shards ?r ! registryShard seed key)]\<rparr>"
      by (auto simp: bindState_def Let_def split: if_splits)
    have "entryOf seed r = (entryOf seed ?r)(key \<mapsto> ptr)"
      using entryOf_put [of "?r\<lparr>rg_heap := rg_heap ?r @ [?new]\<rparr>" seed key ptr] len by (auto simp: r)
    with index_ok_new [OF ok None, of st] len show ?thesis by (simp add: registry_inv_def ptr r)
  next
    case (Some q)
    with binds(1) have "ptr = q"
      "r = ?r\<lparr>rg_heap := (rg_heap ?r)[q := (rg_heap ?r ! q)\<lparr>me_poisoned := True, me_refs := me_refs (rg_heap ?r ! q) + 1\<rparr>]\<rparr>"
      by (auto simp: bindState_def split: if_splits)
    with index_ok_again [OF ok Some, of st] len show ?thesis by (simp add: registry_inv_def entryOf_def [abs_def])
  qed
next
  case (releases s xs key st ptr ys)
  let ?r = "rr_reg s"
  let ?e = "(rg_heap ?r ! ptr)\<lparr>me_refs := me_refs (rg_heap ?r ! ptr) - 1\<rparr>"
  have len: "length (rg_shards ?r) = 64" and ok: "index_ok (entryOf seed ?r) (rg_heap ?r) (xs @ (key, st, ptr) # ys)"
    using releases by (simp_all add: registry_inv_def)
  note rel = index_ok_release [OF ok]
  show ?case
  proof (cases "me_refs ?e = 0")
    case True
    define r' where "r' = releaseState seed key ptr ?r"
    have r': "r' = (?r\<lparr>rg_heap := (rg_heap ?r)[ptr := ?e]\<rparr>)\<lparr>rg_shards :=
        (rg_shards ?r)[registryShard seed key := AList.delete key (rg_shards ?r ! registryShard seed key)]\<rparr>"
      using True rel(1) by (simp add: r'_def releaseState_def Let_def)
    have "entryOf seed r' = (entryOf seed ?r)(key := None)"
      using entryOf_delete [of "?r\<lparr>rg_heap := (rg_heap ?r)[ptr := ?e]\<rparr>" seed key] len by (auto simp: r')
    with rel(2) [OF True] len show ?thesis by (simp add: registry_inv_def r'_def [symmetric]) (simp add: r')
  next
    case False
    then have "releaseState seed key ptr ?r = ?r\<lparr>rg_heap := (rg_heap ?r)[ptr := ?e]\<rparr>"
      by (simp add: releaseState_def Let_def)
    with rel(3) [OF False] len show ?thesis by (simp add: registry_inv_def entryOf_def [abs_def])
  qed
qed

lemma registry_reach_inv: "registry_reach seed s \<Longrightarrow> registry_inv seed s"
  by (induction rule: registry_reach.induct) (auto intro: registry_inv_start registry_inv_step)

text \<open>
  So a lookup gives the state of the one live handle of its id, nothing while several are live,
  and no entry when none is.
\<close>

lemma lookup_isolated:
  assumes "registry_reach seed s"
  shows "handlesOf (rr_live s) key = [] \<longleftrightarrow> lookupState seed key (rr_reg s) = (None, False)"
    and "lookupState seed key (rr_reg s) = (Some st, b) \<Longrightarrow> \<exists>ptr. handlesOf (rr_live s) key = [(key, st, ptr)]"
proof -
  have ok: "index_ok (entryOf seed (rr_reg s)) (rg_heap (rr_reg s)) (rr_live s)"
    using registry_reach_inv [OF assms] by (simp add: registry_inv_def)
  show "handlesOf (rr_live s) key = [] \<longleftrightarrow> lookupState seed key (rr_reg s) = (None, False)"
    using index_ok_None [OF ok, of key] index_ok_Some [OF ok, of key]
    by (cases "entryOf seed (rr_reg s) key") (auto simp: lookupState_def cell_ok_def)
  show "lookupState seed key (rr_reg s) = (Some st, b) \<Longrightarrow> \<exists>ptr. handlesOf (rr_live s) key = [(key, st, ptr)]"
    using index_ok_Some [OF ok, of key]
    by (cases "entryOf seed (rr_reg s) key") (auto simp: lookupState_def cell_ok_def split: if_splits)
qed

end
