(* ===== verification/Request_Recorder.thy ===== *)
theory Request_Recorder
  imports Rows Mem_Governor "HOL-Library.Signed_Division"
begin

text \<open>
  The request-event recorder (request\_event\_recorder.go, request\_event.go) and the Coraza
  detection buffer (app.go, coraza\_event.go): two byte-governed buffers.  The governor is
  shared, so it is threaded beside the recorder; \<open>None\<close> is a \<open>nil\<close> governor.
\<close>

section \<open>Dispositions (disposition.go)\<close>

definition dispServed :: string where "dispServed = ''served''"

definition deriveDisposition :: "string \<Rightarrow> string \<Rightarrow> string" where
  "deriveDisposition blockReason challengeOutcome =
     (if blockReason = ''waf'' then ''waf_blocked''
      else if blockReason = ''rate_limit'' then ''rate_limited''
      else if challengeOutcome = ''issued'' then ''challenge_issued''
      else if challengeOutcome = ''passed'' \<or> challengeOutcome = ''passed_fallback''
        then ''challenge_passed''
      else if challengeOutcome = ''failed'' then ''challenge_failed''
      else if challengeOutcome = ''passed_recently'' then ''challenge_passed_prior''
      else dispServed)"

definition nextMachineSeq :: "u64 \<Rightarrow> u64 \<times> u64" where
  "nextMachineSeq counter = (counter + 1, counter + 1)"

section \<open>The recorder\<close>

record requestEventRecorder =
  r_rows :: "requestEventRow list"
  r_maxRows :: int
  r_threshold :: int
  r_seen :: int
  r_overflow :: u64
  r_reservedBytes :: int
  r_modeV2 :: bool
  r_blockedThreshold :: int
  r_seenBlocked :: int

definition newRequestEventRecorder :: "int \<Rightarrow> int \<Rightarrow> requestEventRecorder" where
  "newRequestEventRecorder mx thr =
     \<lparr>r_rows = [], r_maxRows = mx, r_threshold = thr, r_seen = 0, r_overflow = 0,
      r_reservedBytes = 0, r_modeV2 = False, r_blockedThreshold = 0, r_seenBlocked = 0\<rparr>"

definition newRequestEventRecorderV2 :: "int \<Rightarrow> int \<Rightarrow> requestEventRecorder" where
  "newRequestEventRecorderV2 mx blocked =
     \<lparr>r_rows = [], r_maxRows = mx, r_threshold = 0, r_seen = 0, r_overflow = 0,
      r_reservedBytes = 0, r_modeV2 = True, r_blockedThreshold = blocked, r_seenBlocked = 0\<rparr>"

definition requestEventRowFixedBytes :: nat where "requestEventRowFixedBytes = 352"

definition requestEventRowBytes :: "requestEventRow \<Rightarrow> int" where
  "requestEventRowBytes row = int (requestEventRowFixedBytes
     + length (re_ClientIP row) + length (re_ForwardedIP row) + length (re_FrontProxy row)
     + length (re_Method row) + length (re_Path row) + length (re_PathBucket row)
     + length (re_HTTPVersion row) + length (re_UA row) + length (re_Origin row)
     + length (re_MachineID row) + length (re_Disposition row) + length (re_Host row)
     + length (re_RequestID row) + length (re_UpstreamFailureReason row))"

text \<open>\<open>%\<close> and \<open>/\<close> of Go truncate; the operands here are never negative.\<close>

definition sampleDecision :: "int \<Rightarrow> int \<Rightarrow> bool \<times> u16" where
  "sampleDecision seen factor =
     (if factor \<le> 1 then (True, 1)
      else if seen smod factor = 0 then (True, of_int factor)
      else (False, 0))"

type_synonym recorderState = "requestEventRecorder \<times> memGovernor option"

definition appendLocked :: "requestEventRow \<Rightarrow> u16 \<Rightarrow> recorderState \<Rightarrow> recorderState" where
  "appendLocked row rate st =
     (case st of (r, gov) \<Rightarrow>
        if int (length (r_rows r)) \<ge> r_maxRows r then (r\<lparr>r_overflow := r_overflow r + 1\<rparr>, gov)
        else case gov of
          None \<Rightarrow> (r\<lparr>r_rows := r_rows r @ [row\<lparr>re_SampleRate := rate\<rparr>]\<rparr>, None)
        | Some g \<Rightarrow>
            (let n = requestEventRowBytes row in
             case tryReserve n g of
               (False, g') \<Rightarrow> (r\<lparr>r_overflow := r_overflow r + 1\<rparr>, Some g')
             | (True, g') \<Rightarrow>
                 (r\<lparr>r_reservedBytes := r_reservedBytes r + n,
                    r_rows := r_rows r @ [row\<lparr>re_SampleRate := rate\<rparr>]\<rparr>, Some g')))"

definition loadFactor :: "int \<Rightarrow> int \<Rightarrow> int" where
  "loadFactor thr seen = (if thr > 0 \<and> seen \<ge> thr then seen sdiv thr + 1 else 1)"

definition withFloor :: "(real \<Rightarrow> real) \<Rightarrow> memGovernor option \<Rightarrow> int \<Rightarrow> int" where
  "withFloor rnd gov factor =
     (case gov of
        None \<Rightarrow> factor
      | Some g \<Rightarrow> (let pf = pressureSampleFloor rnd (pressure rnd g)
                   in if pf > factor then pf else factor))"

definition recordV2Locked :: "(real \<Rightarrow> real) \<Rightarrow> requestEventRow \<Rightarrow> recorderState \<Rightarrow> recorderState" where
  "recordV2Locked rnd row st =
     (case st of (r, gov) \<Rightarrow>
        if re_Disposition row = dispServed then
          (let factor = withFloor rnd gov 1;
               (keep, rate) = sampleDecision (r_seen r) factor;
               st' = (r\<lparr>r_seen := r_seen r + 1\<rparr>, gov)
           in if keep then appendLocked row rate st' else st')
        else
          (let factor = withFloor rnd gov (loadFactor (r_blockedThreshold r) (r_seenBlocked r));
               (keep, rate) = sampleDecision (r_seenBlocked r) factor;
               st' = (r\<lparr>r_seenBlocked := r_seenBlocked r + 1\<rparr>, gov)
           in if keep then appendLocked row rate st' else st'))"

definition recordRow :: "(real \<Rightarrow> real) \<Rightarrow> requestEventRow \<Rightarrow> recorderState \<Rightarrow> recorderState" where
  "recordRow rnd row st =
     (case st of (r, gov) \<Rightarrow>
        if r_modeV2 r then recordV2Locked rnd row st
        else
          (let factor = withFloor rnd gov (loadFactor (r_threshold r) (r_seen r));
               (keep, rate) = sampleDecision (r_seen r) factor;
               st' = (r\<lparr>r_seen := r_seen r + 1\<rparr>, gov)
           in if keep then appendLocked row rate st' else st'))"

definition drainRows :: "recorderState \<Rightarrow> requestEventRow list \<times> u64 \<times> recorderState" where
  "drainRows st =
     (case st of (r, gov) \<Rightarrow>
        (r_rows r, r_overflow r,
         (r\<lparr>r_reservedBytes := 0, r_rows := [], r_seen := 0, r_seenBlocked := 0, r_overflow := 0\<rparr>,
          case gov of
            None \<Rightarrow> None
          | Some g \<Rightarrow> Some (if r_reservedBytes r > 0 then release (r_reservedBytes r) g else g))))"

text \<open>\<open>StatsApp.RecordRequestEvent\<close>: the track is off when there is no recorder.\<close>

definition RecordRequestEvent ::
    "(real \<Rightarrow> real) \<Rightarrow> requestEventRow \<Rightarrow> requestEventRecorder option \<times> memGovernor option
     \<Rightarrow> requestEventRecorder option \<times> memGovernor option" where
  "RecordRequestEvent rnd row st =
     (case st of
        (None, gov) \<Rightarrow> (None, gov)
      | (Some r, gov) \<Rightarrow> (case recordRow rnd row (r, gov) of (r', gov') \<Rightarrow> (Some r', gov')))"

section \<open>Coraza detections\<close>

record corazaTrack =
  corazaEvents :: "corazaDetection list"
  corazaOverflow :: u64
  corazaReservedBytes :: int

definition corazaDetectionFixedBytes :: nat where "corazaDetectionFixedBytes = 184"

definition corazaDetectionBytes :: "corazaDetection \<Rightarrow> int" where
  "corazaDetectionBytes ev = int (corazaDetectionFixedBytes
     + length (cd_Severity ev) + length (cd_RuleMsg ev) + length (cd_TxID ev)
     + length (cd_RequestURI ev) + length (cd_RequestMethod ev) + length (cd_RequestHost ev)
     + length (cd_ClientIP ev) + length (cd_MatchData ev)
     + sum_list (map (\<lambda>tag. length tag + 16) (cd_Tags ev)))"

definition RecordCorazaDetection ::
    "int \<Rightarrow> corazaDetection \<Rightarrow> corazaTrack \<times> memGovernor option \<Rightarrow> corazaTrack \<times> memGovernor option" where
  "RecordCorazaDetection maxEvents ev st =
     (case st of (a, gov) \<Rightarrow>
        if maxEvents > 0 \<and> int (length (corazaEvents a)) \<ge> maxEvents
        then (a\<lparr>corazaOverflow := corazaOverflow a + 1\<rparr>, gov)
        else
          (let n = corazaDetectionBytes ev;
               (granted, gov') = (case gov of
                   None \<Rightarrow> (True, None)
                 | Some g \<Rightarrow> (case tryReserve n g of (b, g') \<Rightarrow> (b, Some g')))
           in if \<not> granted then (a\<lparr>corazaOverflow := corazaOverflow a + 1\<rparr>, gov')
              else (a\<lparr>corazaReservedBytes := corazaReservedBytes a + n,
                      corazaEvents := corazaEvents a @ [ev]\<rparr>, gov')))"

definition corazaSnapshot ::
    "corazaTrack \<times> memGovernor option \<Rightarrow> corazaDetection list \<times> corazaTrack \<times> memGovernor option" where
  "corazaSnapshot st =
     (case st of (a, gov) \<Rightarrow>
        (corazaEvents a, a\<lparr>corazaReservedBytes := 0, corazaEvents := []\<rparr>,
         case gov of
           None \<Rightarrow> None
         | Some g \<Rightarrow> Some (if corazaReservedBytes a > 0 then release (corazaReservedBytes a) g else g)))"

end
