(* ===== verification/Coraza_Writer.thy ===== *)
theory Coraza_Writer
  imports Defense_Handler Managed_Registry Request_Recorder
begin

text \<open>
  The WAF audit-log writer (coraza\_writer.go): one detection per fired rule, with its texts
  redacted under managed-Header privacy and cut to their widths.  The audit log is Coraza's; the
  narrow views of the writer are records here, a nil view \<open>None\<close>.
\<close>

section \<open>The views of the audit log\<close>

datatype ruleSeverity =
  RuleSeverityEmergency | RuleSeverityAlert | RuleSeverityCritical | RuleSeverityError
| RuleSeverityWarning | RuleSeverityNotice | RuleSeverityInfo | RuleSeverityDebug | RuleSeverityOther

record corazaMsgData =
  mv_ID :: int
  mv_Severity :: ruleSeverity
  mv_Msg :: string
  mv_Data :: string
  mv_Tags :: "string list"

record corazaReqView =
  rv_Method :: string
  rv_URI :: string
  rv_Headers :: header

record corazaTxView =
  tv_UnixTimestamp :: int
  tv_ID :: string
  tv_ServerID :: string
  tv_IsInterrupted :: bool
  tv_ClientIP :: string
  tv_Request :: "corazaReqView option"
  tv_Rulesets :: "string list option"

text \<open>A message may be nil, and so may its data.\<close>

record corazaAuditView =
  av_Transaction :: "corazaTxView option"
  av_Messages :: "corazaMsgData option option list"

section \<open>Labels and numbers\<close>

definition corazaSeverityLabel :: "ruleSeverity \<Rightarrow> string" where
  "corazaSeverityLabel s =
     (case s of
        RuleSeverityEmergency \<Rightarrow> ''EMERGENCY'' | RuleSeverityAlert \<Rightarrow> ''ALERT''
      | RuleSeverityCritical \<Rightarrow> ''CRITICAL'' | RuleSeverityError \<Rightarrow> ''ERROR''
      | RuleSeverityWarning \<Rightarrow> ''WARNING'' | RuleSeverityNotice \<Rightarrow> ''NOTICE''
      | RuleSeverityInfo \<Rightarrow> ''INFO'' | RuleSeverityDebug \<Rightarrow> ''DEBUG'' | RuleSeverityOther \<Rightarrow> ''UNKNOWN'')"

definition corazaMatchDataMaxBytes :: nat where "corazaMatchDataMaxBytes = 512"

definition corazaRuleMsgMaxBytes :: nat where "corazaRuleMsgMaxBytes = 256"

definition corazaRequestURIMaxBytes :: nat where "corazaRequestURIMaxBytes = 2048"

definition corazaRequestHostMaxBytes :: nat where "corazaRequestHostMaxBytes = 255"

definition corazaRequestMethodMaxBytes :: nat where "corazaRequestMethodMaxBytes = 32"

definition corazaUnixNanoToSec :: "int \<Rightarrow> u32" where
  "corazaUnixNanoToSec ns =
     (if ns \<le> 0 then 0
      else let sec = ns div 1000000000 in if sec < 0 \<or> sec > 0xFFFFFFFF then 0 else of_int sec)"

definition nonNegInt :: "int \<Rightarrow> int" where
  "nonNegInt n = (if n < 0 then 0 else n)"

section \<open>strings.TrimSpace\<close>

text \<open>The white space of Unicode, as UTF-8.\<close>

definition spaceTexts :: "string list" where
  "spaceTexts =
     map (\<lambda>n. [chr n]) [9, 10, 11, 12, 13, 32]
     @ [[chr 194, chr 133], [chr 194, chr 160], [chr 225, chr 154, chr 128]]
     @ map (\<lambda>n. [chr 226, chr 128, chr n]) ([128..<139] @ [168, 169, 175])
     @ [[chr 226, chr 129, chr 159], [chr 227, chr 128, chr 128]]"

function trimFront :: "string list \<Rightarrow> string \<Rightarrow> string" where
  "trimFront ws s =
     (case find (\<lambda>w. w \<noteq> [] \<and> prefix w s) ws of None \<Rightarrow> s | Some w \<Rightarrow> trimFront ws (drop (length w) s))"
  by pat_completeness auto
termination
  by (relation "measure (\<lambda>(ws, s). length s)") (auto simp: find_Some_iff prefix_def)

declare trimFront.simps [simp del]

definition TrimSpace :: "string \<Rightarrow> string" where
  "TrimSpace s = rev (trimFront (map rev spaceTexts) (rev (trimFront spaceTexts s)))"

section \<open>Proofs the transaction carries\<close>

definition corazaHeaderExemptionSignature :: string where
  "corazaHeaderExemptionSignature = ''APX_HEADER_EXEMPT_TELEMETRY/1''"

definition defenseEvidenceSignature :: string where "defenseEvidenceSignature = ''APX_DEFENSE_EVIDENCE/2''"

definition managedHeaderPrivacySignature :: string where
  "managedHeaderPrivacySignature = ''APX_MANAGED_HEADER_PRIVACY/1''"

text \<open>The loop that looks for a family of signatures: an unknown member decides at once.\<close>

fun versionLoop :: "string \<Rightarrow> string \<Rightarrow> int \<Rightarrow> int \<Rightarrow> string list \<Rightarrow> int" where
  "versionLoop family signature known version [] = version"
| "versionLoop family signature known version (component # rest) =
     (if \<not> HasPrefix component family then versionLoop family signature known version rest
      else if component \<noteq> signature then - 1
      else versionLoop family signature known known rest)"

definition corazaTransactionEvidenceVersion :: "corazaTxView \<Rightarrow> int" where
  "corazaTransactionEvidenceVersion tx =
     (case tv_Rulesets tx of
        None \<Rightarrow> 0
      | Some rs \<Rightarrow> versionLoop ''APX_DEFENSE_EVIDENCE/'' defenseEvidenceSignature 2 0 rs)"

definition corazaTransactionManagedPrivacyVersion :: "corazaTxView \<Rightarrow> int" where
  "corazaTransactionManagedPrivacyVersion tx =
     (case tv_Rulesets tx of
        None \<Rightarrow> 0
      | Some rs \<Rightarrow> versionLoop ''APX_MANAGED_HEADER_PRIVACY/'' managedHeaderPrivacySignature 1 0 rs)"

definition corazaTransactionSupportsExemption :: "corazaTxView \<Rightarrow> bool" where
  "corazaTransactionSupportsExemption tx =
     (case tv_Rulesets tx of None \<Rightarrow> False | Some rs \<Rightarrow> corazaHeaderExemptionSignature \<in> set rs)"

section \<open>Headers of the audit log\<close>

definition corazaVhostHeader :: string where "corazaVhostHeader = ''X-Apx-Vhost-Id''"

definition firstUint :: "string list \<Rightarrow> u32" where
  "firstUint vals =
     (case List.map_filter (\<lambda>v. ParseUint 32 (TrimSpace v)) vals of [] \<Rightarrow> 0 | n # _ \<Rightarrow> of_nat n)"

definition corazaVhostIDFromHeaders :: "header \<Rightarrow> u32" where
  "corazaVhostIDFromHeaders headers =
     (case find (\<lambda>(k, _). equalFold k corazaVhostHeader) headers of
        None \<Rightarrow> 0
      | Some (_, vals) \<Rightarrow> firstUint vals)"

fun exemptLoop :: "string option \<Rightarrow> header \<Rightarrow> bool" where
  "exemptLoop marker [] = (marker = Some ''true'')"
| "exemptLoop marker ((name, values) # hs) =
     (if \<not> equalFold name ''X-Apx-L7-Header-Exempt'' then exemptLoop marker hs
      else if length values \<noteq> 1 \<or> marker \<noteq> None then False
      else exemptLoop (Some (hd values)) hs)"

definition corazaDefenseExemptFromHeaders :: "header \<Rightarrow> bool" where
  "corazaDefenseExemptFromHeaders headers = exemptLoop None headers"

section \<open>Private text\<close>

definition privateCorazaURI :: "(string \<Rightarrow> string) \<Rightarrow> managedHeaderState option \<Rightarrow> int \<Rightarrow> string \<Rightarrow> string" where
  "privateCorazaURI unesc state version uri =
     (if uri = [] then []
      else case state of
             None \<Rightarrow> CHR ''/'' # managedHeaderMaskedURLPart
           | Some st \<Rightarrow>
               (case ms_policy st of
                  None \<Rightarrow> CHR ''/'' # managedHeaderMaskedURLPart
                | Some p \<Rightarrow> redactURI unesc p (urlScanWindow p uri corazaRequestURIMaxBytes True)
                              (version < 0 \<or> ms_masked st)))"

definition privateCorazaText :: "(string \<Rightarrow> string) \<Rightarrow> managedHeaderState option \<Rightarrow> int \<Rightarrow> string \<Rightarrow> string" where
  "privateCorazaText unesc state version text =
     (if text = [] then []
      else case state of
             None \<Rightarrow> managedHeaderMaskedText
           | Some st \<Rightarrow>
               if version \<ge> 0 \<and> redactText unesc st text \<noteq> [] then text
               else (case ms_policy st of None \<Rightarrow> managedHeaderMaskedText | Some p \<Rightarrow> mp_maskedText p))"

section \<open>The events\<close>

text \<open>What the request part of the audit log contributes.\<close>

record corazaReqFields =
  rf_method :: string
  rf_uri :: string
  rf_vhostID :: u32
  rf_defenseExempt :: bool
  rf_evidence :: defenseEvidence

definition noEvidence :: defenseEvidence where
  "noEvidence = \<lparr>de_HTTP = False, de_CorazaAll = False, de_CorazaRuleIDs = []\<rparr>"

definition requestFields ::
    "(string \<Rightarrow> string) \<Rightarrow> managedHeaderState option \<Rightarrow> bool \<Rightarrow> corazaTxView \<Rightarrow> corazaReqFields" where
  "requestFields unesc state bound tx =
     (let v2 = corazaTransactionEvidenceVersion tx;
          privacyVersion = corazaTransactionManagedPrivacyVersion tx;
          private = (privacyVersion \<noteq> 0 \<or> bound)
      in case tv_Request tx of
           None \<Rightarrow> \<lparr>rf_method = [], rf_uri = [], rf_vhostID = 0, rf_defenseExempt = False, rf_evidence = noEvidence\<rparr>
         | Some req \<Rightarrow>
             \<lparr>rf_method = ownedTruncate (rv_Method req) corazaRequestMethodMaxBytes,
              rf_uri = ownedTruncate (if private then privateCorazaURI unesc state privacyVersion (rv_URI req)
                                      else rv_URI req) corazaRequestURIMaxBytes,
              rf_vhostID = corazaVhostIDFromHeaders (rv_Headers req),
              rf_defenseExempt = (v2 = 0 \<and> corazaTransactionSupportsExemption tx
                                  \<and> corazaDefenseExemptFromHeaders (rv_Headers req)),
              rf_evidence = (if v2 = 2
                             then (case defenseEvidenceFromHeaders (rv_Headers req) of
                                     None \<Rightarrow> noEvidence | Some e \<Rightarrow> e)
                             else noEvidence)\<rparr>)"

definition corazaEvent ::
    "(string \<Rightarrow> string) \<Rightarrow> managedHeaderState option \<Rightarrow> bool \<Rightarrow> corazaTxView \<Rightarrow> corazaMsgData \<Rightarrow> corazaDetection" where
  "corazaEvent unesc state bound tx d =
     (let privacyVersion = corazaTransactionManagedPrivacyVersion tx;
          private = (privacyVersion \<noteq> 0 \<or> bound);
          f = requestFields unesc state bound tx;
          rid = of_int (nonNegInt (mv_ID d));
          hide = (\<lambda>text. if private then privateCorazaText unesc state privacyVersion text else text)
      in \<lparr>cd_TsUnixSec = corazaUnixNanoToSec (tv_UnixTimestamp tx), cd_VhostID = rf_vhostID f,
          cd_RuleID = rid, cd_Severity = corazaSeverityLabel (mv_Severity d),
          cd_RuleMsg = truncateBytes (hide (mv_Msg d)) corazaRuleMsgMaxBytes, cd_Tags = mv_Tags d,
          cd_TxID = tv_ID tx, cd_RequestURI = rf_uri f, cd_RequestMethod = rf_method f,
          cd_RequestHost = ownedTruncate (tv_ServerID tx) corazaRequestHostMaxBytes, cd_ClientIP = tv_ClientIP tx,
          cd_MatchData = ownedTruncate (hide (mv_Data d)) corazaMatchDataMaxBytes,
          cd_WasBlocked = tv_IsInterrupted tx,
          cd_DefenseExempt = (rf_defenseExempt f \<or> corazaExempt (rf_evidence f) rid)\<rparr>)"

text \<open>\<open>lookup\<close> is the result of the privacy registry for the transaction's id.\<close>

definition buildCorazaEvents ::
    "(string \<Rightarrow> string) \<Rightarrow> (string \<Rightarrow> managedHeaderState option \<times> bool) \<Rightarrow> corazaAuditView option
     \<Rightarrow> corazaDetection list" where
  "buildCorazaEvents unesc lookup al =
     (case Option.bind al av_Transaction of
        None \<Rightarrow> []
      | Some tx \<Rightarrow>
          (case lookup (tv_ID tx) of (state, bound) \<Rightarrow>
             map (corazaEvent unesc state bound tx)
               (List.map_filter (\<lambda>m. Option.bind m (\<lambda>d. d)) (av_Messages (the al)))))"

definition corazaWrite ::
    "(string \<Rightarrow> string) \<Rightarrow> (string \<Rightarrow> managedHeaderState option \<times> bool) \<Rightarrow> int \<Rightarrow> corazaAuditView option
     \<Rightarrow> corazaTrack \<times> memGovernor option \<Rightarrow> corazaTrack \<times> memGovernor option" where
  "corazaWrite unesc lookup maxEvents al st =
     (case al of
        None \<Rightarrow> st
      | Some a \<Rightarrow> fold (RecordCorazaDetection maxEvents) (buildCorazaEvents unesc lookup (Some a)) st)"

section \<open>The bridge the WAF module uses\<close>

text \<open>What \<open>Bind\<close> registers: the request's state, or the fail-closed one, after a look at the Headers.\<close>

definition bridgeState ::
    "(string \<Rightarrow> string) \<Rightarrow> managedHeaderState option \<Rightarrow> header \<Rightarrow> managedHeaderState" where
  "bridgeState unesc privacy headers =
     observeHeaders unesc headers (case privacy of None \<Rightarrow> failClosedManagedHeaderState | Some s \<Rightarrow> s)"

definition bridgeRedact ::
    "(string \<Rightarrow> string) \<Rightarrow> (string \<Rightarrow> managedHeaderState option \<times> bool) \<Rightarrow> string \<Rightarrow> string \<Rightarrow> string" where
  "bridgeRedact unesc lookup key text =
     (case fst (lookup key) of None \<Rightarrow> [] | Some st \<Rightarrow> redactText unesc st text)"

definition bridgeBound :: "(string \<Rightarrow> managedHeaderState option \<times> bool) \<Rightarrow> string \<Rightarrow> bool" where
  "bridgeBound lookup key = snd (lookup key)"

end
