(* ===== verification/Coraza_Props.thy ===== *)
theory Coraza_Props
  imports Coraza_Writer
begin

text \<open>
  No managed value of at least eight bytes reaches the WAF telemetry of a private transaction,
  and every field keeps its width.
\<close>

section \<open>Texts without a managed value\<close>

definition clean :: "string set \<Rightarrow> string \<Rightarrow> bool" where
  "clean V t = (\<forall>v \<in> V. longValue v \<longrightarrow> \<not> sublist v (foldASCII t))"

lemma clean_find: "policy_ok N V U p \<Longrightarrow> \<not> findPattern (mp_contain p) t \<Longrightarrow> clean V t"
  by (auto simp: clean_def contain_iff)

lemma clean_carries: "policy_ok N V U p \<Longrightarrow> \<not> urlTextCarries unesc p t all \<Longrightarrow> clean V t"
  using carries_now [of p t unesc all] by (auto intro: clean_find)

lemma clean_sublist: "clean V t \<Longrightarrow> sublist s t \<Longrightarrow> clean V s"
  unfolding clean_def using sublist_fold sublist_order.order.trans by blast

lemma clean_prefix: "clean V t \<Longrightarrow> prefix s t \<Longrightarrow> clean V s"
  by (rule clean_sublist) (auto intro: prefix_imp_sublist)

lemma clean_truncate: "clean V t \<Longrightarrow> clean V (truncateBytes t n)" "clean V t \<Longrightarrow> clean V (ownedTruncate t n)"
  by (auto simp: ownedTruncate_eq intro: clean_prefix truncateBytes_prefix)

lemma clean_Nil [simp]: "clean V []"
  by (auto simp: clean_def longValue_def managedHeaderContainMinBytes_def)

text \<open>A separator that no value holds keeps two clean texts clean.\<close>

lemma sublist_separated:
  assumes "sublist v (a @ c # b)" and "c \<notin> set v"
  shows "sublist v a \<or> sublist v b"
  using assms(1)
proof (induction a)
  case Nil
  then have "prefix v (c # b) \<or> sublist v b" by (simp add: sublist_Cons_right)
  then show ?case using assms(2) by (cases v) auto
next
  case (Cons x a)
  then have "prefix v (x # a @ c # b) \<or> sublist v (a @ c # b)" by (simp add: sublist_Cons_right)
  moreover have "prefix v (x # a)" if pre: "prefix v ((x # a) @ c # b)"
  proof (rule ccontr)
    assume "\<not> prefix v (x # a)"
    with pre obtain us where "v = (x # a) @ us" "prefix us (c # b)" unfolding prefix_append by blast
    with \<open>\<not> prefix v (x # a)\<close> have "c \<in> set v" by (cases us) auto
    with assms(2) show False by simp
  qed
  ultimately show ?case using Cons.IH by (auto simp: sublist_Cons_right)
qed

lemma clean_join:
  assumes "clean V a" and "clean V b" and "\<forall>v \<in> V. CHR ''?'' \<notin> set v"
  shows "clean V (a @ ''?'' @ b)"
  unfolding clean_def
proof (intro ballI impI notI)
  fix v
  assume v: "v \<in> V" "longValue v" "sublist v (foldASCII (a @ ''?'' @ b))"
  have "foldByte (CHR ''?'') = CHR ''?''" by (simp add: foldByte_def is_upper_def)
  with v(3) have "sublist v (foldASCII a @ CHR ''?'' # foldASCII b)" by simp
  from sublist_separated [OF this] assms(3) v(1) have "sublist v (foldASCII a) \<or> sublist v (foldASCII b)" by blast
  with assms(1,2) v(1,2) show False by (auto simp: clean_def)
qed

section \<open>The markers\<close>

text \<open>
  Values that the fallback marker of a path cannot spell: a value may not be the marker behind a
  slash.
\<close>

definition plain_values :: "string set \<Rightarrow> bool" where
  "plain_values V = (\<forall>v \<in> V. CHR ''?'' \<notin> set v \<and> v \<noteq> ''/[masked'' \<and> v \<noteq> ''/[masked]'')"

lemma pickMarker_in: "pickMarker carries ms \<in> insert [] (set ms)"
  by (induction ms) auto

lemma maskedURLPart_cases:
  "mp_maskedURLPart (compileManagedHeaderPolicy unesc cs) \<in> {''[masked]'', ''[*]'', ''-'', []}"
  using pickMarker_in [of _ "[managedHeaderMaskedURLPart, ''[*]'', ''-'', []]"]
  by (auto simp: compileManagedHeaderPolicy_def finishPolicy_def Let_def managedHeaderMaskedURLPart_def
      simp del: pickMarker.simps)

lemma clean_slash:
  assumes "plain_values V" and "m \<in> {''[masked]'', ''[*]'', ''-'', []}" and "clean V m"
  shows "clean V (CHR ''/'' # m)"
  unfolding clean_def
proof (intro ballI impI notI)
  fix v
  assume v: "v \<in> V" "longValue v" "sublist v (foldASCII (CHR ''/'' # m))"
  have "foldByte (CHR ''/'') = CHR ''/''" by (simp add: foldByte_def is_upper_def)
  with v(3) have "prefix v (CHR ''/'' # foldASCII m) \<or> sublist v (foldASCII m)" by (simp add: sublist_Cons_right)
  with assms(3) v(1,2) have "prefix v (CHR ''/'' # foldASCII m)" by (auto simp: clean_def)
  moreover have "8 \<le> length v" using v(2) by (simp add: longValue_def managedHeaderContainMinBytes_def)
  moreover have "foldASCII m = m" using assms(2) by (auto simp: foldASCII_def foldByte_def is_upper_def)
  ultimately have "prefix v ''/[masked]''" using assms(2) prefix_length_le [of v "CHR ''/'' # m"] by auto
  with \<open>8 \<le> length v\<close> have "v = ''/[masked'' \<or> v = ''/[masked]''" by (auto simp: prefix_Cons)
  with assms(1) v(1) show False by (auto simp: plain_values_def)
qed

section \<open>Redaction is clean\<close>

lemma compiled_question:
  "policy_ok N V U p \<Longrightarrow> plain_values V \<Longrightarrow> \<not> mp_question p"
  by (auto simp: policy_ok_def plain_values_def)

lemma redactURI_clean:
  assumes "policy_ok N V U p" and "plain_values V"
    and m: "mp_maskedURLPart p \<in> {''[masked]'', ''[*]'', ''-'', []}" "clean V (mp_maskedURLPart p)"
  shows "clean V (redactURI unesc p uri all)"
proof -
  obtain path query hasQuery where cut: "cutOn (CHR ''?'') uri = (path, query, hasQuery)" by (cases "cutOn (CHR ''?'') uri") auto
  have path: "clean V (redactURLPath unesc p path all)"
    using redactURLPath_clean [of unesc p path all] clean_carries [OF assms(1)] clean_slash [OF assms(2) m] by metis
  have "clean V (redactURLParams unesc p query False)"
    using redactURLParams_clean [of unesc p query False] clean_carries [OF assms(1)] m(2) by (metis clean_Nil)
  then have query: "clean V (redactURLQuery unesc p query all)" using m(2) by (simp add: redactURLQuery_def)
  show ?thesis
    using path query compiled_question [OF assms(1,2)] clean_join [OF path query] assms(2)
    by (auto simp: redactURI_def cut redactURLTarget_def Let_def plain_values_def)
qed

lemma privateText_clean:
  assumes "policy_ok N V U p" and "ms_policy st = Some p" and "clean V (mp_maskedText p)"
  shows "clean V (privateCorazaText unesc (Some st) version s)"
proof (cases "s = []")
  case False
  have "clean V s" if "redactText unesc st s \<noteq> []"
    using that assms(2) clean_carries [OF assms(1)] by (auto simp: redactText_keeps)
  with assms(2,3) show ?thesis by (simp add: privateCorazaText_def)
qed (simp add: privateCorazaText_def)

text \<open>The whole detection of a private transaction.\<close>

lemma private_event_clean:
  assumes pairs: "\<forall>c \<in> set cs. pair_ok c" and p: "p = compileManagedHeaderPolicy unesc cs"
    and plain: "plain_values (foldedValue ` set cs)"
    and st: "ms_policy st = Some p" and hid: "corazaTransactionManagedPrivacyVersion tx \<noteq> 0 \<or> bound"
  shows "clean (foldedValue ` set cs) (cd_RuleMsg (corazaEvent unesc (Some st) bound tx d))
    \<and> clean (foldedValue ` set cs) (cd_MatchData (corazaEvent unesc (Some st) bound tx d))
    \<and> clean (foldedValue ` set cs) (cd_RequestURI (corazaEvent unesc (Some st) bound tx d))"
proof -
  let ?V = "foldedValue ` set cs"
  have ok: "policy_ok (foldedName ` set cs) ?V (uaValues (set cs)) p"
    unfolding p by (rule compile_ok [OF pairs])
  have url: "clean ?V (mp_maskedURLPart p)"
    using marker_safe(1) [OF p] clean_carries [OF ok] by (metis clean_Nil)
  have mtext: "clean ?V (mp_maskedText p)"
    using marker_safe(2) [OF p] clean_find [OF ok] by (metis clean_Nil)
  note cleaned = privateText_clean [OF ok st mtext]
  have "mp_maskedURLPart p \<in> {''[masked]'', ''[*]'', ''-'', []}" unfolding p by (rule maskedURLPart_cases)
  note redact = redactURI_clean [OF ok plain this url]
  have "clean ?V (rf_uri (requestFields unesc (Some st) bound tx))"
    using hid st redact
    by (auto simp: requestFields_def Let_def privateCorazaURI_def intro: clean_truncate split: option.splits)
  with hid cleaned show ?thesis by (auto simp: corazaEvent_def Let_def intro: clean_truncate)
qed

section \<open>Widths\<close>

lemma event_widths:
  "length (cd_RuleMsg (corazaEvent unesc st bound tx d)) \<le> 256
   \<and> length (cd_MatchData (corazaEvent unesc st bound tx d)) \<le> 512
   \<and> length (cd_RequestURI (corazaEvent unesc st bound tx d)) \<le> 2048
   \<and> length (cd_RequestHost (corazaEvent unesc st bound tx d)) \<le> 255
   \<and> length (cd_RequestMethod (corazaEvent unesc st bound tx d)) \<le> 32"
proof -
  have t: "length (ownedTruncate s n) \<le> n" "length (truncateBytes s n) \<le> n" for s n
    using truncateBytes_length by (simp_all add: ownedTruncate_eq)
  show ?thesis
    using t(1) [of _ 512] t(2) [of _ 256] t(1) [of _ 2048] t(1) [of _ 255] t(1) [of _ 32]
    by (auto simp: corazaEvent_def requestFields_def Let_def corazaRuleMsgMaxBytes_def corazaMatchDataMaxBytes_def
        corazaRequestURIMaxBytes_def corazaRequestHostMaxBytes_def corazaRequestMethodMaxBytes_def split: option.splits)
qed

section \<open>A transaction without a state\<close>

text \<open>An id that is unbound in a private transaction, or bound twice, ships fixed texts only.\<close>

lemma closed_event:
  assumes "corazaTransactionManagedPrivacyVersion tx \<noteq> 0 \<or> bound"
  shows "cd_RuleMsg (corazaEvent unesc None bound tx d) \<in> {[], truncateBytes managedHeaderMaskedText 256}
    \<and> cd_MatchData (corazaEvent unesc None bound tx d) \<in> {[], truncateBytes managedHeaderMaskedText 512}
    \<and> cd_RequestURI (corazaEvent unesc None bound tx d) \<in> {[], truncateBytes (CHR ''/'' # managedHeaderMaskedURLPart) 2048}"
proof -
  have "truncateBytes [] n = []" for n using truncateBytes_prefix [of "[]" n] by simp
  with assms show ?thesis
    by (auto simp: corazaEvent_def requestFields_def privateCorazaURI_def privateCorazaText_def Let_def ownedTruncate_eq
        corazaRuleMsgMaxBytes_def corazaMatchDataMaxBytes_def corazaRequestURIMaxBytes_def split: option.splits)
qed

lemma events_of_tx:
  assumes "av_Transaction al = Some tx" and "ev \<in> set (buildCorazaEvents unesc lookup (Some al))"
  obtains d where "ev = corazaEvent unesc (fst (lookup (tv_ID tx))) (snd (lookup (tv_ID tx))) tx d"
  using assms by (cases "lookup (tv_ID tx)") (auto simp: buildCorazaEvents_def)

end
