(* ===== verification/L7_Recorder.thy ===== *)
theory L7_Recorder
  imports Rows Go_Text "HOL-Library.Signed_Division"
begin

text \<open>
  The per-vhost-fair path recorder (l7\_recorders.go): sixteen shards of top-k sketches, one
  sketch per admitted vhost, first come first served.  The sketch is a library type: \<open>mk\<close> is
  its constructor, \<open>incr\<close> its \<open>Incr\<close> and \<open>listing\<close> its \<open>SortedSlice\<close>.
\<close>

section \<open>State and operations\<close>

definition l7ShardCount :: nat where "l7ShardCount = 16"

record 's pvfShard =
  pv_vhosts :: "(u32, 's) gomap"
  pv_overflow :: u64

record 's perVhostFair =
  pf_shards :: "'s pvfShard list"
  pf_k :: int
  pf_perShardN :: int
  pf_width :: int
  pf_depth :: int

record l7PathRow =
  lp_Key :: L7PathKey
  lp_Count :: u64

definition newPerVhostFair :: "int \<Rightarrow> int \<Rightarrow> int \<Rightarrow> int \<Rightarrow> 's perVhostFair" where
  "newPerVhostFair trackedVhosts k width depth =
     (let n = (trackedVhosts + int l7ShardCount - 1) sdiv int l7ShardCount
      in \<lparr>pf_shards = replicate l7ShardCount \<lparr>pv_vhosts = [], pv_overflow = 0\<rparr>,
          pf_k = k, pf_perShardN = (if n < 1 then 1 else n), pf_width = width, pf_depth = depth\<rparr>)"

definition newSketch :: "(int \<Rightarrow> (int \<times> int) option \<Rightarrow> 's) \<Rightarrow> 's perVhostFair \<Rightarrow> 's" where
  "newSketch mk p =
     (if pf_width p > 0 \<and> pf_depth p > 0 then mk (pf_k p) (Some (pf_width p, pf_depth p))
      else mk (pf_k p) None)"

definition combineItem :: "string \<Rightarrow> u8 \<Rightarrow> string" where
  "combineItem pathBucket statusBucket = pathBucket @ [chr 0, chr (unat statusBucket)]"

definition recordPath ::
    "(int \<Rightarrow> (int \<times> int) option \<Rightarrow> 's) \<Rightarrow> (string \<Rightarrow> 's \<Rightarrow> 's) \<Rightarrow> u32 \<Rightarrow> string \<Rightarrow> u8
     \<Rightarrow> 's perVhostFair \<Rightarrow> 's perVhostFair" where
  "recordPath mk incr vhostID pathBucket statusBucket p =
     (let i = unat vhostID mod l7ShardCount; sh = pf_shards p ! i;
          item = combineItem pathBucket statusBucket;
          put = (\<lambda>sh'. p\<lparr>pf_shards := (pf_shards p)[i := sh']\<rparr>)
      in case map_of (pv_vhosts sh) vhostID of
           Some sk \<Rightarrow> put (sh\<lparr>pv_vhosts := mput vhostID (incr item sk) (pv_vhosts sh)\<rparr>)
         | None \<Rightarrow>
             if int (length (pv_vhosts sh)) < pf_perShardN p
             then put (sh\<lparr>pv_vhosts := mput vhostID (incr item (newSketch mk p)) (pv_vhosts sh)\<rparr>)
             else put (sh\<lparr>pv_overflow := pv_overflow sh + 1\<rparr>))"

text \<open>One item of a sketch as a row, or nothing for a zero count or a malformed item.\<close>

definition pathRowOf :: "u32 \<Rightarrow> u32 \<Rightarrow> string \<times> u32 \<Rightarrow> l7PathRow list" where
  "pathRowOf drainMin vhostID it =
     (case it of (item, count) \<Rightarrow>
        if count = 0 then []
        else case indexByte item (chr 0) of
               None \<Rightarrow> []
             | Some idx \<Rightarrow>
                 if idx + 1 \<ge> length item then []
                 else [\<lparr>lp_Key = \<lparr>pk_TsUnixMin = drainMin, pk_VhostID = vhostID,
                                  pk_PathBucket = take idx item,
                                  pk_StatusBucket = of_nat (byte (item ! (idx + 1)))\<rparr>,
                        lp_Count = ucast count\<rparr>])"

definition shardRows :: "('s \<Rightarrow> (string \<times> u32) list) \<Rightarrow> u32 \<Rightarrow> 's pvfShard \<Rightarrow> l7PathRow list" where
  "shardRows listing drainMin sh =
     concat (map (\<lambda>(vhostID, sk). concat (map (pathRowOf drainMin vhostID) (listing sk))) (pv_vhosts sh))"

definition drainPaths ::
    "('s \<Rightarrow> (string \<times> u32) list) \<Rightarrow> u32 \<Rightarrow> 's perVhostFair \<Rightarrow> l7PathRow list \<times> u64 \<times> 's perVhostFair" where
  "drainPaths listing drainMin p =
     (concat (map (shardRows listing drainMin) (pf_shards p)),
      sum_list (map pv_overflow (pf_shards p)),
      p\<lparr>pf_shards := map (\<lambda>sh. sh\<lparr>pv_vhosts := [], pv_overflow := 0\<rparr>) (pf_shards p)\<rparr>)"

section \<open>What the rows say\<close>

text \<open>A path bucket without a NUL byte comes back from the item it was packed into.\<close>

lemma pathRowOf_combine:
  assumes "chr 0 \<notin> set pb"
  shows "pathRowOf m v (combineItem pb sb, c) =
    (if c = 0 then []
     else [\<lparr>lp_Key = \<lparr>pk_TsUnixMin = m, pk_VhostID = v, pk_PathBucket = pb, pk_StatusBucket = sb\<rparr>,
            lp_Count = ucast c\<rparr>])"
proof -
  have "unat sb < 256" using unsigned_less [of sb, where ?'a = nat] by simp
  then have "of_nat (byte (chr (unat sb))) = sb" by simp
  moreover have "indexByte (combineItem pb sb) (chr 0) = Some (length pb)"
    using indexByte_append_hit [OF assms] by (simp add: combineItem_def)
  ultimately show ?thesis by (simp add: pathRowOf_def combineItem_def nth_append)
qed

text \<open>
  What is relied on of the sketch: a fresh one is empty, and \<open>Incr\<close> adds at most its item to
  the items listed.
\<close>

definition sketchItems :: "('s \<Rightarrow> (string \<times> u32) list) \<Rightarrow> 's \<Rightarrow> string set" where
  "sketchItems listing sk = fst ` set (listing sk)"

definition sketch_lists ::
    "(int \<Rightarrow> (int \<times> int) option \<Rightarrow> 's) \<Rightarrow> (string \<Rightarrow> 's \<Rightarrow> 's) \<Rightarrow> ('s \<Rightarrow> (string \<times> u32) list) \<Rightarrow> bool" where
  "sketch_lists mk incr listing =
     ((\<forall>k d. listing (mk k d) = []) \<and>
      (\<forall>x sk. sketchItems listing (incr x sk) \<subseteq> insert x (sketchItems listing sk)))"

type_synonym pathRequest = "u32 \<times> string \<times> u8"

definition recordPaths ::
    "(int \<Rightarrow> (int \<times> int) option \<Rightarrow> 's) \<Rightarrow> (string \<Rightarrow> 's \<Rightarrow> 's) \<Rightarrow> pathRequest list \<Rightarrow> 's perVhostFair
     \<Rightarrow> 's perVhostFair" where
  "recordPaths mk incr reqs p = fold (\<lambda>(v, pb, sb). recordPath mk incr v pb sb) reqs p"

text \<open>Every shard keeps its cap, its own vhosts, and only items that were requested.\<close>

definition shard_ok :: "('s \<Rightarrow> (string \<times> u32) list) \<Rightarrow> pathRequest set \<Rightarrow> int \<Rightarrow> nat \<Rightarrow> 's pvfShard \<Rightarrow> bool" where
  "shard_ok listing reqs n i sh =
     (distinct_keys (pv_vhosts sh) \<and> int (length (pv_vhosts sh)) \<le> n \<and>
      (\<forall>(v, sk) \<in> set (pv_vhosts sh). unat v mod l7ShardCount = i \<and>
         sketchItems listing sk \<subseteq> {combineItem pb sb | pb sb. (v, pb, sb) \<in> reqs}))"

definition paths_ok :: "('s \<Rightarrow> (string \<times> u32) list) \<Rightarrow> pathRequest set \<Rightarrow> 's perVhostFair \<Rightarrow> bool" where
  "paths_ok listing reqs p =
     (length (pf_shards p) = l7ShardCount \<and> 1 \<le> pf_perShardN p \<and>
      (\<forall>i < l7ShardCount. shard_ok listing reqs (pf_perShardN p) i (pf_shards p ! i)))"

lemma paths_ok_new: "paths_ok listing {} (newPerVhostFair n k w d)"
  by (auto simp: paths_ok_def newPerVhostFair_def Let_def shard_ok_def)

lemma img_snd_keys: "(v, sk) \<in> set m \<Longrightarrow> v \<in> keys m"
  by force

lemma shard_ok_mono: "shard_ok listing A n i sh \<Longrightarrow> A \<subseteq> B \<Longrightarrow> shard_ok listing B n i sh"
  unfolding shard_ok_def by blast

lemma shard_ok_put:
  assumes "shard_ok listing A n i sh" and "unat v mod l7ShardCount = i"
    and "v \<in> keys (pv_vhosts sh) \<or> int (length (pv_vhosts sh)) < n"
    and "sketchItems listing sk \<subseteq> {combineItem pb sb | pb sb. (v, pb, sb) \<in> A}"
  shows "shard_ok listing A n i (sh\<lparr>pv_vhosts := mput v sk (pv_vhosts sh)\<rparr>)"
proof -
  have each: "unat w mod l7ShardCount = i \<and> sketchItems listing x \<subseteq> {combineItem pb sb | pb sb. (w, pb, sb) \<in> A}"
    if "(w, x) \<in> set (mput v sk (pv_vhosts sh))" for w x
    using set_mput [OF that] assms(1,2,4) unfolding shard_ok_def by blast
  have "int (length (mput v sk (pv_vhosts sh))) \<le> n"
    using assms(1,3) by (auto simp: shard_ok_def)
  moreover have "distinct_keys (mput v sk (pv_vhosts sh))"
    using assms(1) by (simp add: shard_ok_def distinct_mput)
  moreover have "\<forall>(w, x) \<in> set (mput v sk (pv_vhosts sh)). unat w mod l7ShardCount = i \<and>
      sketchItems listing x \<subseteq> {combineItem pb sb | pb sb. (w, pb, sb) \<in> A}"
    using each by blast
  ultimately show ?thesis by (simp add: shard_ok_def del: length_mput)
qed

lemma paths_ok_record:
  assumes "paths_ok listing A p" and "sketch_lists mk incr listing"
  shows "paths_ok listing (insert (v, pb, sb) A) (recordPath mk incr v pb sb p)"
proof -
  let ?A = "insert (v, pb, sb) A" and ?i = "unat v mod l7ShardCount"
  let ?sh = "pf_shards p ! ?i" and ?n = "pf_perShardN p" and ?it = "combineItem pb sb"
  have i: "?i < l7ShardCount" by (simp add: l7ShardCount_def)
  have ok: "\<And>i. i < l7ShardCount \<Longrightarrow> shard_ok listing ?A ?n i (pf_shards p ! i)"
    using assms(1) shard_ok_mono [of listing A _ _ _ ?A] by (auto simp: paths_ok_def)
  have len: "length (pf_shards p) = l7ShardCount" "1 \<le> ?n" using assms(1) by (auto simp: paths_ok_def)
  have put: "paths_ok listing ?A (p\<lparr>pf_shards := (pf_shards p)[?i := sh']\<rparr>)" if "shard_ok listing ?A ?n ?i sh'" for sh'
    using ok len that by (auto simp: paths_ok_def nth_list_update)
  have grow: "sketchItems listing (incr ?it sk) \<subseteq> {combineItem pb sb | pb sb. (v, pb, sb) \<in> ?A}"
    if "sketchItems listing sk \<subseteq> {combineItem pb sb | pb sb. (v, pb, sb) \<in> ?A}" for sk
    using assms(2) that unfolding sketch_lists_def by blast
  show ?thesis
  proof (cases "map_of (pv_vhosts ?sh) v")
    case None
    then have new: "sketchItems listing (newSketch mk p) = {}"
      using assms(2) by (simp add: sketch_lists_def sketchItems_def newSketch_def)
    show ?thesis
    proof (cases "int (length (pv_vhosts ?sh)) < ?n")
      case True
      have "shard_ok listing ?A ?n ?i (?sh\<lparr>pv_vhosts := mput v (incr ?it (newSketch mk p)) (pv_vhosts ?sh)\<rparr>)"
        using True new by (intro shard_ok_put ok i grow) simp_all
      from put [OF this] None True show ?thesis by (simp add: recordPath_def Let_def)
    next
      case False
      have "shard_ok listing ?A ?n ?i (?sh\<lparr>pv_overflow := pv_overflow ?sh + 1\<rparr>)"
        using ok [OF i] by (simp add: shard_ok_def)
      with None False show ?thesis by (simp add: recordPath_def Let_def put)
    qed
  next
    case (Some sk)
    then have mem: "(v, sk) \<in> set (pv_vhosts ?sh)" by (rule map_of_SomeD)
    then have "sketchItems listing sk \<subseteq> {combineItem pb sb | pb sb. (v, pb, sb) \<in> ?A}"
      using ok [OF i] unfolding shard_ok_def by blast
    then have "shard_ok listing ?A ?n ?i (?sh\<lparr>pv_vhosts := mput v (incr ?it sk) (pv_vhosts ?sh)\<rparr>)"
      using img_snd_keys [OF mem] by (intro shard_ok_put ok i grow) simp_all
    from put [OF this] Some show ?thesis by (simp add: recordPath_def Let_def)
  qed
qed

lemma paths_ok_run:
  "paths_ok listing A p \<Longrightarrow> sketch_lists mk incr listing \<Longrightarrow>
   paths_ok listing (A \<union> set reqs) (recordPaths mk incr reqs p)"
proof (induction reqs arbitrary: A p)
  case (Cons r reqs)
  obtain v pb sb where r: "r = (v, pb, sb)" by (cases r)
  have "paths_ok listing (insert (v, pb, sb) A \<union> set reqs) (recordPaths mk incr reqs (recordPath mk incr v pb sb p))"
    using Cons by (intro Cons.IH paths_ok_record)
  then show ?case by (simp add: recordPaths_def r)
qed (simp add: recordPaths_def)

text \<open>So every drained row names a request that was made to its vhost.\<close>

lemma drained_row_requested:
  assumes "paths_ok listing A p" and "\<forall>(v, pb, sb) \<in> A. chr 0 \<notin> set pb"
    and "row \<in> set (fst (drainPaths listing m p))"
  shows "pk_TsUnixMin (lp_Key row) = m \<and>
    (pk_VhostID (lp_Key row), pk_PathBucket (lp_Key row), pk_StatusBucket (lp_Key row)) \<in> A"
proof -
  from assms(3) obtain sh v sk it c where
    sh: "sh \<in> set (pf_shards p)" and v: "(v, sk) \<in> set (pv_vhosts sh)" and it: "(it, c) \<in> set (listing sk)"
    and row: "row \<in> set (pathRowOf m v (it, c))"
    by (auto simp: drainPaths_def shardRows_def)
  from sh assms(1) obtain i where "shard_ok listing A (pf_perShardN p) i sh"
    by (auto simp: paths_ok_def in_set_conv_nth)
  with v have "sketchItems listing sk \<subseteq> {combineItem pb sb | pb sb. (v, pb, sb) \<in> A}"
    unfolding shard_ok_def by blast
  moreover have "it \<in> sketchItems listing sk" using it by (force simp: sketchItems_def)
  ultimately obtain pb sb where "it = combineItem pb sb" and mem: "(v, pb, sb) \<in> A" by blast
  moreover have "chr 0 \<notin> set pb" using mem assms(2) by blast
  ultimately show ?thesis using row by (auto simp: pathRowOf_combine split: if_splits)
qed

end
