(* ===== verification/Http_Counters.thy ===== *)
theory Http_Counters
  imports Rows Settings Hashing "HOL-Library.Signed_Division"
begin

text \<open>
  The sharded HTTP counters and unique-client sets of app.go: \<open>Record\<close>, \<open>RecordUnique\<close>, the
  test accessors and the part of \<open>drainAndEncode\<close> that empties the shards.  An operation holds
  the lock of one shard, so it is one step on that shard; the two overflow counters are
  atomics.  The maps hold pointers in Go; each counter has one owner, the map, so the value is
  stored here.  The fourth field of a shard, its domain-health map, is part of the state of
  \<open>Domain_Health\<close>.
\<close>

section \<open>State\<close>

record counterShard =
  counters :: "(Key, Counter) gomap"
  uniques :: "(uniqueKey, u64 list) gomap"
  uniqueHashCount :: u64

record httpState =
  shards :: "counterShard list"
  overflow :: u64
  uniquesOverflow :: u64

definition emptyShard :: counterShard where
  "emptyShard = \<lparr>counters = [], uniques = [], uniqueHashCount = 0\<rparr>"

text \<open>What \<open>Provision\<close> builds.\<close>

definition newHttpState :: httpState where
  "newHttpState = \<lparr>shards = replicate shardCount emptyShard, overflow = 0, uniquesOverflow = 0\<rparr>"

definition setShard :: "nat \<Rightarrow> counterShard \<Rightarrow> httpState \<Rightarrow> httpState" where
  "setShard i s a = a\<lparr>shards := (shards a)[i := s]\<rparr>"

section \<open>Counters\<close>

definition addDelta :: "CounterDelta \<Rightarrow> Counter \<Rightarrow> Counter" where
  "addDelta delta c =
     c\<lparr>c_RequestCount := c_RequestCount c + 1,
       c_BytesIn := c_BytesIn c + d_BytesIn delta,
       c_BytesOut := c_BytesOut c + d_BytesOut delta,
       c_DurationUsSum := c_DurationUsSum c + d_DurationUs delta,
       c_LatBuckets :=
         (let i = d_LatBucket delta
          in if 0 \<le> i \<and> i < int HistogramBuckets
             then (c_LatBuckets c)[nat i := c_LatBuckets c ! nat i + 1] else c_LatBuckets c)\<rparr>"

definition Record :: "ingestRuntime \<Rightarrow> Key \<Rightarrow> CounterDelta \<Rightarrow> httpState \<Rightarrow> httpState" where
  "Record cfg k delta a =
     (let i = shardForKey k; s = shards a ! i;
          perShardCap = maxBuffer cfg sdiv int shardCount
      in case map_of (counters s) k of
           Some c \<Rightarrow> setShard i (s\<lparr>counters := mput k (addDelta delta c) (counters s)\<rparr>) a
         | None \<Rightarrow>
             if int (length (counters s)) \<ge> perShardCap then a\<lparr>overflow := overflow a + 1\<rparr>
             else setShard i (s\<lparr>counters := mput k (addDelta delta newCounter) (counters s)\<rparr>) a)"

section \<open>Unique clients\<close>

definition RecordUnique ::
    "ingestRuntime \<Rightarrow> string \<Rightarrow> u32 \<Rightarrow> u32 \<Rightarrow> u64 \<Rightarrow> httpState \<Rightarrow> httpState" where
  "RecordUnique cfg hashSalt tsUnixMin vhostID hash a =
     (if hashSalt = [] then a
      else
        (let k = \<lparr>uk_TsUnixMin = tsUnixMin, uk_VhostID = vhostID\<rparr>;
             i = shardForUnique tsUnixMin vhostID; s = shards a ! i;
             perShardCap = (of_int (maxUniqueHashes cfg sdiv int shardCount) :: u64)
         in case map_of (uniques s) k of
              None \<Rightarrow>
                if perShardCap \<le> uniqueHashCount s
                then a\<lparr>uniquesOverflow := uniquesOverflow a + 1\<rparr>
                else setShard i (s\<lparr>uniques := mput k [hash] (uniques s),
                                   uniqueHashCount := uniqueHashCount s + 1\<rparr>) a
            | Some hs \<Rightarrow>
                if hash \<in> set hs then a
                else if perShardCap \<le> uniqueHashCount s
                then a\<lparr>uniquesOverflow := uniquesOverflow a + 1\<rparr>
                else setShard i (s\<lparr>uniques := mput k (hs @ [hash]) (uniques s),
                                   uniqueHashCount := uniqueHashCount s + 1\<rparr>) a))"

section \<open>Accessors\<close>

definition counterFor :: "httpState \<Rightarrow> Key \<Rightarrow> Counter option" where
  "counterFor a k = map_of (counters (shards a ! shardForKey k)) k"

definition counterCount :: "httpState \<Rightarrow> nat" where
  "counterCount a = sum_list (map (length \<circ> counters) (shards a))"

definition uniqueHashTotal :: "httpState \<Rightarrow> u64" where
  "uniqueHashTotal a = sum_list (map uniqueHashCount (shards a))"

definition uniquesEmpty :: "httpState \<Rightarrow> bool" where
  "uniquesEmpty a = list_all (\<lambda>s. uniques s = []) (shards a)"

text \<open>\<open>for k, v := range m { out[k] = v }\<close>\<close>

definition mergeInto :: "('k, 'v) gomap \<Rightarrow> ('k, 'v) gomap \<Rightarrow> ('k, 'v) gomap" where
  "mergeInto m out = fold (\<lambda>(k, v). mput k v) m out"

definition countersSnapshot :: "httpState \<Rightarrow> (Key, Counter) gomap" where
  "countersSnapshot a = fold (mergeInto \<circ> counters) (shards a) []"

section \<open>Draining the shards (the first loop of \<open>drainAndEncode\<close>)\<close>

definition drainShard ::
    "counterShard \<Rightarrow> (Key, Counter) gomap \<times> (uniqueKey, u64 list) gomap \<times> counterShard list
     \<Rightarrow> (Key, Counter) gomap \<times> (uniqueKey, u64 list) gomap \<times> counterShard list" where
  "drainShard s acc =
     (case acc of (snap, uniqSnap, done) \<Rightarrow>
        if counters s = [] \<and> uniques s = [] then (snap, uniqSnap, done @ [s])
        else (mergeInto (counters s) snap, mergeInto (uniques s) uniqSnap,
              done @ [s\<lparr>counters := [], uniques := [], uniqueHashCount := 0\<rparr>]))"

definition drainShards ::
    "httpState \<Rightarrow> (Key, Counter) gomap \<times> (uniqueKey, u64 list) gomap \<times> httpState" where
  "drainShards a =
     (case fold drainShard (shards a) ([], [], []) of
        (snap, uniqSnap, ss) \<Rightarrow> (snap, uniqSnap, a\<lparr>shards := ss\<rparr>))"

section \<open>The invariant\<close>

definition shardCap :: "ingestRuntime \<Rightarrow> nat" where
  "shardCap cfg = nat (maxBuffer cfg sdiv int shardCount)"

definition counters_ok :: "ingestRuntime \<Rightarrow> nat \<Rightarrow> counterShard \<Rightarrow> bool" where
  "counters_ok cfg i s =
     (distinct_keys (counters s) \<and> length (counters s) \<le> shardCap cfg
      \<and> (\<forall>(k, c) \<in> set (counters s).
           shardForKey k = i \<and> length (c_LatBuckets c) = HistogramBuckets))"

definition http_ok :: "ingestRuntime \<Rightarrow> httpState \<Rightarrow> bool" where
  "http_ok cfg a = (length (shards a) = shardCount
     \<and> (\<forall>i < shardCount. counters_ok cfg i (shards a ! i)))"

lemma newHttpState_ok: "http_ok cfg newHttpState"
  by (simp add: http_ok_def newHttpState_def counters_ok_def emptyShard_def)

lemma addDelta_buckets [simp]: "length (c_LatBuckets (addDelta d c)) = length (c_LatBuckets c)"
  by (simp add: addDelta_def Let_def)

lemma newCounter_buckets [simp]: "length (c_LatBuckets newCounter) = HistogramBuckets"
  by (simp add: newCounter_def)

lemma http_ok_setShard:
  "http_ok cfg a \<Longrightarrow> i < shardCount \<Longrightarrow> counters_ok cfg i s \<Longrightarrow> http_ok cfg (setShard i s a)"
  by (auto simp: http_ok_def setShard_def nth_list_update)

lemma counters_ok_mput:
  assumes "counters_ok cfg i s" and "shardForKey k = i"
    and "length (c_LatBuckets c) = HistogramBuckets"
    and "k \<in> keys (counters s) \<or> length (counters s) < shardCap cfg"
  shows "counters_ok cfg i (s\<lparr>counters := mput k c (counters s)\<rparr>)"
proof -
  have "\<forall>(j, d) \<in> set (mput k c (counters s)). shardForKey j = i \<and> length (c_LatBuckets d) = HistogramBuckets"
    using assms(1-3) by (auto simp: counters_ok_def dest!: set_mput)
  then show ?thesis using assms(1,4) by (auto simp: counters_ok_def)
qed

text \<open>One lemma per outcome of \<open>Record\<close>.\<close>

lemma Record_cases:
  assumes "http_ok cfg a"
  obtains (known) c where "counterFor a k = Some c"
      "Record cfg k d a = setShard (shardForKey k) ((shards a ! shardForKey k)
         \<lparr>counters := mput k (addDelta d c) (counters (shards a ! shardForKey k))\<rparr>) a"
  | (full) "counterFor a k = None" "shardCap cfg \<le> length (counters (shards a ! shardForKey k))"
      "Record cfg k d a = a\<lparr>overflow := overflow a + 1\<rparr>"
  | (fresh) "counterFor a k = None" "length (counters (shards a ! shardForKey k)) < shardCap cfg"
      "Record cfg k d a = setShard (shardForKey k) ((shards a ! shardForKey k)
         \<lparr>counters := mput k (addDelta d newCounter) (counters (shards a ! shardForKey k))\<rparr>) a"
proof (cases "counterFor a k")
  case (Some c)
  with known show ?thesis by (simp add: Record_def Let_def counterFor_def)
next
  case None
  show ?thesis
  proof (cases "maxBuffer cfg sdiv int shardCount \<le> int (length (counters (shards a ! shardForKey k)))")
    case True
    with full None show ?thesis
      by (simp add: Record_def Let_def counterFor_def shardCap_def nat_le_iff)
  next
    case False
    with fresh None show ?thesis
      by (simp add: Record_def Let_def counterFor_def shardCap_def not_le zless_nat_eq_int_zless)
  qed
qed

theorem Record_ok:
  assumes "http_ok cfg a"
  shows "http_ok cfg (Record cfg k d a)"
proof -
  have i: "shardForKey k < shardCount" by (rule shardForKey_lt)
  then have s: "counters_ok cfg (shardForKey k) (shards a ! shardForKey k)"
    using assms by (simp add: http_ok_def)
  from assms show ?thesis
  proof (cases rule: Record_cases [of _ _ k d])
    case (known c)
    then have mem: "(k, c) \<in> set (counters (shards a ! shardForKey k))"
      by (simp add: counterFor_def map_of_SomeD)
    then have "length (c_LatBuckets c) = HistogramBuckets"
      using s unfolding counters_ok_def by blast
    with mem show ?thesis unfolding known(2)
      by (intro http_ok_setShard [OF assms i] counters_ok_mput [OF s]) (auto intro: rev_image_eqI)
  next
    case full
    then show ?thesis using assms by (simp add: http_ok_def)
  next
    case fresh
    then show ?thesis unfolding fresh(3)
      by (intro http_ok_setShard [OF assms i] counters_ok_mput [OF s]) simp_all
  qed
qed

end
