(* ===== verification/Http_Props.thy ===== *)
theory Http_Props
  imports Http_Counters
begin

text \<open>
  Correctness of the HTTP counters: \<open>Record\<close> refines adding one request to an abstract map
  from keys to counters, every request is in a counter or in the overflow count, the buffers
  respect their caps, and a drain hands over exactly what the shards held.
\<close>

section \<open>Refinement of a map of counters\<close>

text \<open>The abstract operation: add the request unless the key is new and its shard is full.\<close>

definition specRecord :: "bool \<Rightarrow> Key \<Rightarrow> CounterDelta \<Rightarrow> (Key \<Rightarrow> Counter option) \<Rightarrow> (Key \<Rightarrow> Counter option)" where
  "specRecord full k d m =
     (case m k of
        Some c \<Rightarrow> m(k \<mapsto> addDelta d c)
      | None \<Rightarrow> if full then m else m(k \<mapsto> addDelta d newCounter))"

abbreviation shardFull :: "ingestRuntime \<Rightarrow> httpState \<Rightarrow> Key \<Rightarrow> bool" where
  "shardFull cfg a k \<equiv> shardCap cfg \<le> length (counters (shards a ! shardForKey k))"

lemma counterFor_setShard:
  assumes "length (shards a) = shardCount"
  shows "counterFor (setShard i (s\<lparr>counters := m\<rparr>) a) j
         = (if shardForKey j = i then map_of m j else counterFor a j)"
  using assms shardForKey_lt [of j] by (auto simp: counterFor_def setShard_def nth_list_update)

theorem Record_refines:
  assumes "http_ok cfg a"
  shows "counterFor (Record cfg k d a) = specRecord (shardFull cfg a k) k d (counterFor a)"
proof -
  have len: "length (shards a) = shardCount" using assms by (simp add: http_ok_def)
  from assms show ?thesis
  proof (cases rule: Record_cases [of _ _ k d])
    case (known c)
    then show ?thesis unfolding known(2) fun_eq_iff counterFor_setShard [OF len] specRecord_def
      by (auto simp: counterFor_def)
  next
    case full
    have "counterFor (a\<lparr>overflow := overflow a + 1\<rparr>) = counterFor a"
      by (simp add: fun_eq_iff counterFor_def)
    with full show ?thesis by (simp add: specRecord_def)
  next
    case fresh
    then show ?thesis unfolding fresh(3) fun_eq_iff counterFor_setShard [OF len] specRecord_def
      by (auto simp: counterFor_def)
  qed
qed

section \<open>Every request is counted once\<close>

definition requestTotal :: "httpState \<Rightarrow> u64" where
  "requestTotal a = sum_list (map (\<lambda>s. weigh c_RequestCount (counters s)) (shards a))"

lemma addDelta_count [simp]: "c_RequestCount (addDelta d c) = c_RequestCount c + 1"
  by (simp add: addDelta_def)

lemma newCounter_count [simp]: "c_RequestCount newCounter = 0"
  by (simp add: newCounter_def)

lemma requestTotal_setShard:
  assumes "length (shards a) = shardCount" and "i < shardCount"
  shows "requestTotal (setShard i s a) = requestTotal a
    - weigh c_RequestCount (counters (shards a ! i)) + weigh c_RequestCount (counters s)"
  using assms by (simp add: requestTotal_def setShard_def sum_list_map_update)

lemma overflow_setShard [simp]: "overflow (setShard i s a) = overflow a"
  by (simp add: setShard_def)

lemma Record_total:
  assumes "http_ok cfg a"
  shows "requestTotal (Record cfg k d a) + overflow (Record cfg k d a)
         = requestTotal a + overflow a + 1"
proof -
  have len: "length (shards a) = shardCount" using assms by (simp add: http_ok_def)
  have dist: "distinct_keys (counters (shards a ! shardForKey k))"
    using assms shardForKey_lt [of k] by (simp add: http_ok_def counters_ok_def)
  note sets = requestTotal_setShard [OF len shardForKey_lt] weigh_mput [OF dist]
  from assms show ?thesis
  proof (cases rule: Record_cases [of _ _ k d])
    case (known c)
    then show ?thesis by (simp add: sets counterFor_def)
  next
    case full
    then show ?thesis by (simp add: requestTotal_def)
  next
    case fresh
    then show ?thesis by (simp add: sets counterFor_def)
  qed
qed

abbreviation records :: "ingestRuntime \<Rightarrow> (Key \<times> CounterDelta) list \<Rightarrow> httpState \<Rightarrow> httpState" where
  "records cfg \<equiv> fold (\<lambda>(k, d). Record cfg k d)"

lemma records_ok: "http_ok cfg a \<Longrightarrow> http_ok cfg (records cfg rs a)"
  by (induction rs arbitrary: a) (auto simp: Record_ok)

lemma records_total:
  "http_ok cfg a \<Longrightarrow> requestTotal (records cfg rs a) + overflow (records cfg rs a)
     = requestTotal a + overflow a + of_nat (length rs)"
proof (induction rs arbitrary: a)
  case Nil
  then show ?case by simp
next
  case (Cons r rs)
  obtain k d where r: "r = (k, d)" by (cases r)
  show ?case
    using Cons.IH [OF Record_ok [OF Cons.prems, of k d]] Record_total [OF Cons.prems, of k d]
    by (simp add: r)
qed

section \<open>Caps\<close>

lemma sum_list_bound:
  "\<forall>x \<in> set xs. f x \<le> (b :: nat) \<Longrightarrow> sum_list (map f xs) \<le> length xs * b"
  by (induction xs) auto

lemma shardCap_total: "shardCount * shardCap cfg \<le> nat (maxBuffer cfg)"
proof (cases "0 \<le> maxBuffer cfg")
  case True
  then have "maxBuffer cfg sdiv int shardCount = maxBuffer cfg div 16"
    by (cases "maxBuffer cfg = 0") (simp_all add: shardCount_def signed_divide_int_def)
  then show ?thesis using True by (simp add: shardCap_def shardCount_def)
next
  case False
  then have "maxBuffer cfg sdiv int shardCount \<le> 0"
    by (simp add: shardCount_def signed_divide_int_def)
  then show ?thesis by (simp add: shardCap_def)
qed

theorem counterCount_bound:
  assumes "http_ok cfg a"
  shows "counterCount a \<le> nat (maxBuffer cfg)"
proof -
  have "\<forall>s \<in> set (shards a). (length \<circ> counters) s \<le> shardCap cfg"
    using assms by (auto simp: http_ok_def counters_ok_def in_set_conv_nth)
  then have "counterCount a \<le> length (shards a) * shardCap cfg"
    unfolding counterCount_def by (rule sum_list_bound)
  also have "\<dots> \<le> nat (maxBuffer cfg)"
    using assms shardCap_total by (simp add: http_ok_def)
  finally show ?thesis .
qed

section \<open>Draining\<close>

lemma mergeInto_disjoint:
  "keys m \<inter> keys out = {} \<Longrightarrow> distinct_keys m \<Longrightarrow> mergeInto m out = out @ m"
proof (induction m arbitrary: out)
  case Nil
  then show ?case by (simp add: mergeInto_def)
next
  case (Cons x m)
  obtain k v where x: "x = (k, v)" by (cases x)
  have "mput k v out = out @ [(k, v)]" using Cons.prems x by (intro mput_new) auto
  moreover have "mergeInto m (out @ [(k, v)]) = (out @ [(k, v)]) @ m"
    using Cons.prems x by (intro Cons.IH) auto
  ultimately show ?case by (simp add: mergeInto_def x)
qed

text \<open>Lists of maps whose keys are told apart by the list index.\<close>

fun partitioned :: "('k \<Rightarrow> nat) \<Rightarrow> nat \<Rightarrow> ('k, 'v) gomap list \<Rightarrow> bool" where
  "partitioned f n [] = True"
| "partitioned f n (m # ms) =
     (distinct_keys m \<and> (\<forall>k \<in> keys m. f k = n) \<and> partitioned f (Suc n) ms)"

lemma partitionedI:
  "(\<And>j. j < length ms \<Longrightarrow> distinct_keys (ms ! j) \<and> (\<forall>k \<in> keys (ms ! j). f k = n + j)) \<Longrightarrow>
   partitioned f n ms"
proof (induction ms arbitrary: n)
  case Nil
  then show ?case by simp
next
  case (Cons m ms)
  have "partitioned f (Suc n) ms"
  proof (rule Cons.IH)
    fix j assume "j < length ms"
    then show "distinct_keys (ms ! j) \<and> (\<forall>k \<in> keys (ms ! j). f k = Suc n + j)"
      using Cons.prems [of "Suc j"] by simp
  qed
  then show ?case using Cons.prems [of 0] by simp
qed

lemma fold_mergeInto:
  "partitioned f n ms \<Longrightarrow> \<forall>k \<in> keys out. f k < n \<Longrightarrow> fold mergeInto ms out = out @ concat ms"
proof (induction ms arbitrary: n out)
  case Nil
  then show ?case by simp
next
  case (Cons m ms)
  then have m: "distinct_keys m" "\<forall>k \<in> keys m. f k = n" "partitioned f (Suc n) ms"
    by simp_all
  have "keys m \<inter> keys out = {}" using m(2) Cons.prems(2) by fastforce
  then have "mergeInto m out = out @ m" using m(1) by (rule mergeInto_disjoint)
  moreover have "\<forall>k \<in> keys (out @ m). f k < Suc n" using m(2) Cons.prems(2) by fastforce
  ultimately show ?case using Cons.IH [OF m(3)] by simp
qed

lemma map_of_concat_partitioned:
  "partitioned f n ms \<Longrightarrow> map_of (concat ms) k =
     (if n \<le> f k \<and> f k < n + length ms then map_of (ms ! (f k - n)) k else None)"
proof (induction ms arbitrary: n)
  case Nil
  then show ?case by auto
next
  case (Cons m ms)
  then have m: "\<forall>k \<in> keys m. f k = n" "partitioned f (Suc n) ms" by simp_all
  show ?case
  proof (cases "f k = n")
    case True
    then have "map_of (concat ms) k = None" using Cons.IH [OF m(2)] by simp
    then show ?thesis using True
      by (simp add: map_add_def del: map_of_None_keys split: option.split)
  next
    case False
    then have "map_of m k = None" using m(1) by auto
    moreover have "n \<le> f k \<longleftrightarrow> Suc n \<le> f k" using False by auto
    moreover have "f k - n = Suc (f k - Suc n)" if "Suc n \<le> f k" using that by simp
    ultimately show ?thesis using Cons.IH [OF m(2)] by (simp add: map_add_def)
  qed
qed

definition drainedShard :: "counterShard \<Rightarrow> counterShard" where
  "drainedShard s = (if counters s = [] \<and> uniques s = [] then s
                     else s\<lparr>counters := [], uniques := [], uniqueHashCount := 0\<rparr>)"

lemma drainedShard_empty [simp]: "counters (drainedShard s) = []" "uniques (drainedShard s) = []"
  by (auto simp: drainedShard_def)

lemma fold_drainShard:
  "fold drainShard ss (snap, uq, acc)
   = (fold mergeInto (map counters ss) snap, fold mergeInto (map uniques ss) uq,
      acc @ map drainedShard ss)"
  by (induction ss arbitrary: snap uq acc)
    (auto simp: drainShard_def drainedShard_def mergeInto_def)

definition uniques_ok :: "ingestRuntime \<Rightarrow> nat \<Rightarrow> counterShard \<Rightarrow> bool" where
  "uniques_ok cfg i s =
     (distinct_keys (uniques s)
      \<and> (\<forall>(k, hs) \<in> set (uniques s).
           shardForUnique (uk_TsUnixMin k) (uk_VhostID k) = i \<and> distinct hs \<and> hs \<noteq> [])
      \<and> unat (uniqueHashCount s) = sum_list (map (length \<circ> snd) (uniques s))
      \<and> uniqueHashCount s \<le> of_int (maxUniqueHashes cfg sdiv int shardCount))"

definition all_uniques_ok :: "ingestRuntime \<Rightarrow> httpState \<Rightarrow> bool" where
  "all_uniques_ok cfg a = (length (shards a) = shardCount
     \<and> (\<forall>i < shardCount. uniques_ok cfg i (shards a ! i)))"

lemma partitioned_counters: "http_ok cfg a \<Longrightarrow> partitioned shardForKey 0 (map counters (shards a))"
  by (rule partitionedI) (fastforce simp: http_ok_def counters_ok_def)

lemma partitioned_uniques:
  "all_uniques_ok cfg a \<Longrightarrow>
   partitioned (\<lambda>k. shardForUnique (uk_TsUnixMin k) (uk_VhostID k)) 0 (map uniques (shards a))"
  by (rule partitionedI) (fastforce simp: all_uniques_ok_def uniques_ok_def)

text \<open>The snapshot is the concatenation of the shards: nothing is merged away, nothing lost.\<close>

theorem drainShards_eq:
  assumes "http_ok cfg a" and "all_uniques_ok cfg a"
  shows "drainShards a = (concat (map counters (shards a)), concat (map uniques (shards a)),
                          a\<lparr>shards := map drainedShard (shards a)\<rparr>)"
proof -
  have "fold mergeInto (map counters (shards a)) [] = concat (map counters (shards a))"
    using fold_mergeInto [OF partitioned_counters [OF assms(1)]] by simp
  moreover have "fold mergeInto (map uniques (shards a)) [] = concat (map uniques (shards a))"
    using fold_mergeInto [OF partitioned_uniques [OF assms(2)]] by simp
  ultimately show ?thesis by (simp add: drainShards_def fold_drainShard)
qed

lemma drainShards_lookup:
  assumes "http_ok cfg a" and "all_uniques_ok cfg a"
  shows "map_of (fst (drainShards a)) k = counterFor a k"
proof -
  have "length (shards a) = shardCount" using assms(1) by (simp add: http_ok_def)
  then show ?thesis
    using map_of_concat_partitioned [OF partitioned_counters [OF assms(1)], of k] shardForKey_lt [of k]
    by (simp add: drainShards_eq [OF assms] counterFor_def)
qed

lemma weigh_concat: "weigh f (concat ms) = sum_list (map (weigh f) ms)"
  by (induction ms) simp_all

lemma drainShards_total:
  assumes "http_ok cfg a" and "all_uniques_ok cfg a"
  shows "weigh c_RequestCount (fst (drainShards a)) = requestTotal a"
  by (simp add: drainShards_eq [OF assms] weigh_concat requestTotal_def o_def)

lemma drainShards_empties:
  assumes "http_ok cfg a" and "all_uniques_ok cfg a"
  shows "counterCount (snd (snd (drainShards a))) = 0" "uniquesEmpty (snd (snd (drainShards a)))"
  by (simp_all add: drainShards_eq [OF assms] counterCount_def uniquesEmpty_def o_def list_all_iff)

lemma drainedShard_ok:
  "counters_ok cfg i s \<Longrightarrow> counters_ok cfg i (drainedShard s)"
  "uniques_ok cfg i s \<Longrightarrow> uniques_ok cfg i (drainedShard s)"
  by (auto simp: counters_ok_def uniques_ok_def drainedShard_def)

lemma drainShards_ok:
  assumes "http_ok cfg a" and "all_uniques_ok cfg a"
  shows "http_ok cfg (snd (snd (drainShards a)))" "all_uniques_ok cfg (snd (snd (drainShards a)))"
  using assms drainedShard_ok
  by (simp_all add: drainShards_eq [OF assms] http_ok_def all_uniques_ok_def)

section \<open>Unique clients\<close>

definition uniquesFor :: "httpState \<Rightarrow> u32 \<Rightarrow> u32 \<Rightarrow> u64 list" where
  "uniquesFor a t v =
     (case map_of (uniques (shards a ! shardForUnique t v)) \<lparr>uk_TsUnixMin = t, uk_VhostID = v\<rparr> of
        None \<Rightarrow> [] | Some hs \<Rightarrow> hs)"

abbreviation uniqueRoom :: "ingestRuntime \<Rightarrow> httpState \<Rightarrow> u32 \<Rightarrow> u32 \<Rightarrow> bool" where
  "uniqueRoom cfg a t v \<equiv>
     uniqueHashCount (shards a ! shardForUnique t v) < of_int (maxUniqueHashes cfg sdiv int shardCount)"

lemma RecordUnique_cases:
  assumes "all_uniques_ok cfg a" and "salt \<noteq> []"
  obtains (seen) "h \<in> set (uniquesFor a t v)" "RecordUnique cfg salt t v h a = a"
  | (full) "h \<notin> set (uniquesFor a t v)" "\<not> uniqueRoom cfg a t v"
      "RecordUnique cfg salt t v h a = a\<lparr>uniquesOverflow := uniquesOverflow a + 1\<rparr>"
  | (add) "h \<notin> set (uniquesFor a t v)" "uniqueRoom cfg a t v"
      "RecordUnique cfg salt t v h a = setShard (shardForUnique t v) ((shards a ! shardForUnique t v)
         \<lparr>uniques := mput \<lparr>uk_TsUnixMin = t, uk_VhostID = v\<rparr> (uniquesFor a t v @ [h])
                      (uniques (shards a ! shardForUnique t v)),
          uniqueHashCount := uniqueHashCount (shards a ! shardForUnique t v) + 1\<rparr>) a"
proof (cases "map_of (uniques (shards a ! shardForUnique t v)) \<lparr>uk_TsUnixMin = t, uk_VhostID = v\<rparr>")
  case None
  then have "uniquesFor a t v = []" by (simp add: uniquesFor_def del: map_of_None_keys)
  then show ?thesis
    using None full add assms(2)
    by (cases "uniqueRoom cfg a t v")
      (simp_all add: RecordUnique_def Let_def not_le [symmetric] del: map_of_None_keys)
next
  case (Some hs)
  then have hs: "uniquesFor a t v = hs" by (simp add: uniquesFor_def)
  show ?thesis
  proof (cases "h \<in> set hs")
    case True
    with seen hs Some assms(2) show ?thesis by (simp add: RecordUnique_def Let_def)
  next
    case False
    with Some hs full add assms(2) show ?thesis
      by (cases "uniqueRoom cfg a t v")
        (simp_all add: RecordUnique_def Let_def not_le [symmetric])
  qed
qed

lemma uniquesFor_setShard:
  assumes "length (shards a) = shardCount"
  shows "uniquesFor (setShard (shardForUnique t v) (s\<lparr>uniques := mput \<lparr>uk_TsUnixMin = t, uk_VhostID = v\<rparr> hs
             (uniques (shards a ! shardForUnique t v)), uniqueHashCount := n\<rparr>) a) t' v'
         = (if t' = t \<and> v' = v then hs else uniquesFor a t' v')"
  using assms shardForUnique_lt [of t v] shardForUnique_lt [of t' v']
  by (auto simp: uniquesFor_def setShard_def nth_list_update)

text \<open>
  The set of a (minute, site) gains exactly the offered hash, when it is there already or the
  shard has room; no other set changes.
\<close>

theorem RecordUnique_set:
  assumes "all_uniques_ok cfg a" and "salt \<noteq> []"
  shows "set (uniquesFor (RecordUnique cfg salt t v h a) t' v') =
    (if t' = t \<and> v' = v \<and> uniqueRoom cfg a t v then insert h (set (uniquesFor a t v))
     else set (uniquesFor a t' v'))"
proof -
  have len: "length (shards a) = shardCount" using assms(1) by (simp add: all_uniques_ok_def)
  from assms show ?thesis
  proof (cases rule: RecordUnique_cases [of _ _ _ h t v])
    case seen
    then show ?thesis by auto
  next
    case full
    then show ?thesis by (simp add: uniquesFor_def)
  next
    case add
    then show ?thesis by (auto simp: uniquesFor_setShard [OF len])
  qed
qed

lemma sum_lengths_mput:
  "distinct_keys m \<Longrightarrow> map_of m k = Some hs \<Longrightarrow>
   sum_list (map (length \<circ> snd) (mput k (hs @ [h]) m)) = Suc (sum_list (map (length \<circ> snd) m))"
  by (induction m) (auto split: if_splits)

lemma uniques_ok_add:
  assumes ok: "uniques_ok cfg (shardForUnique t v) s"
    and hs: "hs = (case map_of (uniques s) \<lparr>uk_TsUnixMin = t, uk_VhostID = v\<rparr> of None \<Rightarrow> [] | Some x \<Rightarrow> x)"
    and h: "h \<notin> set hs"
    and room: "uniqueHashCount s < of_int (maxUniqueHashes cfg sdiv int shardCount)"
  shows "uniques_ok cfg (shardForUnique t v) (s\<lparr>uniques := mput \<lparr>uk_TsUnixMin = t, uk_VhostID = v\<rparr> (hs @ [h]) (uniques s),
            uniqueHashCount := uniqueHashCount s + 1\<rparr>)"
proof -
  define k where "k = \<lparr>uk_TsUnixMin = t, uk_VhostID = v\<rparr>"
  have dist: "distinct_keys (uniques s)" using ok by (simp add: uniques_ok_def)
  have inc: "unat (uniqueHashCount s + 1) = Suc (unat (uniqueHashCount s))"
    using room by (rule unat_inc)
  have "distinct hs"
    using ok hs by (auto simp: uniques_ok_def split: option.splits dest!: map_of_SomeD)
  then have rows: "\<forall>(j, xs) \<in> set (mput k (hs @ [h]) (uniques s)).
      shardForUnique (uk_TsUnixMin j) (uk_VhostID j) = shardForUnique t v \<and> distinct xs \<and> xs \<noteq> []"
    using ok h by (auto simp: uniques_ok_def k_def dest!: set_mput)
  have "sum_list (map (length \<circ> snd) (mput k (hs @ [h]) (uniques s)))
      = Suc (sum_list (map (length \<circ> snd) (uniques s)))"
  proof (cases "map_of (uniques s) k")
    case None
    then have "hs = []" using hs by (simp add: k_def del: map_of_None_keys)
    then show ?thesis using None by (simp add: mput_new)
  next
    case (Some xs)
    then have "hs = xs" using hs by (simp add: k_def)
    with Some dist show ?thesis by (simp add: sum_lengths_mput)
  qed
  moreover have "uniqueHashCount s + 1 \<le> of_int (maxUniqueHashes cfg sdiv int shardCount)"
    using room by (rule inc_le)
  ultimately show ?thesis
    using ok rows dist inc by (simp add: uniques_ok_def k_def)
qed

theorem RecordUnique_ok:
  assumes "all_uniques_ok cfg a"
  shows "all_uniques_ok cfg (RecordUnique cfg salt t v h a)"
proof (cases "salt = []")
  case True
  then show ?thesis using assms by (simp add: RecordUnique_def)
next
  case False
  define i where "i = shardForUnique t v"
  have i: "i < shardCount" by (simp add: i_def shardForUnique_lt)
  then have s: "uniques_ok cfg i (shards a ! i)" using assms by (simp add: all_uniques_ok_def)
  from assms False show ?thesis
  proof (cases rule: RecordUnique_cases [of _ _ _ h t v])
    case add
    have "uniques_ok cfg i ((shards a ! i)
         \<lparr>uniques := mput \<lparr>uk_TsUnixMin = t, uk_VhostID = v\<rparr> (uniquesFor a t v @ [h]) (uniques (shards a ! i)),
          uniqueHashCount := uniqueHashCount (shards a ! i) + 1\<rparr>)"
      using uniques_ok_add [OF s [unfolded i_def] _ add(1)] add(2) by (simp add: uniquesFor_def i_def)
    then show ?thesis
      using assms i by (auto simp: add(3) i_def [symmetric] all_uniques_ok_def setShard_def nth_list_update)
  qed (use assms in \<open>simp_all add: all_uniques_ok_def\<close>)
qed

end
