(* ===== verification/Capped_Counter.thy ===== *)
theory Capped_Counter
  imports Prelude
begin

text \<open>
  The contract the aggregating recorders share: an event either has no key and is ignored, or
  it bumps the counter of its key, or, when the key is new and the map is full, it is counted
  as lost.  What follows from the contract is proved once here: the map never outgrows its
  cap, every event is counted exactly once, and once a key is in the map its count is exact.
\<close>

definition hits :: "('e \<Rightarrow> 'k option) \<Rightarrow> 'k \<Rightarrow> 'e list \<Rightarrow> nat" where
  "hits key k es = length (filter (\<lambda>e. key e = Some k) es)"

definition keyed :: "('e \<Rightarrow> 'k option) \<Rightarrow> 'e list \<Rightarrow> nat" where
  "keyed key es = length (filter (\<lambda>e. key e \<noteq> None) es)"

lemma hits_simps [simp]:
  "hits key k [] = 0"
  "hits key k (e # es) = (if key e = Some k then 1 else 0) + hits key k es"
  by (simp_all add: hits_def)

lemma keyed_simps [simp]:
  "keyed key [] = 0"
  "keyed key (e # es) = (if key e = None then 0 else 1) + keyed key es"
  by (simp_all add: keyed_def)

lemma keyed_Some [simp]: "keyed Some es = length es"
  by (induction es) simp_all

locale capped_counter =
  fixes rec :: "'e \<Rightarrow> 's \<Rightarrow> 's"
    and cnt :: "'s \<Rightarrow> ('k, u64) gomap"
    and lost :: "'s \<Rightarrow> u64"
    and cap :: nat
    and key :: "'e \<Rightarrow> 'k option"
    and live :: "'s \<Rightarrow> bool"
  assumes live_rec: "live s \<Longrightarrow> live (rec e s)"
    and skip: "live s \<Longrightarrow> key e = None \<Longrightarrow> cnt (rec e s) = cnt s \<and> lost (rec e s) = lost s"
    and hit: "live s \<Longrightarrow> key e = Some k \<Longrightarrow> k \<in> keys (cnt s) \<or> length (cnt s) < cap \<Longrightarrow>
        cnt (rec e s) = mbump k (cnt s) \<and> lost (rec e s) = lost s"
    and reject: "live s \<Longrightarrow> key e = Some k \<Longrightarrow> k \<notin> keys (cnt s) \<Longrightarrow> cap \<le> length (cnt s) \<Longrightarrow>
        cnt (rec e s) = cnt s \<and> lost (rec e s) = lost s + 1"
begin

lemma step_cases:
  assumes "live s"
  obtains (skipped) "key e = None" "cnt (rec e s) = cnt s" "lost (rec e s) = lost s"
  | (counted) k where "key e = Some k" "k \<in> keys (cnt s) \<or> length (cnt s) < cap"
      "cnt (rec e s) = mbump k (cnt s)" "lost (rec e s) = lost s"
  | (rejected) k where "key e = Some k" "k \<notin> keys (cnt s)" "cap \<le> length (cnt s)"
      "cnt (rec e s) = cnt s" "lost (rec e s) = lost s + 1"
proof (cases "key e")
  case None
  with skip [OF assms] that(1) show ?thesis by blast
next
  case (Some k)
  show ?thesis
  proof (cases "k \<in> keys (cnt s) \<or> length (cnt s) < cap")
    case True
    with hit [OF assms Some] Some that(2) show ?thesis by blast
  next
    case False
    then have "k \<notin> keys (cnt s)" "cap \<le> length (cnt s)" by auto
    with reject [OF assms Some] Some that(3) show ?thesis by blast
  qed
qed

lemma live_fold: "live s \<Longrightarrow> live (fold rec es s)"
  by (induction es arbitrary: s) (auto intro: live_rec)

lemma bounded_step:
  assumes "live s" and "length (cnt s) \<le> cap"
  shows "length (cnt (rec e s)) \<le> cap"
  using assms(1) by (cases rule: step_cases [of _ e]) (use assms(2) in auto)

theorem bounded: "live s \<Longrightarrow> length (cnt s) \<le> cap \<Longrightarrow> length (cnt (fold rec es s)) \<le> cap"
  by (induction es arbitrary: s) (auto intro: live_rec bounded_step)

lemma distinct_step:
  assumes "live s" and "distinct_keys (cnt s)"
  shows "distinct_keys (cnt (rec e s))"
  using assms(1) by (cases rule: step_cases [of _ e]) (use assms(2) in auto)

lemma distinct_fold:
  "live s \<Longrightarrow> distinct_keys (cnt s) \<Longrightarrow> distinct_keys (cnt (fold rec es s))"
  by (induction es arbitrary: s) (auto intro: live_rec distinct_step)

lemma conserve_step:
  assumes "live s" and "distinct_keys (cnt s)"
  shows "tally (cnt (rec e s)) + lost (rec e s)
         = tally (cnt s) + lost s + (if key e = None then 0 else 1)"
  using assms(1) by (cases rule: step_cases [of _ e]) (use assms(2) in \<open>auto simp: tally_mbump\<close>)

text \<open>Every keyed event is in exactly one counter or in the count of the lost.\<close>

theorem conserve:
  "live s \<Longrightarrow> distinct_keys (cnt s) \<Longrightarrow>
   tally (cnt (fold rec es s)) + lost (fold rec es s)
   = tally (cnt s) + lost s + of_nat (keyed key es)"
proof (induction es arbitrary: s)
  case Nil
  then show ?case by simp
next
  case (Cons e es)
  have "tally (cnt (fold rec es (rec e s))) + lost (fold rec es (rec e s))
      = tally (cnt (rec e s)) + lost (rec e s) + of_nat (keyed key es)"
    using Cons live_rec distinct_step by blast
  then show ?case using conserve_step [OF Cons.prems, of e] by simp
qed

text \<open>The count of a key that is in the map is exact.\<close>

theorem exact:
  "live s \<Longrightarrow> map_of (cnt s) k = Some c \<Longrightarrow>
   map_of (cnt (fold rec es s)) k = Some (c + of_nat (hits key k es))"
proof (induction es arbitrary: s c)
  case Nil
  then show ?case by simp
next
  case (Cons e es)
  have mem: "k \<in> keys (cnt s)" using Cons.prems(2) by (metis map_of_None_keys option.distinct(1))
  have step: "map_of (cnt (rec e s)) k = Some (c + (if key e = Some k then 1 else 0))"
    using Cons.prems(1)
    by (cases rule: step_cases [of _ e]) (use Cons.prems(2) mem in \<open>auto simp: map_of_mbump\<close>)
  from Cons.IH [OF live_rec [OF Cons.prems(1)] step] show ?case
    by (simp add: add.assoc)
qed

text \<open>While the map has room, no event is lost and every count is exact.\<close>

lemma roomy_step:
  assumes "live s" and "length (cnt s) < cap"
  shows "lost (rec e s) = lost s \<and> length (cnt (rec e s)) \<le> Suc (length (cnt s))"
  using assms(1) by (cases rule: step_cases [of _ e]) (use assms(2) in auto)

theorem roomy:
  "live s \<Longrightarrow> length (cnt s) + length es \<le> cap \<Longrightarrow> lost (fold rec es s) = lost s"
proof (induction es arbitrary: s)
  case Nil
  then show ?case by simp
next
  case (Cons e es)
  then have "length (cnt s) < cap" by simp
  from roomy_step [OF Cons.prems(1) this, of e] have
    "lost (rec e s) = lost s" "length (cnt (rec e s)) + length es \<le> cap"
    using Cons.prems(2) by auto
  with Cons.IH [OF live_rec [OF Cons.prems(1)]] show ?case by simp
qed

end

end
