(* ===== verification/L4_Tracks.thy ===== *)
theory L4_Tracks
  imports Capped_Counter Rows Settings Hashing Netip
begin

text \<open>
  The layer 4 recorders: the per-SNI counters with their overflow sentinel, the four per-IP
  structures and the block counters (app.go, l4\_event.go, l4\_ip\_event.go, l4\_block.go).
  Each operation runs under its mutex and is one step.  The heavy-hitter sketch is a
  third-party package and is a parameter; log lines are not modelled.
\<close>

section \<open>Per-SNI counters\<close>

record l4SniTrack =
  l4SniMap :: "(L4SniKey, u64) gomap"
  l4SniOverflow :: u64

definition sniKeyOf :: "u32 \<Rightarrow> string \<Rightarrow> L4SniKey" where
  "sniKeyOf now sni =
     \<lparr>sk_TsUnixMin = now,
      sk_SNI = truncateBytes (if sni = [] then L4SniEmptySNI else sni) l4SniMaxBytes\<rparr>"

definition RecordL4Sni :: "ingestRuntime \<Rightarrow> u32 \<Rightarrow> string \<Rightarrow> l4SniTrack \<Rightarrow> l4SniTrack" where
  "RecordL4Sni cfg now sni a =
     (if l4SniMaxKeys cfg \<le> 0 then a
      else let k = sniKeyOf now sni in
        case map_of (l4SniMap a) k of
          Some c \<Rightarrow> a\<lparr>l4SniMap := mput k (c + 1) (l4SniMap a)\<rparr>
        | None \<Rightarrow>
            if int (length (l4SniMap a)) \<ge> l4SniMaxKeys cfg then
              (let ok = \<lparr>sk_TsUnixMin = sk_TsUnixMin k, sk_SNI = L4SniOverflowSNI\<rparr>;
                   m = (case map_of (l4SniMap a) ok of
                          Some c \<Rightarrow> mput ok (c + 1) (l4SniMap a)
                        | None \<Rightarrow> mput ok 1 (l4SniMap a))
               in a\<lparr>l4SniMap := m, l4SniOverflow := l4SniOverflow a + 1\<rparr>)
            else a\<lparr>l4SniMap := mput k 1 (l4SniMap a)\<rparr>)"

definition l4SniSnapshot :: "l4SniTrack \<Rightarrow> (L4SniKey, u64) gomap \<times> l4SniTrack" where
  "l4SniSnapshot a = (l4SniMap a, a\<lparr>l4SniMap := []\<rparr>)"

definition drainL4SniRows :: "l4SniTrack \<Rightarrow> (L4SniKey, u64) gomap \<times> l4SniTrack" where
  "drainL4SniRows a =
     (let (snap, a') = l4SniSnapshot a
      in (filter (\<lambda>(k, c). \<not> (c \<le> 1 \<and> sk_SNI k \<noteq> L4SniOverflowSNI)) snap, a'))"

section \<open>Addresses (l4\_ip\_event.go)\<close>

definition v4PrefixLen :: nat where "v4PrefixLen = 24"

definition v6PrefixLen :: nat where "v6PrefixLen = 56"

definition topkSize :: nat where "topkSize = 1000"

definition maxSnisPerIp :: nat where "maxSnisPerIp = 32"

definition ipSniMapCap :: nat where "ipSniMapCap = topkSize * maxSnisPerIp"

definition ipPrefixMapCap :: nat where "ipPrefixMapCap = 100000"

definition L4IpOverflowSNI :: string where "L4IpOverflowSNI = ''__overflow__''"

definition L4IpOutcomeAllowed :: string where "L4IpOutcomeAllowed = ''allowed''"

text \<open>
  The result of \<open>canonicalIPAndPrefix\<close>: the address, its network and the prefix length, a
  refusal, or the run-time panic of the slice expression \<open>ipStr[1:i]\<close> when \<open>i\<close> is 0.
\<close>

datatype ipResult = IpPanic | IpBad | IpOk string string u8

definition stripPort :: "string \<Rightarrow> string option" where
  "stripPort ipStr =
     (case LastIndexByte ipStr (CHR '']'') of
        Some i \<Rightarrow>
          if i + 1 < length ipStr \<and> ipStr ! (i + 1) = CHR '':''
          then (if i < 1 then None else Some (drop 1 (take i ipStr)))
          else Some ipStr
      | None \<Rightarrow>
          (case LastIndexByte ipStr (CHR '':'') of
             Some i \<Rightarrow> if length (filter (\<lambda>c. c = CHR '':'') ipStr) = 1
                       then Some (take i ipStr) else Some ipStr
           | None \<Rightarrow> Some ipStr))"

definition canonicalIPAndPrefix :: "string \<Rightarrow> ipResult" where
  "canonicalIPAndPrefix ipStr =
     (case stripPort ipStr of
        None \<Rightarrow> IpPanic
      | Some s \<Rightarrow>
          (case ParseAddr s of
             None \<Rightarrow> IpBad
           | Some addr0 \<Rightarrow>
               (let addr = Unmap addr0 in
                case addr of
                  V4 _ \<Rightarrow> IpOk (addrString addr) (addrString (Prefix_addr addr v4PrefixLen))
                           (of_nat v4PrefixLen)
                | V6 _ _ \<Rightarrow> IpOk (addrString addr) (addrString (Prefix_addr addr v6PrefixLen))
                           (of_nat v6PrefixLen))))"

section \<open>Composite keys (l4\_ip\_event.go, app.go)\<close>

definition l4IpSniKeyString :: "string \<Rightarrow> string \<Rightarrow> string \<Rightarrow> string" where
  "l4IpSniKeyString ip sni outcome = ip @ ''|'' @ sni @ ''|'' @ outcome"

definition l4IpPrefixKeyString :: "string \<Rightarrow> u8 \<Rightarrow> string" where
  "l4IpPrefixKeyString pfx prefixLen = pfx @ ''|'' @ FormatUint (unat prefixLen)"

definition splitPrefixKey :: "string \<Rightarrow> (string \<times> u8) option" where
  "splitPrefixKey k =
     (case LastIndexByte k (CHR ''|'') of
        None \<Rightarrow> None
      | Some i \<Rightarrow> (case ParseUint 8 (drop (i + 1) k) of
                     None \<Rightarrow> None
                   | Some n \<Rightarrow> Some (take i k, of_nat n)))"

definition splitIpSniKey :: "string \<Rightarrow> (string \<times> string \<times> string) option" where
  "splitIpSniKey k =
     (case LastIndexByte k (CHR ''|'') of
        None \<Rightarrow> None
      | Some l \<Rightarrow>
          (let pre = take l k; outcome = drop (l + 1) k
           in case LastIndexByte pre (CHR ''|'') of
                None \<Rightarrow> None
              | Some m \<Rightarrow> Some (take m pre, drop (m + 1) pre, outcome)))"

section \<open>Per-IP structures\<close>

record 't l4IpTrack =
  l4IpTopk :: "'t option"
  l4IpSampled :: "string list"
  l4IpPrefix :: "(string, u64) gomap"
  l4IpSni :: "(string, u64) gomap"
  l4IpSniPerIp :: "(string, u16) gomap"

text \<open>The parts of \<open>RecordL4Ip\<close> under the lock, one per structure.\<close>

definition recordTopk :: "(string \<Rightarrow> 't \<Rightarrow> 't) \<Rightarrow> string \<Rightarrow> 't l4IpTrack \<Rightarrow> 't l4IpTrack" where
  "recordTopk incr canonical a = a\<lparr>l4IpTopk := map_option (incr canonical) (l4IpTopk a)\<rparr>"

definition recordSampled :: "string \<Rightarrow> 't l4IpTrack \<Rightarrow> 't l4IpTrack" where
  "recordSampled canonical a =
     (if sampleIP canonical then a\<lparr>l4IpSampled := List.insert canonical (l4IpSampled a)\<rparr> else a)"

definition recordPrefix :: "string \<Rightarrow> 't l4IpTrack \<Rightarrow> 't l4IpTrack" where
  "recordPrefix pk a =
     (if map_of (l4IpPrefix a) pk \<noteq> None \<or> length (l4IpPrefix a) < ipPrefixMapCap
      then a\<lparr>l4IpPrefix := mbump pk (l4IpPrefix a)\<rparr> else a)"

definition recordIpSni :: "string \<Rightarrow> string \<Rightarrow> 't l4IpTrack \<Rightarrow> 't l4IpTrack" where
  "recordIpSni canonical sni a =
     (let outcome = L4IpOutcomeAllowed;
          count = (case map_of (l4IpSniPerIp a) canonical of None \<Rightarrow> 0 | Some n \<Rightarrow> n);
          primaryKey = l4IpSniKeyString canonical sni outcome;
          fresh = (map_of (l4IpSni a) primaryKey = None);
          effectiveSni = (if fresh \<and> of_nat maxSnisPerIp \<le> count then L4IpOverflowSNI else sni);
          a1 = (if fresh \<and> \<not> of_nat maxSnisPerIp \<le> count
                then a\<lparr>l4IpSniPerIp := mput canonical (count + 1) (l4IpSniPerIp a)\<rparr> else a);
          key = (if effectiveSni \<noteq> sni then l4IpSniKeyString canonical effectiveSni outcome
                 else primaryKey)
      in if map_of (l4IpSni a1) key \<noteq> None \<or> length (l4IpSni a1) < ipSniMapCap
         then a1\<lparr>l4IpSni := mbump key (l4IpSni a1)\<rparr> else a1)"

text \<open>A panic of \<open>canonicalIPAndPrefix\<close> unwinds before any of the state is touched.\<close>

definition RecordL4Ip ::
    "(string \<Rightarrow> 't \<Rightarrow> 't) \<Rightarrow> ingestRuntime \<Rightarrow> string \<Rightarrow> string \<Rightarrow> 't l4IpTrack \<Rightarrow> 't l4IpTrack" where
  "RecordL4Ip incr cfg ip sni a =
     (if l4SniMaxKeys cfg \<le> 0 then a
      else if ip = [] then a
      else case canonicalIPAndPrefix ip of
        IpOk canonical pfx prefixLen \<Rightarrow>
          (let sni = truncateBytes (if sni = [] then L4SniEmptySNI else sni) l4SniMaxBytes
           in recordIpSni canonical sni
                (recordPrefix (l4IpPrefixKeyString pfx prefixLen)
                  (recordSampled canonical (recordTopk incr canonical a))))
      | _ \<Rightarrow> a)"

record l4IpSnap =
  topkRows :: "topkRow list"
  snSampled :: "string list"
  snPrefix :: "(string, u64) gomap"
  snIpSni :: "(string, u64) gomap"

text \<open>\<open>sortedSlice\<close> and \<open>reset\<close> are the sketch's \<open>SortedSlice\<close> and \<open>Reset\<close>.\<close>

definition l4IpSnapshot ::
    "('t \<Rightarrow> (string \<times> u32) list) \<Rightarrow> ('t \<Rightarrow> 't) \<Rightarrow> 't l4IpTrack \<Rightarrow> l4IpSnap \<times> 't l4IpTrack" where
  "l4IpSnapshot sortedSlice reset a =
     (\<lparr>topkRows = (case l4IpTopk a of
         None \<Rightarrow> []
       | Some t \<Rightarrow> map (\<lambda>(ip, n). \<lparr>tr_IP = ip, tr_Count = ucast n\<rparr>)
                    (filter (\<lambda>(ip, n). n \<noteq> 0) (sortedSlice t))),
       snSampled = l4IpSampled a, snPrefix = l4IpPrefix a, snIpSni = l4IpSni a\<rparr>,
      \<lparr>l4IpTopk = map_option reset (l4IpTopk a), l4IpSampled = [], l4IpPrefix = [],
       l4IpSni = [], l4IpSniPerIp = []\<rparr>)"

section \<open>Block counters (l4\_block.go)\<close>

definition l4BlockMaxKeys :: nat where "l4BlockMaxKeys = 10000"

record l4BlockTrack =
  l4Blocks :: "(l4BlockKey, u64) gomap"
  l4BlockOverflow :: u64
  l4BlockReputationOverflow :: u64

definition validL4BlockReason :: "string \<Rightarrow> bool" where
  "validL4BlockReason reason =
     (reason \<in> {''ip'', ''sni'', ''ja3'', ''ja4'', ''abuseipdb''})"

text \<open>The key of one block event: \<open>None\<close> where the code returns before counting.\<close>

definition blockKeyOf :: "string \<times> string \<times> u32 \<Rightarrow> l4BlockKey option" where
  "blockKeyOf e =
     (case e of (ip, reason, minute) \<Rightarrow>
        if \<not> validL4BlockReason reason then None
        else case canonicalIPAndPrefix ip of
          IpOk canonical _ _ \<Rightarrow>
            (case ParseAddr canonical of
               None \<Rightarrow> None
             | Some addr \<Rightarrow> Some \<lparr>bk_Minute = minute, bk_IP = addrString (WithoutZone addr),
                                  bk_Reason = reason\<rparr>)
        | _ \<Rightarrow> None)"

definition recordL4BlockAt :: "string \<times> string \<times> u32 \<Rightarrow> l4BlockTrack \<Rightarrow> l4BlockTrack" where
  "recordL4BlockAt e a =
     (case blockKeyOf e of
        None \<Rightarrow> a
      | Some key \<Rightarrow>
          if map_of (l4Blocks a) key = None \<and> l4BlockMaxKeys \<le> length (l4Blocks a) then
            (if bk_Reason key = ''abuseipdb''
             then a\<lparr>l4BlockReputationOverflow := l4BlockReputationOverflow a + 1\<rparr>
             else a\<lparr>l4BlockOverflow := l4BlockOverflow a + 1\<rparr>)
          else a\<lparr>l4Blocks := mbump key (l4Blocks a)\<rparr>)"

definition l4BlockSnapshot :: "u32 \<Rightarrow> l4BlockTrack \<Rightarrow> (l4BlockKey, u64) gomap \<times> l4BlockTrack" where
  "l4BlockSnapshot flushMinute a =
     (let row = (\<lambda>reason. \<lparr>bk_Minute = flushMinute, bk_IP = ''::'', bk_Reason = reason\<rparr>);
          s0 = l4Blocks a;
          s1 = (if l4BlockOverflow a > 0 then mput (row ''overflow'') (l4BlockOverflow a) s0 else s0);
          s2 = (if l4BlockReputationOverflow a > 0
                then mput (row ''abuseipdb_overflow'') (l4BlockReputationOverflow a) s1 else s1)
      in (s2, \<lparr>l4Blocks = [], l4BlockOverflow = 0, l4BlockReputationOverflow = 0\<rparr>))"

end
