(* ===== verification/L4_Props.thy ===== *)
theory L4_Props
  imports L4_Tracks
begin

text \<open>
  Correctness of the layer 4 recorders: the composite keys round-trip, no accepted connection
  is left out of the SNI counts, the maps stay within their caps, and the block counters obey
  the capped-counter contract up to and including the rows they ship.
\<close>

section \<open>Composite keys\<close>

lemma FormatUint_no_pipe: "CHR ''|'' \<notin> set (FormatUint n)"
proof
  assume "CHR ''|'' \<in> set (FormatUint n)"
  then have "is_digit (CHR ''|'')" by (rule FormatUint_digits)
  then show False by (simp add: is_digit_def)
qed

lemma splitPrefixKey_string: "splitPrefixKey (l4IpPrefixKeyString pfx n) = Some (pfx, n)"
proof -
  have "LastIndexByte (pfx @ CHR ''|'' # FormatUint (unat n)) (CHR ''|'') = Some (length pfx)"
    by (rule LastIndexByte_append_hit [OF FormatUint_no_pipe])
  moreover have "unat n < 2 ^ 8" using unsigned_less [of n] by simp
  ultimately show ?thesis
    by (simp add: splitPrefixKey_def l4IpPrefixKeyString_def ParseUint_FormatUint)
qed

lemma splitIpSniKey_string:
  assumes "CHR ''|'' \<notin> set sni" and "CHR ''|'' \<notin> set outcome"
  shows "splitIpSniKey (l4IpSniKeyString ip sni outcome) = Some (ip, sni, outcome)"
proof -
  have "LastIndexByte ((ip @ CHR ''|'' # sni) @ CHR ''|'' # outcome) (CHR ''|'')
      = Some (length (ip @ CHR ''|'' # sni))"
    by (rule LastIndexByte_append_hit [OF assms(2)])
  moreover have "LastIndexByte (ip @ CHR ''|'' # sni) (CHR ''|'') = Some (length ip)"
    by (rule LastIndexByte_append_hit [OF assms(1)])
  ultimately show ?thesis by (simp add: splitIpSniKey_def l4IpSniKeyString_def Let_def)
qed

text \<open>A server name with a bar is split at the wrong place: part of it moves to the address.\<close>

lemma splitIpSniKey_bar:
  assumes "CHR ''|'' \<notin> set b" and "CHR ''|'' \<notin> set outcome"
  shows "splitIpSniKey (l4IpSniKeyString ip (a @ ''|'' @ b) outcome)
         = Some (ip @ ''|'' @ a, b, outcome)"
  using splitIpSniKey_string [OF assms, of "ip @ ''|'' @ a"]
  by (simp add: l4IpSniKeyString_def)

section \<open>Server name counters\<close>

definition sentinel :: "L4SniKey \<Rightarrow> bool" where
  "sentinel k = (sk_SNI k = L4SniOverflowSNI)"

lemma sentinel_upd [simp]: "sentinel (k\<lparr>sk_SNI := L4SniOverflowSNI\<rparr>)"
  by (simp add: sentinel_def)

lemma RecordL4Sni_map:
  assumes "0 < l4SniMaxKeys cfg"
  shows "l4SniMap (RecordL4Sni cfg now sni a) =
    (let k = sniKeyOf now sni
     in mbump (if k \<in> keys (l4SniMap a) \<or> int (length (l4SniMap a)) < l4SniMaxKeys cfg then k
               else k\<lparr>sk_SNI := L4SniOverflowSNI\<rparr>) (l4SniMap a))"
proof -
  define k where "k = sniKeyOf now sni"
  have ok: "\<lparr>sk_TsUnixMin = sk_TsUnixMin k, sk_SNI = L4SniOverflowSNI\<rparr> = k\<lparr>sk_SNI := L4SniOverflowSNI\<rparr>"
    by simp
  have "mbump j m = (case map_of m j of Some c \<Rightarrow> mput j (c + 1) m | None \<Rightarrow> mput j 1 m)"
    for j :: L4SniKey and m
    by (cases "map_of m j") (simp_all add: mbump_def del: map_of_None_keys)
  then show ?thesis
    using assms
    by (cases "map_of (l4SniMap a) k")
      (auto simp: RecordL4Sni_def Let_def k_def [symmetric] ok map_of_Some_keys)
qed

lemma RecordL4Sni_distinct:
  "distinct_keys (l4SniMap a) \<Longrightarrow> distinct_keys (l4SniMap (RecordL4Sni cfg now sni a))"
  by (cases "0 < l4SniMaxKeys cfg") (simp_all add: RecordL4Sni_map Let_def distinct_mbump,
      simp add: RecordL4Sni_def)

lemma RecordL4Sni_tally:
  "0 < l4SniMaxKeys cfg \<Longrightarrow> distinct_keys (l4SniMap a) \<Longrightarrow>
   tally (l4SniMap (RecordL4Sni cfg now sni a)) = tally (l4SniMap a) + 1"
  by (simp add: RecordL4Sni_map Let_def tally_mbump)

abbreviation recordSnis :: "ingestRuntime \<Rightarrow> (u32 \<times> string) list \<Rightarrow> l4SniTrack \<Rightarrow> l4SniTrack" where
  "recordSnis cfg \<equiv> fold (\<lambda>(now, sni). RecordL4Sni cfg now sni)"

lemma recordSnis_tally:
  "0 < l4SniMaxKeys cfg \<Longrightarrow> distinct_keys (l4SniMap a) \<Longrightarrow>
   tally (l4SniMap (recordSnis cfg es a)) = tally (l4SniMap a) + of_nat (length es)"
  by (induction es arbitrary: a) (auto simp: RecordL4Sni_distinct RecordL4Sni_tally)

abbreviation plainCount :: "(L4SniKey, u64) gomap \<Rightarrow> nat" where
  "plainCount m \<equiv> length (filter (\<lambda>(k, c). \<not> sentinel k) m)"

lemma plainCount_mbump:
  "plainCount (mbump k m) = (if k \<in> keys m \<or> sentinel k then plainCount m else Suc (plainCount m))"
proof (cases "k \<in> keys m")
  case True
  have "plainCount (mput k v m) = plainCount m" if "k \<in> keys m" for v
    using that by (induction m) auto
  with True show ?thesis by (simp add: mbump_def)
next
  case False
  then show ?thesis by (simp add: mbump_new)
qed

lemma RecordL4Sni_plain_bound:
  assumes "int (plainCount (l4SniMap a)) \<le> l4SniMaxKeys cfg"
  shows "int (plainCount (l4SniMap (RecordL4Sni cfg now sni a))) \<le> l4SniMaxKeys cfg"
proof (cases "0 < l4SniMaxKeys cfg")
  case False
  then show ?thesis using assms by (simp add: RecordL4Sni_def)
next
  case True
  have le: "int (plainCount (l4SniMap a)) \<le> int (length (l4SniMap a))" by simp
  have "1 + int (plainCount (l4SniMap a)) \<le> l4SniMaxKeys cfg"
    if "int (length (l4SniMap a)) < l4SniMaxKeys cfg"
    using le that by linarith
  then show ?thesis
    using assms True by (simp add: RecordL4Sni_map Let_def plainCount_mbump)
qed

lemma recordSnis_plain_bound:
  "int (plainCount (l4SniMap a)) \<le> l4SniMaxKeys cfg \<Longrightarrow>
   int (plainCount (l4SniMap (recordSnis cfg es a))) \<le> l4SniMaxKeys cfg"
  by (induction es arbitrary: a) (auto simp: RecordL4Sni_plain_bound)

lemma sniKeyOf_width: "length (sk_SNI (sniKeyOf now sni)) \<le> l4SniMaxBytes"
  by (simp add: sniKeyOf_def truncateBytes_length)

text \<open>Draining keeps every repeated name and the sentinel, and drops nothing else.\<close>

lemma drainL4SniRows_rows:
  "fst (drainL4SniRows a) = filter (\<lambda>(k, c). 1 < c \<or> sentinel k) (l4SniMap a)"
  "l4SniMap (snd (drainL4SniRows a)) = []"
  by (auto simp: drainL4SniRows_def l4SniSnapshot_def sentinel_def not_le intro: filter_cong)

section \<open>Per-IP structures\<close>

definition ipTrack_ok :: "'t l4IpTrack \<Rightarrow> bool" where
  "ipTrack_ok a =
     (length (l4IpPrefix a) \<le> ipPrefixMapCap \<and> length (l4IpSni a) \<le> ipSniMapCap
      \<and> distinct_keys (l4IpPrefix a) \<and> distinct_keys (l4IpSni a) \<and> distinct (l4IpSampled a)
      \<and> (\<forall>(ip, n) \<in> set (l4IpSniPerIp a). unat n \<le> maxSnisPerIp))"

lemma recordTopk_ok: "ipTrack_ok a \<Longrightarrow> ipTrack_ok (recordTopk incr ip a)"
  by (simp add: ipTrack_ok_def recordTopk_def)

lemma recordSampled_ok: "ipTrack_ok a \<Longrightarrow> ipTrack_ok (recordSampled ip a)"
  by (simp add: ipTrack_ok_def recordSampled_def)

lemma recordPrefix_ok: "ipTrack_ok a \<Longrightarrow> ipTrack_ok (recordPrefix pk a)"
  by (simp add: ipTrack_ok_def recordPrefix_def distinct_mbump)

lemma recordIpSni_ok:
  assumes "ipTrack_ok a"
  shows "ipTrack_ok (recordIpSni ip sni a)"
proof -
  define count where "count = (case map_of (l4IpSniPerIp a) ip of None \<Rightarrow> 0 | Some n \<Rightarrow> n)"
  have bump: "unat (count + 1) \<le> maxSnisPerIp" if "\<not> of_nat maxSnisPerIp \<le> count"
  proof -
    have "unat count < 32" using that by (simp add: not_le word_less_nat_alt maxSnisPerIp_def)
    then show ?thesis by (simp add: maxSnisPerIp_def unat_word_ariths)
  qed
  have per: "\<forall>(j, n) \<in> set (mput ip (count + 1) (l4IpSniPerIp a)). unat n \<le> maxSnisPerIp"
    if "\<not> of_nat maxSnisPerIp \<le> count"
    using bump [OF that] assms by (auto simp: ipTrack_ok_def dest!: set_mput)
  show ?thesis
    using assms per
    unfolding recordIpSni_def Let_def count_def [symmetric]
    by (simp add: ipTrack_ok_def distinct_mbump)
qed

lemma RecordL4Ip_ok: "ipTrack_ok a \<Longrightarrow> ipTrack_ok (RecordL4Ip incr cfg ip sni a)"
  by (simp add: RecordL4Ip_def Let_def recordIpSni_ok recordPrefix_ok recordSampled_ok
      recordTopk_ok split: ipResult.split)

lemma LastIndexByte_zero: "LastIndexByte (x # xs) c = Some 0 \<longleftrightarrow> x = c \<and> c \<notin> set xs"
proof
  assume "LastIndexByte (x # xs) c = Some 0"
  from LastIndexByte_Some [OF this] show "x = c \<and> c \<notin> set xs" by simp
next
  assume "x = c \<and> c \<notin> set xs"
  then show "LastIndexByte (x # xs) c = Some 0"
    using LastIndexByte_append_hit [of c xs "[]"] by (simp only: append_Nil list.size not_False_eq_True)
qed

text \<open>The address parser panics exactly on a text whose only closing bracket opens it.\<close>

lemma canonicalIPAndPrefix_panic:
  "canonicalIPAndPrefix s = IpPanic \<longleftrightarrow> prefix '']:'' s \<and> CHR '']'' \<notin> set (tl s)"
proof -
  have "canonicalIPAndPrefix s = IpPanic \<longleftrightarrow> stripPort s = None"
    by (auto simp: canonicalIPAndPrefix_def Let_def split: option.splits addr.splits)
  also have "\<dots> \<longleftrightarrow> LastIndexByte s (CHR '']'') = Some 0 \<and> 1 < length s \<and> s ! 1 = CHR '':''"
    by (cases "LastIndexByte s (CHR '']'')"; cases "LastIndexByte s (CHR '':'')")
      (auto simp: stripPort_def simp del: LastIndexByte_None)
  also have "\<dots> \<longleftrightarrow> prefix '']:'' s \<and> CHR '']'' \<notin> set (tl s)"
    by (cases s; cases "tl s") (auto simp: LastIndexByte_zero simp del: LastIndexByte.simps)
  finally show ?thesis .
qed

section \<open>Block counters\<close>

definition blockLost :: "l4BlockTrack \<Rightarrow> u64" where
  "blockLost a = l4BlockOverflow a + l4BlockReputationOverflow a"

interpretation block: capped_counter recordL4BlockAt l4Blocks blockLost l4BlockMaxKeys blockKeyOf
  "\<lambda>a. True"
  by unfold_locales (auto simp: recordL4BlockAt_def blockLost_def)

lemma blockKeyOf_reason: "blockKeyOf e = Some k \<Longrightarrow> validL4BlockReason (bk_Reason k)"
  by (auto simp: blockKeyOf_def split: prod.splits if_splits ipResult.splits option.splits)

definition blocks_ok :: "l4BlockTrack \<Rightarrow> bool" where
  "blocks_ok a = (distinct_keys (l4Blocks a) \<and> (\<forall>k \<in> keys (l4Blocks a). validL4BlockReason (bk_Reason k)))"

lemma recordL4BlockAt_ok: "blocks_ok a \<Longrightarrow> blocks_ok (recordL4BlockAt e a)"
proof -
  assume ok: "blocks_ok a"
  show ?thesis
  proof (cases rule: block.step_cases [OF TrueI, of e a])
    case (2 k)
    have "keys (mbump k (l4Blocks a)) = insert k (keys (l4Blocks a))" by (rule keys_mbump)
    then show ?thesis
      using ok blockKeyOf_reason [OF 2(1)] unfolding blocks_ok_def 2(3) by auto
  qed (use ok in \<open>simp_all add: blocks_ok_def\<close>)
qed

text \<open>The shipped rows, the two overflow rows included, account for every block.\<close>

lemma l4BlockSnapshot_total:
  assumes "blocks_ok a"
  shows "tally (fst (l4BlockSnapshot m a)) = tally (l4Blocks a) + blockLost a"
proof -
  have nv: "\<not> validL4BlockReason ''overflow''" "\<not> validL4BlockReason ''abuseipdb_overflow''"
    by (simp_all add: validL4BlockReason_def)
  define row where "row = (\<lambda>reason. \<lparr>bk_Minute = m, bk_IP = ''::'', bk_Reason = reason\<rparr>)"
  have fresh: "row ''overflow'' \<notin> keys (l4Blocks a)" "row ''abuseipdb_overflow'' \<notin> keys (l4Blocks a)"
    using assms nv unfolding blocks_ok_def row_def by (metis l4BlockKey.select_convs(3))+
  have "row ''abuseipdb_overflow'' \<noteq> row ''overflow''" by (simp add: row_def)
  then show ?thesis
    using fresh by (auto simp: l4BlockSnapshot_def Let_def row_def [symmetric] mput_new blockLost_def
        word_neq_0_conv [symmetric])
qed

lemma block_rows:
  assumes "blocks_ok a" and "length (l4Blocks a) \<le> l4BlockMaxKeys"
  shows "length (l4Blocks (fold recordL4BlockAt es a)) \<le> l4BlockMaxKeys
    \<and> tally (fst (l4BlockSnapshot m (fold recordL4BlockAt es a)))
       = tally (l4Blocks a) + blockLost a + of_nat (keyed blockKeyOf es)"
proof -
  have "blocks_ok (fold recordL4BlockAt es a)" using assms(1)
    by (induction es arbitrary: a) (auto intro: recordL4BlockAt_ok)
  then have "tally (fst (l4BlockSnapshot m (fold recordL4BlockAt es a)))
      = tally (l4Blocks (fold recordL4BlockAt es a)) + blockLost (fold recordL4BlockAt es a)"
    by (rule l4BlockSnapshot_total)
  then show ?thesis
    using block.conserve [of a es] block.bounded [of a es] assms by (simp add: blocks_ok_def)
qed

end
