(* ===== verification/Attempts.thy ===== *)
theory Attempts
  imports Capped_Counter Rows Settings
begin

text \<open>
  Three recorders of app.go that follow the capped-counter contract: challenge attempts, Edge
  Verify attempts and TLS fingerprints (two maps under one lock).  Each operation runs under
  its mutex, so it is one step; a \<open>nil\<close> map is \<open>None\<close>.  The Prometheus counters that mirror
  the overflow fields are not modelled.
\<close>

section \<open>Challenge attempts (challenge\_attempt.go, app.go)\<close>

definition challengeMaxKeys :: nat where "challengeMaxKeys = 50000"

record challengeTrack =
  challengeMap :: "(challengeAttemptKey, u64) gomap option"
  challengeOverflow :: u64

definition RecordChallengeAttempt :: "challengeAttemptKey \<Rightarrow> challengeTrack \<Rightarrow> challengeTrack" where
  "RecordChallengeAttempt key a =
     (case challengeMap a of
        None \<Rightarrow> a
      | Some m \<Rightarrow>
          if map_of m key = None \<and> challengeMaxKeys \<le> length m
          then a\<lparr>challengeOverflow := challengeOverflow a + 1\<rparr>
          else a\<lparr>challengeMap := Some (mbump key m)\<rparr>)"

definition challengeSnapshot ::
    "challengeTrack \<Rightarrow> (challengeAttemptKey, u64) gomap option \<times> challengeTrack" where
  "challengeSnapshot a =
     (case challengeMap a of
        None \<Rightarrow> (None, a)
      | Some m \<Rightarrow> if m = [] then (None, a) else (Some m, a\<lparr>challengeMap := Some []\<rparr>))"

section \<open>Edge Verify attempts (edge\_verify\_attempt.go, app.go)\<close>

definition edgeVerifyMaxKeys :: nat where "edgeVerifyMaxKeys = 50000"

record edgeVerifyTrack =
  edgeVerifyMap :: "(edgeVerifyAttemptKey, u64) gomap option"
  edgeVerifyOverflow :: u64

definition RecordEdgeVerifyAttempt :: "edgeVerifyAttemptKey \<Rightarrow> edgeVerifyTrack \<Rightarrow> edgeVerifyTrack" where
  "RecordEdgeVerifyAttempt key a =
     (case edgeVerifyMap a of
        None \<Rightarrow> a
      | Some m \<Rightarrow>
          if map_of m key = None \<and> edgeVerifyMaxKeys \<le> length m
          then a\<lparr>edgeVerifyOverflow := edgeVerifyOverflow a + 1\<rparr>
          else a\<lparr>edgeVerifyMap := Some (mbump key m)\<rparr>)"

definition edgeVerifySnapshot ::
    "edgeVerifyTrack \<Rightarrow> (edgeVerifyAttemptKey, u64) gomap option \<times> edgeVerifyTrack" where
  "edgeVerifySnapshot a =
     (case edgeVerifyMap a of
        None \<Rightarrow> (None, a)
      | Some m \<Rightarrow> if m = [] then (None, a) else (Some m, a\<lparr>edgeVerifyMap := Some []\<rparr>))"

section \<open>Fingerprints (fingerprint\_event.go, app.go)\<close>

text \<open>
  \<open>Provision\<close> allocates a map exactly when its cap is positive, and the recorder writes only
  then; the two maps are total here and start empty.
\<close>

record fingerprintTrack =
  fpMap :: "(fingerprintKey, u64) gomap"
  fpIpMap :: "(fingerprintIpKey, u64) gomap"
  fpOverflow :: u64
  fpIpOverflow :: u64

record fingerprintObs =
  fo_TsMin :: u32
  fo_ja3 :: string
  fo_ja4 :: string
  fo_ip :: string

text \<open>The (ja3, ja4, outcome) block of \<open>RecordFingerprint\<close>.\<close>

definition recordFp :: "ingestRuntime \<Rightarrow> fingerprintObs \<Rightarrow> fingerprintTrack \<Rightarrow> fingerprintTrack" where
  "recordFp cfg obs a =
     (if fingerprintMaxKeys cfg > 0 \<and> fo_ja3 obs \<noteq> [] \<and> fo_ja4 obs \<noteq> [] then
        (let k = \<lparr>fk_TsUnixMin = fo_TsMin obs, fk_JA3 = fo_ja3 obs, fk_JA4 = fo_ja4 obs,
                  fk_Outcome = FingerprintOutcomeAllowed\<rparr>
         in case map_of (fpMap a) k of
              Some c \<Rightarrow> a\<lparr>fpMap := mput k (c + 1) (fpMap a)\<rparr>
            | None \<Rightarrow>
                if int (length (fpMap a)) \<ge> fingerprintMaxKeys cfg
                then a\<lparr>fpOverflow := fpOverflow a + 1\<rparr>
                else a\<lparr>fpMap := mput k 1 (fpMap a)\<rparr>)
      else a)"

text \<open>The (ja4, ip) block.\<close>

definition recordFpIp :: "ingestRuntime \<Rightarrow> fingerprintObs \<Rightarrow> fingerprintTrack \<Rightarrow> fingerprintTrack" where
  "recordFpIp cfg obs a =
     (if fingerprintIpMaxKeys cfg > 0 \<and> fo_ja4 obs \<noteq> [] \<and> fo_ip obs \<noteq> [] then
        (let k = \<lparr>fi_TsUnixMin = fo_TsMin obs, fi_JA4 = fo_ja4 obs, fi_IP = fo_ip obs\<rparr>
         in case map_of (fpIpMap a) k of
              Some c \<Rightarrow> a\<lparr>fpIpMap := mput k (c + 1) (fpIpMap a)\<rparr>
            | None \<Rightarrow>
                if int (length (fpIpMap a)) \<ge> fingerprintIpMaxKeys cfg
                then a\<lparr>fpIpOverflow := fpIpOverflow a + 1\<rparr>
                else a\<lparr>fpIpMap := mput k 1 (fpIpMap a)\<rparr>)
      else a)"

definition RecordFingerprint ::
    "ingestRuntime \<Rightarrow> fingerprintObs \<Rightarrow> fingerprintTrack \<Rightarrow> fingerprintTrack" where
  "RecordFingerprint cfg obs a = recordFpIp cfg obs (recordFp cfg obs a)"

definition fingerprintSnapshot ::
    "fingerprintTrack \<Rightarrow> (fingerprintKey, u64) gomap \<times> fingerprintTrack" where
  "fingerprintSnapshot a = (fpMap a, a\<lparr>fpMap := []\<rparr>)"

definition fingerprintIpSnapshot ::
    "fingerprintTrack \<Rightarrow> (fingerprintIpKey, u64) gomap \<times> fingerprintTrack" where
  "fingerprintIpSnapshot a = (fpIpMap a, a\<lparr>fpIpMap := []\<rparr>)"

section \<open>The contract holds\<close>

definition challengeCounts :: "challengeTrack \<Rightarrow> (challengeAttemptKey, u64) gomap" where
  "challengeCounts a = (case challengeMap a of None \<Rightarrow> [] | Some m \<Rightarrow> m)"

interpretation challenge: capped_counter RecordChallengeAttempt challengeCounts challengeOverflow
  challengeMaxKeys Some "\<lambda>a. challengeMap a \<noteq> None"
  by unfold_locales
    (auto simp: RecordChallengeAttempt_def challengeCounts_def simp del: map_of_None_keys
      split: option.splits dest: map_of_None_keys [THEN iffD1] map_of_None_keys [THEN iffD2])

definition edgeVerifyCounts :: "edgeVerifyTrack \<Rightarrow> (edgeVerifyAttemptKey, u64) gomap" where
  "edgeVerifyCounts a = (case edgeVerifyMap a of None \<Rightarrow> [] | Some m \<Rightarrow> m)"

interpretation edge_verify: capped_counter RecordEdgeVerifyAttempt edgeVerifyCounts
  edgeVerifyOverflow edgeVerifyMaxKeys Some "\<lambda>a. edgeVerifyMap a \<noteq> None"
  by unfold_locales
    (auto simp: RecordEdgeVerifyAttempt_def edgeVerifyCounts_def simp del: map_of_None_keys
      split: option.splits dest: map_of_None_keys [THEN iffD1] map_of_None_keys [THEN iffD2])

definition fpKeyOf :: "ingestRuntime \<Rightarrow> fingerprintObs \<Rightarrow> fingerprintKey option" where
  "fpKeyOf cfg obs =
     (if fingerprintMaxKeys cfg > 0 \<and> fo_ja3 obs \<noteq> [] \<and> fo_ja4 obs \<noteq> []
      then Some \<lparr>fk_TsUnixMin = fo_TsMin obs, fk_JA3 = fo_ja3 obs, fk_JA4 = fo_ja4 obs,
                 fk_Outcome = FingerprintOutcomeAllowed\<rparr>
      else None)"

definition fpIpKeyOf :: "ingestRuntime \<Rightarrow> fingerprintObs \<Rightarrow> fingerprintIpKey option" where
  "fpIpKeyOf cfg obs =
     (if fingerprintIpMaxKeys cfg > 0 \<and> fo_ja4 obs \<noteq> [] \<and> fo_ip obs \<noteq> []
      then Some \<lparr>fi_TsUnixMin = fo_TsMin obs, fi_JA4 = fo_ja4 obs, fi_IP = fo_ip obs\<rparr>
      else None)"

text \<open>The effect on each of the two maps alone.\<close>

lemma mbump_None: "k \<notin> keys m \<Longrightarrow> mbump k m = mput k 1 m"
  by (simp add: mbump_def map_of_None_keys [THEN iffD2] del: map_of_None_keys)

lemma mbump_Some: "map_of m k = Some c \<Longrightarrow> mbump k m = mput k (c + 1) m"
  by (simp add: mbump_def)

lemma recordFp_eq:
  "recordFp cfg obs a =
     (case fpKeyOf cfg obs of
        None \<Rightarrow> a
      | Some k \<Rightarrow> if k \<in> keys (fpMap a) \<or> int (length (fpMap a)) < fingerprintMaxKeys cfg
                  then a\<lparr>fpMap := mbump k (fpMap a)\<rparr> else a\<lparr>fpOverflow := fpOverflow a + 1\<rparr>)"
proof (cases "fpKeyOf cfg obs")
  case None
  then show ?thesis by (auto simp: recordFp_def fpKeyOf_def split: if_splits)
next
  case (Some k)
  then have "recordFp cfg obs a = (case map_of (fpMap a) k of
              Some c \<Rightarrow> a\<lparr>fpMap := mput k (c + 1) (fpMap a)\<rparr>
            | None \<Rightarrow>
                if int (length (fpMap a)) \<ge> fingerprintMaxKeys cfg
                then a\<lparr>fpOverflow := fpOverflow a + 1\<rparr>
                else a\<lparr>fpMap := mput k 1 (fpMap a)\<rparr>)"
    by (auto simp: recordFp_def fpKeyOf_def split: if_splits)
  then show ?thesis
    by (cases "map_of (fpMap a) k") (simp_all add: Some mbump_None mbump_Some map_of_Some_keys)
qed

lemma recordFpIp_eq:
  "recordFpIp cfg obs a =
     (case fpIpKeyOf cfg obs of
        None \<Rightarrow> a
      | Some k \<Rightarrow> if k \<in> keys (fpIpMap a) \<or> int (length (fpIpMap a)) < fingerprintIpMaxKeys cfg
                  then a\<lparr>fpIpMap := mbump k (fpIpMap a)\<rparr>
                  else a\<lparr>fpIpOverflow := fpIpOverflow a + 1\<rparr>)"
proof (cases "fpIpKeyOf cfg obs")
  case None
  then show ?thesis by (auto simp: recordFpIp_def fpIpKeyOf_def split: if_splits)
next
  case (Some k)
  then have "recordFpIp cfg obs a = (case map_of (fpIpMap a) k of
              Some c \<Rightarrow> a\<lparr>fpIpMap := mput k (c + 1) (fpIpMap a)\<rparr>
            | None \<Rightarrow>
                if int (length (fpIpMap a)) \<ge> fingerprintIpMaxKeys cfg
                then a\<lparr>fpIpOverflow := fpIpOverflow a + 1\<rparr>
                else a\<lparr>fpIpMap := mput k 1 (fpIpMap a)\<rparr>)"
    by (auto simp: recordFpIp_def fpIpKeyOf_def split: if_splits)
  then show ?thesis
    by (cases "map_of (fpIpMap a) k") (simp_all add: Some mbump_None mbump_Some map_of_Some_keys)
qed

lemma recordFpIp_frame:
  "fpMap (recordFpIp cfg obs a) = fpMap a" "fpOverflow (recordFpIp cfg obs a) = fpOverflow a"
  by (simp_all add: recordFpIp_eq split: option.split)

lemma recordFp_frame:
  "fpIpMap (recordFp cfg obs a) = fpIpMap a" "fpIpOverflow (recordFp cfg obs a) = fpIpOverflow a"
  by (simp_all add: recordFp_eq split: option.split)

interpretation fp: capped_counter "RecordFingerprint cfg" fpMap fpOverflow
  "nat (fingerprintMaxKeys cfg)" "fpKeyOf cfg" "\<lambda>a. True" for cfg
  by unfold_locales
    (auto simp: RecordFingerprint_def recordFpIp_frame recordFp_eq fpKeyOf_def split: if_splits)

interpretation fp_ip: capped_counter "RecordFingerprint cfg" fpIpMap fpIpOverflow
  "nat (fingerprintIpMaxKeys cfg)" "fpIpKeyOf cfg" "\<lambda>a. True" for cfg
  by unfold_locales
    (auto simp: RecordFingerprint_def recordFp_frame recordFpIp_eq fpIpKeyOf_def split: if_splits)

end
