(* ===== verification/Recorder_Props.thy ===== *)
theory Recorder_Props
  imports Request_Recorder
begin

text \<open>
  Correctness of the byte-governed buffers: what a buffer holds is exactly what it has
  reserved, a drain hands over every row and returns every byte, the caps hold, and what the
  load sampler keeps and weighs.
\<close>

section \<open>Byte accounting of the request events\<close>

lemma rowBytes_rate [simp]: "requestEventRowBytes (row\<lparr>re_SampleRate := n\<rparr>) = requestEventRowBytes row"
  by (simp add: requestEventRowBytes_def)

lemma rowBytes_pos: "0 < requestEventRowBytes row"
  by (simp add: requestEventRowBytes_def requestEventRowFixedBytes_def)

definition rowsBytes :: "requestEventRow list \<Rightarrow> int" where
  "rowsBytes rs = sum_list (map requestEventRowBytes rs)"

lemma rowsBytes_snoc [simp]: "rowsBytes (rs @ [r]) = rowsBytes rs + requestEventRowBytes r"
  by (simp add: rowsBytes_def)

lemma rowsBytes_nonneg: "0 \<le> rowsBytes rs"
  unfolding rowsBytes_def using rowBytes_pos by (intro sum_list_nonneg) (auto simp: less_imp_le)

text \<open>\<open>others\<close> is what the other governed buffers hold.\<close>

definition recorder_ok :: "int \<Rightarrow> recorderState \<Rightarrow> bool" where
  "recorder_ok others st =
     (case st of (r, gov) \<Rightarrow>
        int (length (r_rows r)) \<le> max 0 (r_maxRows r)
        \<and> (case gov of
             None \<Rightarrow> r_reservedBytes r = 0
           | Some g \<Rightarrow> gov_ok g \<and> r_reservedBytes r = rowsBytes (r_rows r)
                       \<and> bufferBytes g = others + rowsBytes (r_rows r) \<and> 0 \<le> others))"

definition fits :: "memGovernor option \<Rightarrow> requestEventRow \<Rightarrow> bool" where
  "fits gov row = (case gov of None \<Rightarrow> True
                   | Some g \<Rightarrow> requestEventRowBytes row \<le> max_i64 - budgetOf g)"

lemma appendLocked_ok:
  assumes "recorder_ok others st" and "fits (snd st) row"
  shows "recorder_ok others (appendLocked row rate st)"
proof -
  obtain r gov where st: "st = (r, gov)" by (cases st)
  show ?thesis
  proof (cases "r_maxRows r \<le> int (length (r_rows r))")
    case True
    then show ?thesis using assms(1) by (auto simp: st appendLocked_def recorder_ok_def split: option.splits)
  next
    case room: False
    show ?thesis
    proof (cases gov)
      case None
      then show ?thesis using assms(1) room by (simp add: st appendLocked_def recorder_ok_def)
    next
      case (Some g)
      obtain b g' where res: "tryReserve (requestEventRowBytes row) g = (b, g')"
        by (cases "tryReserve (requestEventRowBytes row) g")
      have "gov_ok g" "requestEventRowBytes row \<le> max_i64 - budgetOf g"
        using assms Some by (simp_all add: st recorder_ok_def fits_def)
      from gov.grant_ok [OF this(1) _ this(2) res] rowBytes_pos [of row]
      have "gov_ok g'" "bufferBytes g' = bufferBytes g + (if b then requestEventRowBytes row else 0)"
        by auto
      then show ?thesis using assms(1) room res
        by (cases b) (simp_all add: st Some appendLocked_def recorder_ok_def Let_def)
    qed
  qed
qed

lemma appendLocked_frame: "fits (snd st) row' \<Longrightarrow> recorder_ok others st \<Longrightarrow> fits (snd st) row \<Longrightarrow>
   fits (snd (appendLocked row rate st)) row'"
proof -
  assume a: "fits (snd st) row'" "recorder_ok others st" "fits (snd st) row"
  obtain r gov where st: "st = (r, gov)" by (cases st)
  show ?thesis
  proof (cases gov)
    case None
    then show ?thesis by (simp add: st appendLocked_def fits_def)
  next
    case (Some g)
    obtain b g' where res: "tryReserve (requestEventRowBytes row) g = (b, g')"
      by (cases "tryReserve (requestEventRowBytes row) g")
    have "gov_ok g" "requestEventRowBytes row \<le> max_i64 - budgetOf g"
      using a Some by (simp_all add: st recorder_ok_def fits_def)
    from gov.grant_ok [OF this(1) _ this(2) res] rowBytes_pos [of row]
    have "budgetOf g' = budgetOf g" by auto
    then show ?thesis using a(1) res
      by (cases b) (simp_all add: st Some appendLocked_def fits_def Let_def)
  qed
qed

lemma recorder_ok_window:
  "recorder_ok others (r, gov) \<Longrightarrow> recorder_ok others (r\<lparr>r_seen := n, r_seenBlocked := m\<rparr>, gov)"
  "recorder_ok others (r, gov) \<Longrightarrow> recorder_ok others (r\<lparr>r_seen := n\<rparr>, gov)"
  "recorder_ok others (r, gov) \<Longrightarrow> recorder_ok others (r\<lparr>r_seenBlocked := m\<rparr>, gov)"
  by (simp_all add: recorder_ok_def split: option.splits)

text \<open>What \<open>record\<close> does: count the row, and append it or not.\<close>

lemma recordRow_cases:
  obtains (kept) rate n m where
      "recordRow rnd row (r, gov) = appendLocked row rate (r\<lparr>r_seen := n, r_seenBlocked := m\<rparr>, gov)"
  | (sampled) n m where "recordRow rnd row (r, gov) = (r\<lparr>r_seen := n, r_seenBlocked := m\<rparr>, gov)"
proof -
  define win where "win = (\<lambda>n m. (r\<lparr>r_seen := n, r_seenBlocked := m\<rparr>, gov))"
  have gen: "(let (keep, rate) = sampleDecision a b; st' = win n m
              in if keep then appendLocked row rate st' else st')
        \<in> {x. (\<exists>rate n m. x = appendLocked row rate (win n m)) \<or> (\<exists>n m. x = win n m)}" for a b n m
    by (auto simp: Let_def split: prod.splits)
  have w: "(r\<lparr>r_seen := k\<rparr>, gov) = win k (r_seenBlocked r)"
    "(r\<lparr>r_seenBlocked := k\<rparr>, gov) = win (r_seen r) k" for k
    by (simp_all add: win_def)
  have "recordRow rnd row (r, gov)
      \<in> {x. (\<exists>rate n m. x = appendLocked row rate (win n m)) \<or> (\<exists>n m. x = win n m)}"
    unfolding recordRow_def recordV2Locked_def prod.case w
    by (cases "r_modeV2 r"; cases "re_Disposition row = dispServed")
      (simp_all only: if_True if_False simp_thms Let_def [of "withFloor _ _ _"] gen)
  then show ?thesis using that unfolding win_def by blast
qed

theorem recordRow_ok:
  assumes "recorder_ok others (r, gov)" and "fits gov row"
  shows "recorder_ok others (recordRow rnd row (r, gov))"
proof (cases rule: recordRow_cases [of rnd row r gov])
  case (kept rate n m)
  then show ?thesis
    using appendLocked_ok [OF recorder_ok_window(1) [OF assms(1)]] assms(2) by simp
next
  case (sampled n m)
  then show ?thesis using recorder_ok_window(1) [OF assms(1)] by simp
qed

text \<open>A drain returns all rows and gives back exactly the bytes of the window.\<close>

theorem drainRows_spec:
  assumes "recorder_ok others (r, Some g)"
  shows "\<exists>r' g'. drainRows (r, Some g) = (r_rows r, r_overflow r, r', Some g')
    \<and> bufferBytes g' = others \<and> r_rows r' = [] \<and> r_seen r' = 0 \<and> r_seenBlocked r' = 0
    \<and> r_overflow r' = 0 \<and> recorder_ok others (r', Some g')"
proof -
  define res where "res = r_reservedBytes r"
  have g: "gov_ok g" "res = rowsBytes (r_rows r)" "bufferBytes g = others + res" "0 \<le> others"
    using assms by (simp_all add: recorder_ok_def res_def)
  define g' where "g' = (if res > 0 then release res g else g)"
  have "bufferBytes g' = others \<and> gov_ok g'"
  proof (cases "res > 0")
    case True
    then show ?thesis using gov.give_ok [OF g(1), of res] g by (simp add: g'_def)
  next
    case False
    then show ?thesis using g rowsBytes_nonneg [of "r_rows r"] by (simp add: g'_def)
  qed
  moreover have "drainRows (r, Some g) = (r_rows r, r_overflow r,
      r\<lparr>r_reservedBytes := 0, r_rows := [], r_seen := 0, r_seenBlocked := 0, r_overflow := 0\<rparr>, Some g')"
    by (simp add: drainRows_def g'_def res_def)
  ultimately show ?thesis using g(4) by (simp add: recorder_ok_def rowsBytes_def)
qed

section \<open>What the load sampler keeps\<close>

abbreviation keeps :: "int \<Rightarrow> int \<Rightarrow> bool" where
  "keeps thr seen \<equiv> fst (sampleDecision seen (loadFactor thr seen))"

lemma loadFactor_block:
  assumes "0 < thr" "1 \<le> q" "0 \<le> j" "j < thr"
  shows "loadFactor thr (thr * q + j) = q + 1"
proof -
  have "thr \<le> thr * q" using assms by simp
  then have "thr \<le> thr * q + j" using assms by linarith
  moreover have "(thr * q + j) sdiv thr = q"
  proof -
    have "0 < thr * q + j" using assms by (simp add: add_pos_nonneg)
    moreover have "(thr * q + j) div thr = q" using assms by (simp add: int_div_pos_eq)
    ultimately show ?thesis using assms by (simp add: signed_divide_int_def)
  qed
  ultimately show ?thesis using assms(1) by (simp add: loadFactor_def)
qed

text \<open>In the block of \<open>thr\<close> rows with factor \<open>q + 1\<close>, a row is kept at the multiples from the end.\<close>

lemma keeps_block:
  assumes "0 < thr" "1 \<le> q" "0 \<le> j" "j < thr"
  shows "keeps thr (thr * q + j) \<longleftrightarrow> (q + 1) dvd (thr - j)"
proof -
  define f where "f = loadFactor thr (thr * q + j)"
  have fq: "f = q + 1" unfolding f_def using loadFactor_block [OF assms] .
  have "0 < thr * q + j" using assms by (simp add: add_pos_nonneg)
  then have smod: "(thr * q + j) smod (q + 1) = (thr * q + j) mod (q + 1)"
    using assms by (simp add: signed_modulo_int_def signed_divide_int_def minus_div_mult_eq_mod
        sgn_if abs_if)
  have "thr * q + j = thr * (q + 1) - (thr - j)" by (simp add: algebra_simps)
  then have dvd: "(q + 1) dvd (thr * q + j) \<longleftrightarrow> (q + 1) dvd (thr - j)"
    by (metis dvd_diff_commute dvd_triv_right dvd_diff_right_iff)
  have "fst (sampleDecision (thr * q + j) f) \<longleftrightarrow> (thr * q + j) mod (q + 1) = 0"
    using assms by (simp add: fq sampleDecision_def smod)
  then show ?thesis using dvd by (simp add: dvd_eq_mod_eq_0 f_def)
qed

lemma card_multiples:
  assumes "0 < (m :: nat)"
  shows "card {d. 0 < d \<and> d \<le> n \<and> m dvd d} = n div m"
proof -
  have "{d. 0 < d \<and> d \<le> n \<and> m dvd d} = (\<lambda>i. m * i) ` {1..n div m}"
  proof
    show "{d. 0 < d \<and> d \<le> n \<and> m dvd d} \<subseteq> (\<lambda>i. m * i) ` {1..n div m}"
    proof
      fix d assume "d \<in> {d. 0 < d \<and> d \<le> n \<and> m dvd d}"
      then obtain i where d: "d = m * i" "0 < d" "d \<le> n" by (auto elim: dvdE)
      then have "i \<le> n div m" using assms by (metis div_le_mono nonzero_mult_div_cancel_left less_numeral_extra(3))
      moreover have "1 \<le> i" using d by (cases i) auto
      ultimately show "d \<in> (\<lambda>i. m * i) ` {1..n div m}" using d(1) by auto
    qed
    show "(\<lambda>i. m * i) ` {1..n div m} \<subseteq> {d. 0 < d \<and> d \<le> n \<and> m dvd d}"
      using assms by (auto simp: less_eq_div_iff_mult_less_eq mult.commute)
  qed
  moreover have "inj_on (\<lambda>i. m * i) {1..n div m}" using assms by (auto simp: inj_on_def)
  ultimately show ?thesis by (simp add: card_image)
qed

text \<open>
  The rows kept of a block, each standing for \<open>q + 1\<close> requests, weigh \<open>thr\<close> rounded down to
  a multiple of \<open>q + 1\<close>: the sampler never overstates the traffic of a block, and it states
  nothing at all from block \<open>thr\<close> on.
\<close>

theorem block_weight:
  assumes "0 < thr" and "1 \<le> q"
  shows "card {j. j < thr \<and> keeps (int thr) (int thr * int q + int j)} = thr div (q + 1)"
proof -
  have "keeps (int thr) (int thr * int q + int j) \<longleftrightarrow> (q + 1) dvd (thr - j)" if "j < thr" for j
  proof -
    have "int thr - int j = int (thr - j)" using that by simp
    moreover have "int q + 1 = int (q + 1)" by simp
    ultimately show ?thesis
      using keeps_block [of "int thr" "int q" "int j"] assms that by (simp only: int_dvd_int_iff)
  qed
  then have "{j. j < thr \<and> keeps (int thr) (int thr * int q + int j)}
      = {j. j < thr \<and> (q + 1) dvd (thr - j)}"
    by blast
  also have "\<dots> = (\<lambda>d. thr - d) ` {d. 0 < d \<and> d \<le> thr \<and> (q + 1) dvd d}"
    by (rule set_eqI, rule iffI) (auto intro!: image_eqI [of _ _ "thr - _"])
  finally have "{j. j < thr \<and> keeps (int thr) (int thr * int q + int j)}
      = (\<lambda>d. thr - d) ` {d. 0 < d \<and> d \<le> thr \<and> (q + 1) dvd d}" .
  moreover have "inj_on (\<lambda>d. thr - d) {d. 0 < d \<and> d \<le> thr \<and> (q + 1) dvd d}"
    by (auto simp: inj_on_def)
  ultimately show ?thesis using card_multiples [of "q + 1" thr] by (simp add: card_image)
qed

theorem sampler_goes_silent:
  assumes "0 < thr" and "thr * thr \<le> seen"
  shows "\<not> keeps thr seen"
proof -
  define q where "q = seen div thr"
  define j where "j = seen mod thr"
  have seen: "seen = thr * q + j" by (simp add: q_def j_def)
  have j: "0 \<le> j" "j < thr" using assms(1) by (simp_all add: j_def)
  have "thr * thr div thr \<le> q" unfolding q_def using assms by (intro zdiv_mono1) simp_all
  then have "thr \<le> q" using assms(1) by simp
  then have q: "1 \<le> q" "thr - j < q + 1" "0 < thr - j" using assms(1) j by simp_all
  then have "\<not> (q + 1) dvd (thr - j)" by (simp add: zdvd_not_zless)
  then show ?thesis using keeps_block [OF assms(1) q(1) j] seen by simp
qed

end
