(* ===== verification/Health_Props.thy ===== *)
theory Health_Props
  imports Domain_Health
begin

text \<open>
  Correctness of domain health: the key counter, the credits and the governor bytes always
  match the entries held; every recorded event is in an entry or in a drop count; a lease is
  paid back once; a frame stays within its limit, holds exactly the encoded rows, and the
  encode permit is returned.
\<close>

section \<open>Recording\<close>

text \<open>
  \<open>outs\<close> is the number of credits held by leases, \<open>others\<close> the bytes of the other buffers.
\<close>

definition govHealth :: "int \<Rightarrow> int \<Rightarrow> memGovernor option \<Rightarrow> bool" where
  "govHealth others n gov =
     (case gov of
        None \<Rightarrow> True
      | Some g \<Rightarrow> gov_ok g \<and> bufferBytes g = others + n * domainHealthEntryBytes \<and> 0 \<le> others
                  \<and> domainHealthEntryBytes \<le> max_i64 - budgetOf g)"

definition health_ok :: "ingestRuntime \<Rightarrow> int \<Rightarrow> int \<Rightarrow> healthState \<Rightarrow> bool" where
  "health_ok cfg outs others a =
     (length (healthShards a) = 16
      \<and> (\<forall>i < 16. distinct_keys (healthShards a ! i)
            \<and> (\<forall>k \<in> keys (healthShards a ! i). healthShard k = i
                  \<and> dk_VhostID k \<noteq> 0 \<and> validDomainHealthKey (dk_ConfigurationKey k)))
      \<and> domainHealthKeys a = int (healthTotal a)
      \<and> int (healthTotal a) \<le> max 0 (maxBuffer cfg)
      \<and> domainHealthCredits a = int (healthTotal a) + outs \<and> 0 \<le> outs
      \<and> domainHealthCredits a \<le> domainHealthResidentRecords
      \<and> govHealth others (int (healthTotal a)) (memGov a))"

lemma healthShard_lt: "healthShard k < 16"
proof -
  have "dk_VhostID k AND 15 \<le> 15" by (rule word_and_le1)
  then show ?thesis by (simp add: healthShard_def word_le_nat_alt)
qed

lemma reserveHealthBytes_spec:
  assumes "govHealth others n (memGov a)"
  shows "\<exists>gov'. reserveHealthBytes a = (True, a\<lparr>memGov := gov'\<rparr>) \<and> govHealth others (n + 1) gov'
       \<or> reserveHealthBytes a = (False, a\<lparr>memGov := gov'\<rparr>) \<and> govHealth others n gov'"
proof (cases "memGov a")
  case None
  then show ?thesis by (auto simp: reserveHealthBytes_def govHealth_def intro!: exI [of _ None])
next
  case (Some g)
  obtain b g' where r: "tryReserve domainHealthEntryBytes g = (b, g')"
    by (cases "tryReserve domainHealthEntryBytes g")
  have g: "gov_ok g" "0 \<le> domainHealthEntryBytes" "domainHealthEntryBytes \<le> max_i64 - budgetOf g"
    using assms Some by (simp_all add: govHealth_def domainHealthEntryBytes_def)
  have "gov_ok g' \<and> budgetOf g' = budgetOf g
      \<and> bufferBytes g' = bufferBytes g + (if b then domainHealthEntryBytes else 0)"
    by (rule gov.grant_ok [OF g r])
  then show ?thesis
    using assms Some r
    by (cases b) (auto simp: reserveHealthBytes_def govHealth_def algebra_simps
        intro!: exI [of _ "Some g'"])
qed

text \<open>A new key is admitted with all three reservations, or refused with exactly one drop.\<close>

lemma admitHealthKey_cases:
  assumes "govHealth others n (memGov a)"
  obtains (admitted) gov' where "admitHealthKey cfg a = (True, a\<lparr>domainHealthKeys := domainHealthKeys a + 1,
        domainHealthCredits := domainHealthCredits a + 1, memGov := gov'\<rparr>)"
      "domainHealthKeys a < maxBuffer cfg" "domainHealthCredits a < domainHealthResidentRecords"
      "govHealth others (n + 1) gov'"
  | (refused) gov' reason where "admitHealthKey cfg a =
        (False, a\<lparr>memGov := gov', drops := (drops a)(reason := drops a reason + 1)\<rparr>)"
      "govHealth others n gov'" "reason = DropCapacity \<or> reason = DropPressure"
proof (cases "maxBuffer cfg \<le> domainHealthKeys a")
  case True
  show ?thesis
    using True assms
    by (intro refused [where gov' = "memGov a" and reason = DropCapacity])
      (simp_all add: admitHealthKey_def reserveDomainHealthKey_def countDomainHealthDrop_def)
next
  case keys: False
  show ?thesis
  proof (cases "domainHealthResidentRecords \<le> domainHealthCredits a")
    case True
    show ?thesis
      using True keys assms
      by (intro refused [where gov' = "memGov a" and reason = DropCapacity])
        (simp_all add: admitHealthKey_def reserveDomainHealthKey_def reserveDomainHealthCredit_def
          countDomainHealthDrop_def)
  next
    case credits: False
    define a2 where "a2 = a\<lparr>domainHealthKeys := domainHealthKeys a + 1,
        domainHealthCredits := domainHealthCredits a + 1\<rparr>"
    have r: "reserveDomainHealthKey cfg a = (True, a\<lparr>domainHealthKeys := domainHealthKeys a + 1\<rparr>)"
      "reserveDomainHealthCredit (a\<lparr>domainHealthKeys := domainHealthKeys a + 1\<rparr>) = (True, a2)"
      using keys credits by (simp_all add: reserveDomainHealthKey_def reserveDomainHealthCredit_def a2_def)
    have "govHealth others n (memGov a2)" using assms by (simp add: a2_def)
    from reserveHealthBytes_spec [OF this] obtain gov' where
      "reserveHealthBytes a2 = (True, a2\<lparr>memGov := gov'\<rparr>) \<and> govHealth others (n + 1) gov'
       \<or> reserveHealthBytes a2 = (False, a2\<lparr>memGov := gov'\<rparr>) \<and> govHealth others n gov'" by blast
    then show ?thesis
    proof
      assume *: "reserveHealthBytes a2 = (True, a2\<lparr>memGov := gov'\<rparr>) \<and> govHealth others (n + 1) gov'"
      show ?thesis
        by (rule admitted [of gov']) (use * keys credits r in \<open>simp_all add: admitHealthKey_def a2_def\<close>)
    next
      assume *: "reserveHealthBytes a2 = (False, a2\<lparr>memGov := gov'\<rparr>) \<and> govHealth others n gov'"
      show ?thesis
        by (rule refused [where gov' = gov' and reason = DropPressure])
          (use * r in \<open>simp_all add: admitHealthKey_def a2_def countDomainHealthDrop_def\<close>)
    qed
  qed
qed

lemma healthTotal_put:
  assumes "length (healthShards a) = 16"
  shows "healthTotal (putHealth k c a)
         = healthTotal a + (if k \<in> keys (healthShards a ! healthShard k) then 0 else 1)"
proof -
  have i: "healthShard k < length (healthShards a)" using assms healthShard_lt by simp
  have "int (healthTotal (putHealth k c a)) = int (healthTotal a)
      - int (length (healthShards a ! healthShard k))
      + int (length (mput k c (healthShards a ! healthShard k)))"
  proof -
    have t: "int (sum_list (map length xs)) = sum_list (map (\<lambda>m. int (length m)) xs)"
      for xs :: "(domainHealthKey, domainHealthCounter) gomap list"
      by (induction xs) auto
    show ?thesis
      unfolding healthTotal_def t
      using sum_list_map_update [OF i, of "\<lambda>m. int (length m)"] by (simp add: putHealth_def Let_def)
  qed
  then show ?thesis by (simp split: if_splits)
qed

lemma putHealth_frame [simp]:
  "domainHealthKeys (putHealth k c a) = domainHealthKeys a"
  "domainHealthCredits (putHealth k c a) = domainHealthCredits a"
  "memGov (putHealth k c a) = memGov a" "drops (putHealth k c a) = drops a"
  "length (healthShards (putHealth k c a)) = length (healthShards a)"
  by (simp_all add: putHealth_def Let_def)

lemma putHealth_shards_ok:
  assumes "length (healthShards a) = 16"
    and "\<forall>i < 16. distinct_keys (healthShards a ! i)
            \<and> (\<forall>k \<in> keys (healthShards a ! i). healthShard k = i
                  \<and> dk_VhostID k \<noteq> 0 \<and> validDomainHealthKey (dk_ConfigurationKey k))"
    and "dk_VhostID key \<noteq> 0" "validDomainHealthKey (dk_ConfigurationKey key)"
  shows "\<forall>i < 16. distinct_keys (healthShards (putHealth key c a) ! i)
            \<and> (\<forall>k \<in> keys (healthShards (putHealth key c a) ! i). healthShard k = i
                  \<and> dk_VhostID k \<noteq> 0 \<and> validDomainHealthKey (dk_ConfigurationKey k))"
proof (intro allI impI)
  fix i :: nat
  assume i: "i < 16"
  show "distinct_keys (healthShards (putHealth key c a) ! i)
      \<and> (\<forall>k \<in> keys (healthShards (putHealth key c a) ! i). healthShard k = i
            \<and> dk_VhostID k \<noteq> 0 \<and> validDomainHealthKey (dk_ConfigurationKey k))"
  proof (cases "i = healthShard key")
    case True
    then have nth: "healthShards (putHealth key c a) ! i = mput key c (healthShards a ! i)"
      using i assms(1) by (simp add: putHealth_def Let_def)
    show ?thesis unfolding nth keys_mput using assms i True by auto
  next
    case False
    then have "healthShards (putHealth key c a) ! i = healthShards a ! i"
      by (simp add: putHealth_def Let_def)
    then show ?thesis using assms(2) i by simp
  qed
qed

definition dropTotal :: "healthState \<Rightarrow> int" where
  "dropTotal a = sum_list (map (drops a) [DropCapacity, DropPressure, DropRetired, DropEncodeBusy,
     DropFrameLimit, DropEncodeError, DropQueue, DropDelivery])"

lemma dropTotal_count:
  "0 \<le> n \<Longrightarrow> dropTotal (countDomainHealthDrop r n a) = dropTotal a + n"
  by (cases r) (auto simp: dropTotal_def countDomainHealthDrop_def)

lemma dropTotal_upd: "dropTotal (a\<lparr>memGov := g, drops := (drops a)(r := drops a r + 1)\<rparr>) = dropTotal a + 1"
  by (cases r) (simp_all add: dropTotal_def)

theorem RecordDomainHealth_ok:
  assumes ok: "health_ok cfg outs others a"
  shows "health_ok cfg outs others (RecordDomainHealth cfg key delta a)"
proof (cases "dk_VhostID key = 0 \<or> \<not> validDomainHealthKey (dk_ConfigurationKey key) \<or> maxBuffer cfg \<le> 0
    \<or> domainHealthRetired a")
  case True
  then show ?thesis
    using ok by (auto simp: RecordDomainHealth_def health_ok_def countDomainHealthDrop_def healthTotal_def)
next
  case False
  then have key: "dk_VhostID key \<noteq> 0" "validDomainHealthKey (dk_ConfigurationKey key)" "maxBuffer cfg > 0"
    "\<not> domainHealthRetired a" by auto
  have len: "length (healthShards a) = 16" and shards: "\<forall>i < 16. distinct_keys (healthShards a ! i)
            \<and> (\<forall>k \<in> keys (healthShards a ! i). healthShard k = i
                  \<and> dk_VhostID k \<noteq> 0 \<and> validDomainHealthKey (dk_ConfigurationKey k))"
    and gov: "govHealth others (int (healthTotal a)) (memGov a)"
    using ok by (auto simp: health_ok_def)
  show ?thesis
  proof (cases "map_of (healthShards a ! healthShard key) key")
    case (Some c)
    then have "key \<in> keys (healthShards a ! healthShard key)" by (rule map_of_Some_keys)
    then have "healthTotal (putHealth key (addHealth delta c) a) = healthTotal a"
      using healthTotal_put [OF len] by simp
    then show ?thesis
      using ok Some key putHealth_shards_ok [OF len shards key(1,2)]
      by (simp add: RecordDomainHealth_def health_ok_def)
  next
    case None
    then have new: "key \<notin> keys (healthShards a ! healthShard key)" by simp
    from gov show ?thesis
    proof (cases rule: admitHealthKey_cases [where cfg = cfg])
      case (admitted gov')
      define b where "b = a\<lparr>domainHealthKeys := domainHealthKeys a + 1,
        domainHealthCredits := domainHealthCredits a + 1, memGov := gov'\<rparr>"
      have b: "healthShards b = healthShards a" by (simp add: b_def)
      have "healthTotal (putHealth key (addHealth delta zeroHealth) b) = healthTotal a + 1"
        using healthTotal_put [of b key] new len by (simp add: b healthTotal_def)
      moreover have "RecordDomainHealth cfg key delta a = putHealth key (addHealth delta zeroHealth) b"
        using key None admitted(1) by (simp add: RecordDomainHealth_def b_def)
      moreover have "length (healthShards b) = 16" using len b by simp
      moreover note putHealth_shards_ok [OF this shards [folded b] key(1,2),
          of "addHealth delta zeroHealth"]
      moreover have "domainHealthKeys b = int (healthTotal a + 1)"
        "int (healthTotal a + 1) \<le> max 0 (maxBuffer cfg)"
        "domainHealthCredits b = int (healthTotal a + 1) + outs" "0 \<le> outs"
        "domainHealthCredits b \<le> domainHealthResidentRecords"
        "govHealth others (int (healthTotal a + 1)) (memGov b)"
        using ok admitted(2-4) by (auto simp: health_ok_def b_def add.commute)
      ultimately show ?thesis
        unfolding health_ok_def by (simp only: putHealth_frame simp_thms)
    next
      case (refused gov' reason)
      then show ?thesis
        using ok key None by (simp add: RecordDomainHealth_def health_ok_def healthTotal_def)
    qed
  qed
qed

text \<open>The abstract map of the entries, by key.\<close>

definition healthFor :: "healthState \<Rightarrow> domainHealthKey \<Rightarrow> domainHealthCounter option" where
  "healthFor a k = map_of (healthShards a ! healthShard k) k"

lemma healthFor_put:
  assumes "length (healthShards a) = 16"
  shows "healthFor (putHealth k c a) = (healthFor a)(k \<mapsto> c)"
proof
  fix j
  have "healthShard j < 16" "healthShard k < 16" by (rule healthShard_lt)+
  then show "healthFor (putHealth k c a) j = ((healthFor a)(k \<mapsto> c)) j"
    using assms by (auto simp: healthFor_def putHealth_def Let_def nth_list_update)
qed

text \<open>An eligible event is added to its entry, or refused with one drop counted.\<close>

theorem RecordDomainHealth_effect:
  assumes ok: "health_ok cfg outs others a" and key: "dk_VhostID key \<noteq> 0"
    "validDomainHealthKey (dk_ConfigurationKey key)" "0 < maxBuffer cfg"
  shows "healthFor (RecordDomainHealth cfg key delta a)
           = (healthFor a)(key \<mapsto> addHealth delta (case healthFor a key of Some c \<Rightarrow> c | None \<Rightarrow> zeroHealth))
         \<and> dropTotal (RecordDomainHealth cfg key delta a) = dropTotal a
       \<or> healthFor (RecordDomainHealth cfg key delta a) = healthFor a
         \<and> dropTotal (RecordDomainHealth cfg key delta a) = dropTotal a + 1
         \<and> (domainHealthRetired a \<or> healthFor a key = None)"
proof (cases "domainHealthRetired a")
  case True
  then show ?thesis
    using key dropTotal_count [of 1 DropRetired a]
    by (simp add: RecordDomainHealth_def healthFor_def countDomainHealthDrop_def fun_eq_iff)
next
  case live: False
  have len: "length (healthShards a) = 16"
    and gov: "govHealth others (int (healthTotal a)) (memGov a)"
    using ok by (auto simp: health_ok_def)
  show ?thesis
  proof (cases "healthFor a key")
    case (Some c)
    then have "RecordDomainHealth cfg key delta a = putHealth key (addHealth delta c) a"
      using key live by (simp add: RecordDomainHealth_def healthFor_def)
    then show ?thesis using Some by (simp add: healthFor_put [OF len] dropTotal_def)
  next
    case None
    from gov show ?thesis
    proof (cases rule: admitHealthKey_cases [where cfg = cfg])
      case (admitted gov')
      define b where "b = a\<lparr>domainHealthKeys := domainHealthKeys a + 1,
        domainHealthCredits := domainHealthCredits a + 1, memGov := gov'\<rparr>"
      have "RecordDomainHealth cfg key delta a = putHealth key (addHealth delta zeroHealth) b"
        using key live None admitted(1) by (simp add: RecordDomainHealth_def b_def healthFor_def)
      moreover have "healthFor b = healthFor a" "dropTotal b = dropTotal a"
        by (simp_all add: fun_eq_iff healthFor_def dropTotal_def b_def)
      moreover have "length (healthShards b) = 16" using len by (simp add: b_def)
      ultimately show ?thesis using None by (simp add: healthFor_put dropTotal_def)
    next
      case (refused gov' reason)
      then have "RecordDomainHealth cfg key delta a
          = a\<lparr>memGov := gov', drops := (drops a)(reason := drops a reason + 1)\<rparr>"
        using key live None by (simp add: RecordDomainHealth_def healthFor_def)
      then show ?thesis using None by (simp add: dropTotal_upd) (simp add: healthFor_def fun_eq_iff)
    qed
  qed
qed

section \<open>Detaching\<close>

lemma releaseHealth_spec:
  assumes "govHealth others (int (length m) + n) (memGov a)" and "0 \<le> n"
  shows "govHealth others n (memGov (releaseHealth m a))"
    "domainHealthKeys (releaseHealth m a) = domainHealthKeys a - int (length m)"
    "domainHealthCredits (releaseHealth m a) = domainHealthCredits a"
    "drops (releaseHealth m a) = drops a" "healthShards (releaseHealth m a) = healthShards a"
    "domainHealthEncoding (releaseHealth m a) = domainHealthEncoding a"
    "domainHealthRetired (releaseHealth m a) = domainHealthRetired a"
proof -
  show "govHealth others n (memGov (releaseHealth m a))"
  proof (cases "memGov a")
    case None
    then show ?thesis by (simp add: releaseHealth_def Let_def govHealth_def)
  next
    case (Some g)
    define k where "k = int (length m) * domainHealthEntryBytes"
    have g: "gov_ok g" "bufferBytes g = others + k + n * domainHealthEntryBytes"
      "0 \<le> others" "domainHealthEntryBytes \<le> max_i64 - budgetOf g"
      using assms Some by (simp_all add: govHealth_def k_def algebra_simps)
    have "0 \<le> k" "0 \<le> n * domainHealthEntryBytes"
      using assms(2) by (simp_all add: k_def domainHealthEntryBytes_def)
    then have "gov_ok (release k g) \<and> budgetOf (release k g) = budgetOf g
        \<and> bufferBytes (release k g) = bufferBytes g - k"
      using g by (intro gov.give_ok) simp_all
    then show ?thesis
      using g Some assms by (auto simp: releaseHealth_def Let_def govHealth_def k_def)
  qed
qed (simp_all add: releaseHealth_def Let_def)

lemma fold_releaseHealth:
  assumes "govHealth others (int (sum_list (map length ms)) + n) (memGov a)" and "0 \<le> n"
  shows "govHealth others n (memGov (fold releaseHealth ms a))
    \<and> domainHealthKeys (fold releaseHealth ms a) = domainHealthKeys a - int (sum_list (map length ms))
    \<and> domainHealthCredits (fold releaseHealth ms a) = domainHealthCredits a
    \<and> drops (fold releaseHealth ms a) = drops a
    \<and> domainHealthEncoding (fold releaseHealth ms a) = domainHealthEncoding a"
  using assms(1)
proof (induction ms arbitrary: a)
  case Nil
  then show ?case by simp
next
  case (Cons m ms)
  have "govHealth others (int (length m) + (int (sum_list (map length ms)) + n)) (memGov a)"
    using Cons.prems by (simp add: add.assoc)
  from releaseHealth_spec [OF this] Cons.IH [of "releaseHealth m a"] assms(2)
  show ?case by simp
qed

text \<open>
  Detaching empties the shards, returns every byte, and moves the credits of the entries to
  the lease: the invariant then holds with the detached records among the outstanding ones.
\<close>

theorem detachDomainHealth_ok:
  assumes ok: "health_ok cfg outs others a" and det: "detachDomainHealth a = (d, records, a')"
  shows "health_ok cfg (outs + records) others a' \<and> d = healthShards a
    \<and> records = int (healthTotal a) \<and> healthTotal a' = 0 \<and> drops a' = drops a
    \<and> domainHealthEncoding a' = domainHealthEncoding a"
proof -
  have len: "length (healthShards a) = 16"
    and gov: "govHealth others (int (sum_list (map length (healthShards a))) + 0) (memGov a)"
    using ok by (simp_all add: health_ok_def healthTotal_def)
  note f = fold_releaseHealth [OF gov order_refl]
  have a': "a' = (fold releaseHealth (healthShards a) a)\<lparr>healthShards := replicate 16 []\<rparr>"
    "d = healthShards a" "records = int (healthTotal a)"
    using det len by (auto simp: detachDomainHealth_def Let_def)
  have "healthTotal a' = 0" by (simp add: a' healthTotal_def map_replicate_const sum_list_replicate)
  moreover have "\<forall>i < 16. healthShards a' ! i = []" by (simp add: a')
  ultimately show ?thesis
    using f ok by (simp add: health_ok_def a' healthTotal_def sum_list_replicate)
qed

lemma discardDomainHealth_ok:
  assumes ok: "health_ok cfg outs others a"
  shows "health_ok cfg outs others (discardDomainHealth reason a)
    \<and> healthTotal (discardDomainHealth reason a) = 0
    \<and> dropTotal (discardDomainHealth reason a) = dropTotal a + int (healthTotal a)"
proof -
  obtain d records a' where det: "detachDomainHealth a = (d, records, a')"
    by (cases "detachDomainHealth a")
  note D = detachDomainHealth_ok [OF ok det]
  then have dt: "dropTotal a' = dropTotal a" by (simp add: dropTotal_def)
  show ?thesis
  proof (cases "records > 0")
    case True
    define b where "b = a'\<lparr>domainHealthCredits := domainHealthCredits a' - records\<rparr>"
    have b: "health_ok cfg outs others b" "healthTotal b = 0" "dropTotal b = dropTotal a"
      using D dt True ok by (auto simp: health_ok_def b_def healthTotal_def dropTotal_def)
    have disc: "discardDomainHealth reason a = countDomainHealthDrop reason records b"
      using True by (simp add: discardDomainHealth_def det b_def)
    have "health_ok cfg outs others (countDomainHealthDrop reason records b)"
      "healthTotal (countDomainHealthDrop reason records b) = 0"
      using b by (auto simp: health_ok_def countDomainHealthDrop_def healthTotal_def)
    then show ?thesis using D dropTotal_count [of records reason b] b(3) True by (simp add: disc)
  next
    case False
    then have "records = 0" using D by simp
    with D have "health_ok cfg outs others a'" by simp
    with \<open>records = 0\<close> show ?thesis using D dt by (auto simp: discardDomainHealth_def det)
  qed
qed

section \<open>Leases\<close>

text \<open>A lease pays its credits back once; releasing or dropping again changes nothing.\<close>

lemma leaseRelease_once:
  assumes "leaseRelease lo a = (b, lo', a')"
  shows "leaseRelease lo' a' = (False, lo', a')" "leaseDrop reason lo' a' = (lo', a')"
  using assms by (auto simp: leaseRelease_def leaseDrop_def split: option.splits if_splits)

lemma leaseDrop_credits:
  assumes "\<not> l_released l"
  shows "domainHealthCredits (snd (leaseDrop reason (Some l) a)) = domainHealthCredits a - l_records l"
    "fst (leaseDrop reason (Some l) a) = Some (l\<lparr>l_released := True\<rparr>)"
    "0 \<le> l_records l \<Longrightarrow> dropTotal (snd (leaseDrop reason (Some l) a)) = dropTotal a + l_records l"
proof -
  define b where "b = a\<lparr>domainHealthCredits := domainHealthCredits a - l_records l\<rparr>"
  have d: "leaseDrop reason (Some l) a
      = (Some (l\<lparr>l_released := True\<rparr>), countDomainHealthDrop reason (l_records l) b)"
    using assms by (simp add: leaseDrop_def leaseRelease_def b_def)
  show "domainHealthCredits (snd (leaseDrop reason (Some l) a)) = domainHealthCredits a - l_records l"
    "fst (leaseDrop reason (Some l) a) = Some (l\<lparr>l_released := True\<rparr>)"
    by (simp_all add: d countDomainHealthDrop_def b_def)
  assume "0 \<le> l_records l"
  moreover have "dropTotal b = dropTotal a" by (simp add: dropTotal_def b_def)
  ultimately show "dropTotal (snd (leaseDrop reason (Some l) a)) = dropTotal a + l_records l"
    using dropTotal_count [of "l_records l" reason b] by (simp add: d)
qed

section \<open>The frame\<close>

definition buf_ok :: "domainHealthBuffer \<Rightarrow> bool" where
  "buf_ok b = (int (length (b_data b)) \<le> b_cap b \<and> b_cap b \<le> b_limit b)"

lemma bufWrite_ok:
  assumes "buf_ok b" and "bufWrite s b = Some b'"
  shows "buf_ok b' \<and> b_data b' = b_data b @ s \<and> b_limit b' = b_limit b"
  using assms by (auto simp: bufWrite_def bufReserve_def buf_ok_def Let_def split: if_splits)

lemma bufWrite_None:
  "bufWrite s b = None \<longleftrightarrow> b_limit b < int (length (b_data b)) + int (length s)"
  by (auto simp: bufWrite_def bufReserve_def Let_def)

lemma encodeHealthRows_Inr:
  "encodeHealthRows ret ps i rows b = Inr b' \<Longrightarrow> buf_ok b \<Longrightarrow>
   buf_ok b' \<and> b_limit b' = b_limit b
   \<and> b_data b' = b_data b @ concat (map (\<lambda>(k, c). encodeDomainHealthRow ps k c) rows)"
proof (induction ret ps i rows b rule: encodeHealthRows.induct)
  case (1 ret ps i b)
  then show ?case by simp
next
  case (2 ret ps i key counter rows b)
  from "2.prems"(1) obtain b1 where b1: "\<not> ret i"
    "bufWrite (encodeDomainHealthRow ps key counter) b = Some b1"
    "encodeHealthRows ret ps (Suc i) rows b1 = Inr b'"
    by (auto split: if_splits option.splits)
  have w: "buf_ok b1" "b_data b1 = b_data b @ encodeDomainHealthRow ps key counter" "b_limit b1 = b_limit b"
    using bufWrite_ok [OF "2.prems"(2) b1(2)] by auto
  show ?case using "2.IH" [OF b1(1,2,3) w(1)] w by simp
qed

text \<open>With room for all rows and no retirement the frame is built.\<close>

lemma encodeHealthRows_total:
  "\<forall>j. \<not> ret j \<Longrightarrow> buf_ok b \<Longrightarrow>
   int (length (b_data b)) + int (length (concat (map (\<lambda>(k, c). encodeDomainHealthRow ps k c) rows)))
     \<le> b_limit b \<Longrightarrow>
   \<exists>b'. encodeHealthRows ret ps i rows b = Inr b'"
proof (induction rows arbitrary: i b)
  case Nil
  then show ?case by simp
next
  case (Cons x rows)
  obtain k c where x: "x = (k, c)" by (cases x)
  have "bufWrite (encodeDomainHealthRow ps k c) b \<noteq> None"
    using Cons.prems(3) by (simp add: bufWrite_None x)
  then obtain b1 where b1: "bufWrite (encodeDomainHealthRow ps k c) b = Some b1" by auto
  have "\<exists>b'. encodeHealthRows ret ps (Suc i) rows b1 = Inr b'"
    using bufWrite_ok [OF Cons.prems(2) b1] Cons.prems(1,3) by (intro Cons.IH) (auto simp: x)
  moreover have "\<not> ret i" using Cons.prems(1) by blast
  ultimately show ?case using b1 by (simp add: x)
qed

lemma leaseDrop_frame:
  "domainHealthEncoding (snd (leaseDrop reason lo a)) = domainHealthEncoding a"
  by (auto simp: leaseDrop_def leaseRelease_def countDomainHealthDrop_def split: option.splits)

text \<open>
  Preparing a snapshot either yields a frame that holds every row within the limit, with the
  lease still open and the permit taken, or it returns the credits with the records counted
  as dropped and leaves the permit as it was.
\<close>

theorem prepareDomainHealth_spec:
  assumes lease: "\<not> l_released (s_lease snap)" "0 \<le> l_records (s_lease snap)"
    and prep: "prepareDomainHealth ret ps (Some snap) rawLimit a = (fo, a')"
  shows "(\<exists>f. fo = Some f \<and> f_lease f = s_lease snap \<and> \<not> f_finished f
            \<and> f_raw f = concat (map (\<lambda>(k, c). encodeDomainHealthRow ps k c) (s_rows snap))
            \<and> int (length (f_raw f)) \<le> rawLimit
            \<and> \<not> domainHealthEncoding a \<and> a' = a\<lparr>domainHealthEncoding := True\<rparr>)
       \<or> (fo = None \<and> domainHealthEncoding a' = domainHealthEncoding a
            \<and> domainHealthCredits a' = domainHealthCredits a - l_records (s_lease snap)
            \<and> dropTotal a' = dropTotal a + l_records (s_lease snap))"
proof -
  define l where "l = s_lease snap"
  have drop: "domainHealthCredits (snd (leaseDrop r (Some l) b)) = domainHealthCredits b - l_records l"
    "dropTotal (snd (leaseDrop r (Some l) b)) = dropTotal b + l_records l"
    "domainHealthEncoding (snd (leaseDrop r (Some l) b)) = domainHealthEncoding b" for r b
    using leaseDrop_credits [OF lease(1)] lease(2) leaseDrop_frame by (simp_all add: l_def)
  have dt: "dropTotal (b\<lparr>domainHealthEncoding := x\<rparr>) = dropTotal b" for b x
    by (simp add: dropTotal_def)
  define b0 where "b0 = \<lparr>b_data = [], b_cap = min rawLimit (l_records l * 448), b_limit = rawLimit\<rparr>"
  define a1 where "a1 = a\<lparr>domainHealthEncoding := True\<rparr>"
  consider "ret 0" | "\<not> ret 0" "domainHealthEncoding a" | "\<not> ret 0" "\<not> domainHealthEncoding a" "rawLimit \<le> 0"
    | r where "\<not> ret 0" "\<not> domainHealthEncoding a" "0 < rawLimit"
        "encodeHealthRows (ret \<circ> Suc) ps 0 (s_rows snap) b0 = Inl r"
    | b where "\<not> ret 0" "\<not> domainHealthEncoding a" "0 < rawLimit"
        "encodeHealthRows (ret \<circ> Suc) ps 0 (s_rows snap) b0 = Inr b"
    by (cases "encodeHealthRows (ret \<circ> Suc) ps 0 (s_rows snap) b0") force+
  then show ?thesis
  proof cases
    case (5 b)
    have "buf_ok b0" using 5(3) lease(2) by (simp add: b0_def buf_ok_def l_def)
    from encodeHealthRows_Inr [OF 5(4) this]
    have "b_data b = concat (map (\<lambda>(k, c). encodeDomainHealthRow ps k c) (s_rows snap))"
      "int (length (b_data b)) \<le> rawLimit"
      by (auto simp: b0_def buf_ok_def)
    moreover have "fo = Some \<lparr>f_raw = b_data b, f_lease = l, f_encodedRows = 0, f_finished = False\<rparr>"
      "a' = a1"
      using prep 5 by (simp_all add: prepareDomainHealth_def Let_def l_def b0_def a1_def)
    ultimately show ?thesis using 5(2) by (simp add: l_def a1_def)
  qed (use prep drop dt in
      \<open>auto simp: prepareDomainHealth_def Let_def l_def [symmetric] b0_def [symmetric]\<close>)
qed

text \<open>Finishing returns the permit, and finishing again changes nothing.\<close>

lemma finishEncoding_spec:
  "\<not> f_finished f \<Longrightarrow> finishEncoding (Some f) a
     = (Some (f\<lparr>f_finished := True, f_raw := []\<rparr>), a\<lparr>domainHealthEncoding := False\<rparr>)"
  "finishEncoding (fst (finishEncoding fo a)) b = (fst (finishEncoding fo a), b)"
  by (auto simp: finishEncoding_def split: option.splits)

end
