(* ===== verification/Node_State.thy ===== *)
theory Node_State
  imports Rows
begin

text \<open>
  The per-minute summary of the overload sampler (node\_state.go): one sample a second is
  folded into the current minute; a completed minute is queued for the next flush when it is
  worth shipping.
\<close>

definition nodeStateHeartbeatMinutes :: u32 where "nodeStateHeartbeatMinutes = 10"

definition nodeStateMaxReady :: nat where "nodeStateMaxReady = 30"

record nodeStateSample =
  ss_level :: int
  ss_reasons :: u32
  ss_schedUs :: int
  ss_burstEstS :: int
  ss_burstModel :: string
  ss_inflight :: int
  ss_admissionLimit :: int
  ss_gomaxprocs :: int

text \<open>The package counters, read by \<open>snapshotOverloadCounts\<close> in the order of the wire.\<close>

record overloadCounts =
  oc_wafSkippedDetect :: u64
  oc_wafSkippedStatic :: u64
  oc_wafWouldSkip :: u64
  oc_shed :: "u64 list"
  oc_wouldShed :: u64

definition snapshotOverloadCounts :: "overloadCounts \<Rightarrow> u64 list" where
  "snapshotOverloadCounts oc =
     [oc_wafSkippedDetect oc, oc_wafSkippedStatic oc, oc_wafWouldSkip oc]
     @ map (\<lambda>i. oc_shed oc ! i) [0..<4] @ [oc_wouldShed oc]"

definition worthShipping :: "nodeStateMinute \<Rightarrow> bool" where
  "worthShipping m =
     (nm_levelMax m > 0 \<or> nm_ts m mod nodeStateHeartbeatMinutes = 0 \<or> list_ex (\<lambda>c. c > 0) (nm_counts m))"

record nodeStateAccumulator =
  ns_cur :: "nodeStateMinute option"
  ns_base :: "u64 list"
  ns_ready :: "nodeStateMinute list"

definition newMinute :: "u32 \<Rightarrow> nodeStateMinute" where
  "newMinute minute =
     \<lparr>nm_ts = minute, nm_levelMax = 0, nm_l1Seconds = 0, nm_l2Seconds = 0, nm_reasons = 0,
      nm_schedP99UsMax = 0, nm_burstEstSMin = -1, nm_burstModel = [], nm_inflightMax = 0,
      nm_admissionLimitMin = 0, nm_counts = replicate nsCounters 0, nm_gomaxprocs = 0\<rparr>"

text \<open>Folding one sample into a minute.\<close>

definition addSample :: "nodeStateSample \<Rightarrow> nodeStateMinute \<Rightarrow> nodeStateMinute" where
  "addSample s m =
     m\<lparr>nm_levelMax := (if ss_level s > nm_levelMax m then ss_level s else nm_levelMax m),
       nm_l1Seconds := (if ss_level s = 1 then nm_l1Seconds m + 1 else nm_l1Seconds m),
       nm_l2Seconds := (if ss_level s = 2 then nm_l2Seconds m + 1 else nm_l2Seconds m),
       nm_reasons := nm_reasons m OR ss_reasons s,
       nm_schedP99UsMax := (if ss_schedUs s > nm_schedP99UsMax m then ss_schedUs s else nm_schedP99UsMax m),
       nm_burstEstSMin := (if ss_burstEstS s \<ge> 0 \<and> (nm_burstEstSMin m < 0 \<or> ss_burstEstS s < nm_burstEstSMin m)
                           then ss_burstEstS s else nm_burstEstSMin m),
       nm_burstModel := ss_burstModel s,
       nm_inflightMax := (if ss_inflight s > nm_inflightMax m then ss_inflight s else nm_inflightMax m),
       nm_admissionLimitMin :=
         (if ss_admissionLimit s > 0
             \<and> (nm_admissionLimitMin m = 0 \<or> ss_admissionLimit s < nm_admissionLimitMin m)
          then ss_admissionLimit s else nm_admissionLimitMin m),
       nm_gomaxprocs := ss_gomaxprocs s\<rparr>"

text \<open>Closing the current minute when a sample of another minute arrives.\<close>

definition closeMinute :: "u32 \<Rightarrow> u64 list \<Rightarrow> nodeStateAccumulator \<Rightarrow> nodeStateAccumulator" where
  "closeMinute minute counts a =
     (case ns_cur a of
        None \<Rightarrow> a
      | Some cur \<Rightarrow>
          if nm_ts cur = minute then a
          else
            (let fin = cur\<lparr>nm_counts := map2 (\<lambda>c b. c - b) counts (ns_base a)\<rparr>;
                 ready = (if worthShipping fin
                          then (if length (ns_ready a) \<ge> nodeStateMaxReady then tl (ns_ready a)
                                else ns_ready a) @ [fin]
                          else ns_ready a)
             in a\<lparr>ns_ready := ready, ns_cur := None\<rparr>))"

definition observe :: "u32 \<Rightarrow> u64 list \<Rightarrow> nodeStateSample \<Rightarrow> nodeStateAccumulator \<Rightarrow> nodeStateAccumulator" where
  "observe minute counts s a =
     (let a1 = closeMinute minute counts a
      in case ns_cur a1 of
           None \<Rightarrow> a1\<lparr>ns_cur := Some (addSample s (newMinute minute)), ns_base := counts\<rparr>
         | Some m \<Rightarrow> a1\<lparr>ns_cur := Some (addSample s m)\<rparr>)"

definition drainNodeStates :: "nodeStateAccumulator \<Rightarrow> nodeStateMinute list \<times> nodeStateAccumulator" where
  "drainNodeStates a = (ns_ready a, a\<lparr>ns_ready := []\<rparr>)"

definition resetNodeStates :: "nodeStateAccumulator \<Rightarrow> nodeStateAccumulator" where
  "resetNodeStates a = a\<lparr>ns_cur := None, ns_ready := []\<rparr>"

section \<open>The queue of completed minutes\<close>

lemma observe_ready_bound:
  assumes "length (ns_ready a) \<le> nodeStateMaxReady"
  shows "length (ns_ready (observe minute counts s a)) \<le> nodeStateMaxReady"
proof -
  have "length (ns_ready (closeMinute minute counts a)) \<le> nodeStateMaxReady"
    using assms by (auto simp: closeMinute_def Let_def nodeStateMaxReady_def split: option.splits)
  then show ?thesis by (simp add: observe_def Let_def split: option.split)
qed

text \<open>Every queued minute was worth a row, and the current minute is never queued.\<close>

lemma closeMinute_worth:
  "\<forall>m \<in> set (ns_ready a). worthShipping m \<Longrightarrow>
   \<forall>m \<in> set (ns_ready (closeMinute minute counts a)). worthShipping m"
proof -
  have "set (tl xs) \<subseteq> set xs" for xs :: "nodeStateMinute list" by (cases xs) auto
  then show "\<forall>m \<in> set (ns_ready a). worthShipping m \<Longrightarrow> ?thesis"
    by (auto simp: closeMinute_def Let_def split: option.splits)
qed

lemma observe_worth:
  "\<forall>m \<in> set (ns_ready a). worthShipping m \<Longrightarrow>
   \<forall>m \<in> set (ns_ready (observe minute counts s a)). worthShipping m"
  using closeMinute_worth [of a minute counts]
  by (simp add: observe_def Let_def split: option.split)

section \<open>A minute is the summary of its samples\<close>

abbreviation observeAll :: "u32 \<Rightarrow> (u64 list \<times> nodeStateSample) list \<Rightarrow> nodeStateAccumulator \<Rightarrow> nodeStateAccumulator" where
  "observeAll minute \<equiv> fold (\<lambda>(counts, s). observe minute counts s)"

lemma observe_same:
  "ns_cur a = Some m \<Longrightarrow> nm_ts m = minute \<Longrightarrow>
   observe minute counts s a = a\<lparr>ns_cur := Some (addSample s m)\<rparr>"
  by (simp add: observe_def closeMinute_def)

lemma addSample_ts [simp]: "nm_ts (addSample s m) = nm_ts m" "nm_counts (addSample s m) = nm_counts m"
  by (simp_all add: addSample_def)

lemma observeAll_cur:
  "ns_cur a = Some m \<Longrightarrow> nm_ts m = minute \<Longrightarrow>
   observeAll minute css a = a\<lparr>ns_cur := Some (fold (addSample \<circ> snd) css m)\<rparr>"
  by (induction css arbitrary: a m) (auto simp: observe_same)

definition secondsAt :: "int \<Rightarrow> nodeStateSample list \<Rightarrow> nat" where
  "secondsAt l ss = length (filter (\<lambda>s. ss_level s = l) ss)"

lemma fold_addSample:
  "nm_levelMax (fold addSample ss m) = fold (max \<circ> ss_level) ss (nm_levelMax m)"
  "nm_l1Seconds (fold addSample ss m) = nm_l1Seconds m + int (secondsAt 1 ss)"
  "nm_l2Seconds (fold addSample ss m) = nm_l2Seconds m + int (secondsAt 2 ss)"
  "nm_reasons (fold addSample ss m) = fold (\<lambda>s r. r OR ss_reasons s) ss (nm_reasons m)"
  "nm_schedP99UsMax (fold addSample ss m) = fold (max \<circ> ss_schedUs) ss (nm_schedP99UsMax m)"
  "nm_inflightMax (fold addSample ss m) = fold (max \<circ> ss_inflight) ss (nm_inflightMax m)"
  by (induction ss arbitrary: m) (auto simp: addSample_def secondsAt_def max_def)

section \<open>The counters of the shipped minutes add up\<close>

definition countAt :: "nat \<Rightarrow> nodeStateMinute list \<Rightarrow> u64" where
  "countAt i ms = sum_list (map (\<lambda>m. nm_counts m ! i) ms)"

lemma not_worth_zero:
  assumes "\<not> worthShipping m" and "i < length (nm_counts m)"
  shows "nm_counts m ! i = 0"
proof -
  have "\<not> 0 < nm_counts m ! i"
    using assms unfolding worthShipping_def list_ex_iff by (meson nth_mem)
  then show ?thesis by (simp add: word_gt_0)
qed

text \<open>
  While no minute is evicted, the counts of the queued minutes are the growth of the counters
  up to the start of the current minute: a minute that is not shipped had nothing to count.
\<close>

theorem observe_counts:
  assumes "ns_cur a = Some cur" and "length (ns_ready a) < nodeStateMaxReady"
    and "i < length counts" and "length counts = length (ns_base a)"
    and "countAt i (ns_ready a) = ns_base a ! i - c0"
  shows "countAt i (ns_ready (observe minute counts s a)) = ns_base (observe minute counts s a) ! i - c0"
proof (cases "nm_ts cur = minute")
  case True
  then show ?thesis using assms by (simp add: observe_same)
next
  case False
  define fin where "fin = cur\<lparr>nm_counts := map2 (\<lambda>c b. c - b) counts (ns_base a)\<rparr>"
  have c: "nm_counts fin ! i = counts ! i - ns_base a ! i" using assms(3,4) by (simp add: fin_def)
  have "countAt i (ns_ready (closeMinute minute counts a)) = counts ! i - c0"
  proof (cases "worthShipping fin")
    case True
    then show ?thesis using assms False c
      by (simp add: closeMinute_def fin_def [symmetric] Let_def countAt_def)
  next
    case not: False
    then have "counts ! i = ns_base a ! i" using not_worth_zero [OF not, of i] c assms(3,4)
      by (simp add: fin_def)
    then show ?thesis using assms False not
      by (simp add: closeMinute_def fin_def [symmetric] Let_def)
  qed
  moreover have "ns_cur (closeMinute minute counts a) = None"
    using assms(1) False by (simp add: closeMinute_def Let_def)
  ultimately show ?thesis by (simp add: observe_def Let_def)
qed

end
