(* ===== verification/Batch.thy ===== *)
theory Batch
  imports Wire Http_Props L4_Props Attempts Recorder_Props Health_Props Node_State
begin

text \<open>
  The flush (app.go): \<open>encodeBatchWith\<close> writes one line per row of every track,
  \<open>drainAndEncode\<close> empties all the tracks and encodes them.  The gzip stream wraps a buffer in
  memory and does not fail; the text here is what is compressed.  That encoding may fail at
  all is the test seam \<open>encodeBatchFn\<close>, kept as the argument \<open>encodeOk\<close>.
\<close>

section \<open>Encoding a batch\<close>

record batchRows =
  br_snap :: "(Key, Counter) gomap"
  br_uniq :: "(uniqueKey, u64 list) gomap"
  br_sni :: "(L4SniKey, u64) gomap"
  br_ip :: l4IpSnap
  br_fp :: "(fingerprintKey, u64) gomap"
  br_fpIp :: "(fingerprintIpKey, u64) gomap"
  br_coraza :: "corazaDetection list"
  br_challenge :: "(challengeAttemptKey, u64) gomap"
  br_edgeVerify :: "(edgeVerifyAttemptKey, u64) gomap"
  br_reqEvents :: "requestEventRow list"
  br_blocks :: "(l4BlockKey, u64) gomap"
  br_nodeStates :: "nodeStateMinute list"

definition encodePrefixRows :: "u32 \<Rightarrow> u32 \<Rightarrow> (string, u64) gomap \<Rightarrow> string" where
  "encodePrefixRows ps ts m = concat (map (\<lambda>(k, count).
     case splitPrefixKey k of
       None \<Rightarrow> []
     | Some (pfx, n) \<Rightarrow> encodeL4IpPrefixRow ps ts pfx n count) m)"

definition encodeIpSniRows :: "u32 \<Rightarrow> u32 \<Rightarrow> (string, u64) gomap \<Rightarrow> string" where
  "encodeIpSniRows ps ts m = concat (map (\<lambda>(k, count).
     case splitIpSniKey k of
       None \<Rightarrow> []
     | Some (ip, sni, outcome) \<Rightarrow> encodeL4IpSniRow ps ts ip sni outcome count) m)"

text \<open>Everything before the health frame, in the order of the code.\<close>

definition encodeTracks :: "string \<Rightarrow> u32 \<Rightarrow> u32 \<Rightarrow> batchRows \<Rightarrow> string" where
  "encodeTracks machineID ps flushTs b =
     concat (map (\<lambda>(k, c). encodeRow ps k c) (br_snap b))
     @ concat (map (\<lambda>(uk, hs). encodeUniquesRow ps uk hs) (br_uniq b))
     @ concat (map (\<lambda>(k, c). encodeL4SniRow ps k c) (br_sni b))
     @ concat (map (\<lambda>r. encodeL4IpTopkRow ps flushTs (tr_IP r) (tr_Count r)) (topkRows (br_ip b)))
     @ concat (map (encodeL4IpUniquesRawRow ps flushTs) (snSampled (br_ip b)))
     @ encodePrefixRows ps flushTs (snPrefix (br_ip b))
     @ encodeIpSniRows ps flushTs (snIpSni (br_ip b))
     @ concat (map (\<lambda>(k, c). encodeL4FingerprintRow ps (fk_TsUnixMin k) (fk_JA3 k) (fk_JA4 k)
                               (fk_Outcome k) c) (br_fp b))
     @ concat (map (\<lambda>(k, c). encodeL4FingerprintIpRow ps (fi_TsUnixMin k) (fi_JA4 k) (fi_IP k) c)
         (br_fpIp b))
     @ concat (map (\<lambda>ev. encodeCorazaDetectionRow ev ps) (br_coraza b))
     @ concat (map (\<lambda>(k, c). encodeChallengeAttemptRow ps flushTs k c) (br_challenge b))
     @ concat (map (\<lambda>(k, c). encodeEdgeVerifyAttemptRow ps flushTs k c) (br_edgeVerify b))
     @ concat (map (encodeRequestEventRow ps) (br_reqEvents b))
     @ concat (map (\<lambda>(k, c). encodeL4BlockRow ps k c) (br_blocks b))
     @ concat (map (encodeNodeStateRow ps machineID) (br_nodeStates b))"

definition encodeBatchWith ::
    "bool \<Rightarrow> string \<Rightarrow> u32 \<Rightarrow> u32 \<Rightarrow> batchRows \<Rightarrow> domainHealthFrame option \<Rightarrow> healthState
     \<Rightarrow> string \<times> domainHealthFrame option \<times> healthState" where
  "encodeBatchWith ret machineID ps flushTs b frame hs =
     (case frameWriteTo ret frame hs of
        (txt, frame', hs') \<Rightarrow> (encodeTracks machineID ps flushTs b @ txt, frame', hs'))"

definition encodeBatch :: "u32 \<Rightarrow> u32 \<Rightarrow> batchRows \<Rightarrow> string" where
  "encodeBatch ps flushTs b = encodeTracks [] ps flushTs (b\<lparr>br_nodeStates := []\<rparr>)"

section \<open>What the batch says\<close>

definition uniquesRows :: "u32 \<Rightarrow> uniqueKey \<times> u64 list \<Rightarrow> jfields list" where
  "uniquesRows ps r = (case r of (uk, hs) \<Rightarrow> if hs = [] then [] else [uniquesFields ps uk hs])"

definition prefixRows :: "u32 \<Rightarrow> u32 \<Rightarrow> string \<times> u64 \<Rightarrow> jfields list" where
  "prefixRows ps ts r = (case r of (k, count) \<Rightarrow>
     (case splitPrefixKey k of None \<Rightarrow> [] | Some (pfx, n) \<Rightarrow> [prefixFields ps ts pfx n count]))"

definition ipSniRows :: "u32 \<Rightarrow> u32 \<Rightarrow> string \<times> u64 \<Rightarrow> jfields list" where
  "ipSniRows ps ts r = (case r of (k, count) \<Rightarrow>
     (case splitIpSniKey k of
        None \<Rightarrow> [] | Some (ip, sni, outcome) \<Rightarrow> [ipSniFields ps ts ip sni outcome count]))"

definition trackFields :: "string \<Rightarrow> u32 \<Rightarrow> u32 \<Rightarrow> batchRows \<Rightarrow> jfields list" where
  "trackFields machineID ps flushTs b =
     map (\<lambda>(k, c). counterFields ps k c) (br_snap b)
     @ concat (map (uniquesRows ps) (br_uniq b))
     @ map (\<lambda>(k, c). sniFields ps k c) (br_sni b)
     @ map (\<lambda>r. topkFields ps flushTs (tr_IP r) (tr_Count r)) (topkRows (br_ip b))
     @ map (uniquesRawFields ps flushTs) (snSampled (br_ip b))
     @ concat (map (prefixRows ps flushTs) (snPrefix (br_ip b)))
     @ concat (map (ipSniRows ps flushTs) (snIpSni (br_ip b)))
     @ map (\<lambda>(k, c). fingerprintFields ps (fk_TsUnixMin k) (fk_JA3 k) (fk_JA4 k) (fk_Outcome k) c) (br_fp b)
     @ map (\<lambda>(k, c). fingerprintIpFields ps (fi_TsUnixMin k) (fi_JA4 k) (fi_IP k) c) (br_fpIp b)
     @ map (\<lambda>ev. corazaFields ev ps) (br_coraza b)
     @ map (\<lambda>(k, c). challengeFields ps flushTs k c) (br_challenge b)
     @ map (\<lambda>(k, c). edgeVerifyFields ps flushTs k c) (br_edgeVerify b)
     @ map (requestEventFields ps) (br_reqEvents b)
     @ map (\<lambda>(k, c). blockFields ps k c) (br_blocks b)
     @ map (nodeStateFields ps machineID) (br_nodeStates b)"

lemma ndjson_map:
  "(\<And>x. x \<in> set xs \<Longrightarrow> ndjson (f x) [g x]) \<Longrightarrow> ndjson (concat (map f xs)) (map g xs)"
  using ndjson_concat [of xs f "\<lambda>x. [g x]"] by simp

lemma encodeTracks_ndjson: "ndjson (encodeTracks machineID ps ts b) (trackFields machineID ps ts b)"
  unfolding encodeTracks_def trackFields_def
proof (intro ndjson_append)
  show "ndjson (concat (map (\<lambda>(k, c). encodeRow ps k c) (br_snap b)))
      (map (\<lambda>(k, c). counterFields ps k c) (br_snap b))"
    using counter_row.row_ndjson [of "(ps, _, _)"] by (intro ndjson_map) auto
  show "ndjson (concat (map (\<lambda>(uk, hs). encodeUniquesRow ps uk hs) (br_uniq b)))
      (concat (map (uniquesRows ps) (br_uniq b)))"
  proof (rule ndjson_concat)
    fix x :: "uniqueKey \<times> u64 list"
    obtain uk hs where x: "x = (uk, hs)" by (cases x)
    show "ndjson (case x of (uk, hs) \<Rightarrow> encodeUniquesRow ps uk hs) (uniquesRows ps x)"
      using uniques_row.row_ndjson [of "(ps, uk, _, _)"]
      by (cases hs) (auto simp: x uniquesRows_def encodeUniquesRow_def)
  qed
  show "ndjson (concat (map (\<lambda>(k, c). encodeL4SniRow ps k c) (br_sni b)))
      (map (\<lambda>(k, c). sniFields ps k c) (br_sni b))"
    using sni_row.row_ndjson [of "(ps, _, _)"] by (intro ndjson_map) auto
  show "ndjson (concat (map (\<lambda>r. encodeL4IpTopkRow ps ts (tr_IP r) (tr_Count r)) (topkRows (br_ip b))))
      (map (\<lambda>r. topkFields ps ts (tr_IP r) (tr_Count r)) (topkRows (br_ip b)))"
    using topk_row.row_ndjson [of "(ps, ts, _, _)"] by (intro ndjson_map) auto
  show "ndjson (concat (map (encodeL4IpUniquesRawRow ps ts) (snSampled (br_ip b))))
      (map (uniquesRawFields ps ts) (snSampled (br_ip b)))"
    using uniques_raw_row.row_ndjson [of "(ps, ts, _)"] by (intro ndjson_map) auto
  show "ndjson (encodePrefixRows ps ts (snPrefix (br_ip b)))
      (concat (map (prefixRows ps ts) (snPrefix (br_ip b))))"
    unfolding encodePrefixRows_def using prefix_row.row_ndjson [of "(ps, ts, _, _, _)"]
    by (intro ndjson_concat) (auto simp: prefixRows_def split: prod.split option.split)
  show "ndjson (encodeIpSniRows ps ts (snIpSni (br_ip b)))
      (concat (map (ipSniRows ps ts) (snIpSni (br_ip b))))"
    unfolding encodeIpSniRows_def using ip_sni_row.row_ndjson [of "(ps, ts, _, _, _, _)"]
    by (intro ndjson_concat) (auto simp: ipSniRows_def split: prod.split option.split)
  show "ndjson (concat (map (\<lambda>(k, c). encodeL4FingerprintRow ps (fk_TsUnixMin k) (fk_JA3 k) (fk_JA4 k)
        (fk_Outcome k) c) (br_fp b)))
      (map (\<lambda>(k, c). fingerprintFields ps (fk_TsUnixMin k) (fk_JA3 k) (fk_JA4 k) (fk_Outcome k) c) (br_fp b))"
    using fingerprint_row.row_ndjson [of "(ps, _, _, _, _, _)"] by (intro ndjson_map) auto
  show "ndjson (concat (map (\<lambda>(k, c). encodeL4FingerprintIpRow ps (fi_TsUnixMin k) (fi_JA4 k) (fi_IP k) c) (br_fpIp b)))
      (map (\<lambda>(k, c). fingerprintIpFields ps (fi_TsUnixMin k) (fi_JA4 k) (fi_IP k) c) (br_fpIp b))"
    using fingerprint_ip_row.row_ndjson [of "(ps, _, _, _, _)"] by (intro ndjson_map) auto
  show "ndjson (concat (map (\<lambda>ev. encodeCorazaDetectionRow ev ps) (br_coraza b)))
      (map (\<lambda>ev. corazaFields ev ps) (br_coraza b))"
    using coraza_row.row_ndjson [of "(_, ps)"] by (intro ndjson_map) auto
  show "ndjson (concat (map (\<lambda>(k, c). encodeChallengeAttemptRow ps ts k c) (br_challenge b)))
      (map (\<lambda>(k, c). challengeFields ps ts k c) (br_challenge b))"
    using challenge_row.row_ndjson [of "(ps, ts, _, _)"] by (intro ndjson_map) auto
  show "ndjson (concat (map (\<lambda>(k, c). encodeEdgeVerifyAttemptRow ps ts k c) (br_edgeVerify b)))
      (map (\<lambda>(k, c). edgeVerifyFields ps ts k c) (br_edgeVerify b))"
    using edge_verify_row.row_ndjson [of "(ps, ts, _, _)"] by (intro ndjson_map) auto
  show "ndjson (concat (map (encodeRequestEventRow ps) (br_reqEvents b)))
      (map (requestEventFields ps) (br_reqEvents b))"
    using request_event_row.row_ndjson [of "(ps, _)"] by (intro ndjson_map) auto
  show "ndjson (concat (map (\<lambda>(k, c). encodeL4BlockRow ps k c) (br_blocks b)))
      (map (\<lambda>(k, c). blockFields ps k c) (br_blocks b))"
    using block_row.row_ndjson [of "(ps, _, _)"] by (intro ndjson_map) auto
  show "ndjson (concat (map (encodeNodeStateRow ps machineID) (br_nodeStates b)))
      (map (nodeStateFields ps machineID) (br_nodeStates b))"
    using node_state_row.row_ndjson [of "(ps, machineID, _)"] by (intro ndjson_map) auto
qed

lemma healthRows_ndjson:
  "ndjson (concat (map (\<lambda>(k, c). encodeDomainHealthRow ps k c) rows))
     (map (\<lambda>(k, c). domainHealthFields ps k c) rows)"
  using domain_health_row.row_ndjson [of "(ps, _, _)"] by (intro ndjson_map) auto

section \<open>The application state\<close>

text \<open>
  The tracks of \<open>StatsApp\<close>.  The node-state accumulator and, inside the health state, the
  credits and the encode permit are package variables in Go; the memory governor is in the
  health state and shared by the buffers.  \<open>'t\<close> is the type of the heavy-hitter sketch.
\<close>

record 't statsApp =
  app_cfg :: ingestRuntime
  app_ps :: u32
  app_machineID :: string
  app_http :: httpState
  app_sni :: l4SniTrack
  app_ip :: "'t l4IpTrack"
  app_fp :: fingerprintTrack
  app_coraza :: corazaTrack
  app_block :: l4BlockTrack
  app_challenge :: challengeTrack
  app_edgeVerify :: edgeVerifyTrack
  app_health :: healthState
  app_reqEvents :: "requestEventRecorder option"
  app_nodeStates :: nodeStateAccumulator
  app_dropped :: u64

abbreviation app_gov :: "'t statsApp \<Rightarrow> memGovernor option" where
  "app_gov a \<equiv> memGov (app_health a)"

definition setGov :: "memGovernor option \<Rightarrow> 't statsApp \<Rightarrow> 't statsApp" where
  "setGov gov a = a\<lparr>app_health := (app_health a)\<lparr>memGov := gov\<rparr>\<rparr>"

definition emptyIpSnap :: l4IpSnap where
  "emptyIpSnap = \<lparr>topkRows = [], snSampled = [], snPrefix = [], snIpSni = []\<rparr>"

definition orEmpty :: "('k, 'v) gomap option \<Rightarrow> ('k, 'v) gomap" where
  "orEmpty m = (case m of None \<Rightarrow> [] | Some x \<Rightarrow> x)"

section \<open>Draining (\<open>drainAndEncode\<close>)\<close>

text \<open>The tracks outside HTTP, drained by the regular flush only.\<close>

definition drainL4 ::
    "('t \<Rightarrow> (string \<times> u32) list) \<Rightarrow> ('t \<Rightarrow> 't) \<Rightarrow> u32 \<Rightarrow> batchRows \<Rightarrow> 't statsApp
     \<Rightarrow> batchRows \<times> 't statsApp" where
  "drainL4 sortedSlice reset flushTs b a =
     (let (nodes, ns) = drainNodeStates (app_nodeStates a);
          (sni, sniT) = drainL4SniRows (app_sni a);
          (ip, ipT) = l4IpSnapshot sortedSlice reset (app_ip a);
          (fp, fpT) = fingerprintSnapshot (app_fp a);
          (fpIp, fpT') = fingerprintIpSnapshot fpT;
          (cor, corT, gov) = corazaSnapshot (app_coraza a, app_gov a);
          (blocks, blT) = l4BlockSnapshot flushTs (app_block a)
      in (b\<lparr>br_nodeStates := nodes, br_sni := sni, br_ip := ip, br_fp := fp, br_fpIp := fpIp,
            br_coraza := cor, br_blocks := blocks\<rparr>,
          setGov gov (a\<lparr>app_nodeStates := ns, app_sni := sniT, app_ip := ipT, app_fp := fpT',
            app_coraza := corT, app_block := blT\<rparr>)))"

definition noRows :: batchRows where
  "noRows = \<lparr>br_snap = [], br_uniq = [], br_sni = [], br_ip = emptyIpSnap, br_fp = [],
     br_fpIp = [], br_coraza = [], br_challenge = [], br_edgeVerify = [], br_reqEvents = [],
     br_blocks = [], br_nodeStates = []\<rparr>"

definition drainTracks ::
    "('t \<Rightarrow> (string \<times> u32) list) \<Rightarrow> ('t \<Rightarrow> 't) \<Rightarrow> bool \<Rightarrow> u32 \<Rightarrow> 't statsApp
     \<Rightarrow> batchRows \<times> 't statsApp" where
  "drainTracks sortedSlice reset httpOnly flushTs a =
     (let (snap, uniq, h) = drainShards (app_http a);
          b0 = noRows\<lparr>br_snap := snap, br_uniq := uniq\<rparr>;
          a0 = a\<lparr>app_http := h\<rparr>;
          (b1, a1) = (if httpOnly then (b0, a0) else drainL4 sortedSlice reset flushTs b0 a0);
          (ch, chT) = challengeSnapshot (app_challenge a1);
          (ev, evT) = edgeVerifySnapshot (app_edgeVerify a1)
      in (b1\<lparr>br_challenge := orEmpty ch, br_edgeVerify := orEmpty ev\<rparr>,
          a1\<lparr>app_challenge := chT, app_edgeVerify := evT\<rparr>))"

text \<open>
  \<open>ret 0\<close> is the retired flag as the flush first reads it, \<open>ret (i + 1)\<close> the readings of
  \<open>prepareDomainHealth\<close>.
\<close>

definition drainHealth :: "(nat \<Rightarrow> bool) \<Rightarrow> 't statsApp \<Rightarrow> domainHealthFrame option \<times> 't statsApp" where
  "drainHealth ret a =
     (if ret 0
      then (None, a\<lparr>app_health := discardDomainHealth DropRetired (app_health a)\<rparr>)
      else (let (snap, hs) = drainDomainHealth (app_health a);
                (frame, hs') = prepareDomainHealth (ret \<circ> Suc) (app_ps a) snap domainHealthRawFrameBytes hs
            in (frame, a\<lparr>app_health := hs'\<rparr>)))"

definition drainReqEvents :: "batchRows \<Rightarrow> 't statsApp \<Rightarrow> batchRows \<times> 't statsApp" where
  "drainReqEvents b a =
     (case app_reqEvents a of
        None \<Rightarrow> (b, a)
      | Some r \<Rightarrow>
          (case drainRows (r, app_gov a) of
             (rows, _, r', gov) \<Rightarrow> (b\<lparr>br_reqEvents := rows\<rparr>, setGov gov (a\<lparr>app_reqEvents := Some r'\<rparr>))))"

definition rowCountOf :: "batchRows \<Rightarrow> int" where
  "rowCountOf b = int (length (br_snap b) + length (br_uniq b) + length (br_sni b)
     + length (topkRows (br_ip b)) + length (snSampled (br_ip b)) + length (snPrefix (br_ip b))
     + length (snIpSni (br_ip b)) + length (br_fp b) + length (br_fpIp b) + length (br_coraza b)
     + length (br_challenge b) + length (br_edgeVerify b) + length (br_reqEvents b)
     + length (br_blocks b) + length (br_nodeStates b))"

definition frameRecords :: "domainHealthFrame option \<Rightarrow> int" where
  "frameRecords fo = (case fo of None \<Rightarrow> 0 | Some f \<Rightarrow> l_records (f_lease f))"

definition finishApp :: "domainHealthFrame option \<Rightarrow> 't statsApp \<Rightarrow> 't statsApp" where
  "finishApp fo a = a\<lparr>app_health := snd (finishEncoding fo (app_health a))\<rparr>"

type_synonym encoded = "string \<times> int \<times> domainHealthLease option"

text \<open>The part after the drains: count, encode, account for a failure, hand over the lease.\<close>

definition encodeDrained ::
    "bool \<Rightarrow> bool \<Rightarrow> u32 \<Rightarrow> batchRows \<Rightarrow> domainHealthFrame option \<Rightarrow> 't statsApp
     \<Rightarrow> encoded option \<times> 't statsApp" where
  "encodeDrained retW encodeOk flushTs b frame a =
     (let healthRows = frameRecords frame; rowCount = rowCountOf b + healthRows
      in if rowCountOf b = 0 \<and> healthRows = 0 then (None, finishApp frame a)
         else if \<not> encodeOk then
           (None, finishApp frame (a\<lparr>app_health := (case frame of
                None \<Rightarrow> app_health a
              | Some f \<Rightarrow> snd (leaseDrop DropEncodeError (Some (f_lease f)) (app_health a))),
              app_dropped := app_dropped a + of_int rowCount\<rparr>))
         else
           (case encodeBatchWith retW (app_machineID a) (app_ps a) flushTs b frame (app_health a) of
              (body, frame', hs) \<Rightarrow>
                (let a' = finishApp frame' (a\<lparr>app_health := hs\<rparr>);
                     encodedRows = (case frame' of None \<Rightarrow> 0 | Some f \<Rightarrow> f_encodedRows f);
                     n = rowCount + (encodedRows - healthRows)
                 in if n = 0 then (None, a')
                    else (Some (body, n, if encodedRows > 0 then map_option f_lease frame' else None), a'))))"

definition drainAndEncode ::
    "('t \<Rightarrow> (string \<times> u32) list) \<Rightarrow> ('t \<Rightarrow> 't) \<Rightarrow> (nat \<Rightarrow> bool) \<Rightarrow> bool \<Rightarrow> bool \<Rightarrow> bool \<Rightarrow> u32
     \<Rightarrow> 't statsApp \<Rightarrow> encoded option \<times> 't statsApp" where
  "drainAndEncode sortedSlice reset ret retW encodeOk httpOnly flushTs a =
     (let (b, a1) = drainTracks sortedSlice reset httpOnly flushTs a;
          (frame, a2) = drainHealth ret a1;
          (b', a3) = drainReqEvents b a2
      in encodeDrained retW encodeOk flushTs b' frame a3)"

definition dropRows :: "int \<Rightarrow> 't statsApp \<Rightarrow> 't statsApp" where
  "dropRows rows a = a\<lparr>app_dropped := app_dropped a + of_int rows\<rparr>"

end
