(* ===== verification/Load_Balancer.thy ===== *)
theory Load_Balancer
  imports Complex_Main Prelude
begin

text \<open>
  Latency-aware upstream selection (lb\_registry.go, lb\_selector.go, lb\_recorder.go).  The registry
  is a map under one mutex, so each operation is one step; a selection takes the lock once per
  upstream, so the registry and the clock it reads are given per lookup.  Float64 arithmetic is
  real arithmetic with a rounding function \<open>rnd\<close> after each operation.  Caddy's replacer is a
  parameter: \<open>rp_get\<close> and \<open>rp_getString\<close> are its \<open>Get\<close> and \<open>GetString\<close>.
\<close>

section \<open>Caddy's replacer\<close>

datatype replValue = RStr string | RInt int | RDuration duration | ROther

record replacer =
  rp_get :: "string \<Rightarrow> replValue option"
  rp_getString :: "string \<Rightarrow> string option"

section \<open>The registry\<close>

record lbEntry =
  lb_ewma :: real
  lb_lastSeen :: gotime

type_synonym lbRegistry = "(string, lbEntry) gomap"

definition lbDecayHalfLife :: duration where "lbDecayHalfLife = 30 * Second"

definition lbEvictAfter :: duration where "lbEvictAfter = 10 * Minute"

definition lbReset :: "lbRegistry \<Rightarrow> lbRegistry" where
  "lbReset m = []"

definition lbDecayed :: "(real \<Rightarrow> real) \<Rightarrow> lbEntry \<Rightarrow> gotime \<Rightarrow> real" where
  "lbDecayed rnd e asOf =
     (let idle = time_Sub asOf (lb_lastSeen e)
      in if idle \<le> 0 then lb_ewma e
         else rnd (lb_ewma e * rnd ((1 / 2) powr rnd (rnd (of_int idle) / rnd (of_int lbDecayHalfLife)))))"

definition lbEvictLocked :: "gotime \<Rightarrow> lbRegistry \<Rightarrow> lbRegistry" where
  "lbEvictLocked now m = filter (\<lambda>(dial, e). \<not> lb_lastSeen e < now - lbEvictAfter) m"

definition lbEvict :: "gotime \<Rightarrow> lbRegistry \<Rightarrow> lbRegistry" where
  "lbEvict now m = lbEvictLocked now m"

text \<open>\<open>evictNow\<close> is the clock read by the sweep, \<open>now\<close> the one read after it.\<close>

definition lbRecord ::
    "(real \<Rightarrow> real) \<Rightarrow> gotime \<Rightarrow> gotime \<Rightarrow> string \<Rightarrow> duration \<Rightarrow> lbRegistry \<Rightarrow> lbRegistry" where
  "lbRecord rnd evictNow now dial d m =
     (if dial = [] \<or> d \<le> 0 then m
      else case map_of m dial of
             None \<Rightarrow> mput dial \<lparr>lb_ewma = rnd (of_int d), lb_lastSeen = now\<rparr> (lbEvictLocked evictNow m)
           | Some e \<Rightarrow>
               mput dial \<lparr>lb_ewma = rnd (rnd (rnd (2 / 10) * rnd (of_int d)) + rnd (rnd (8 / 10) * lbDecayed rnd e now)),
                          lb_lastSeen = now\<rparr> m)"

definition lbScore :: "(real \<Rightarrow> real) \<Rightarrow> gotime \<Rightarrow> string \<Rightarrow> lbRegistry \<Rightarrow> real \<times> bool" where
  "lbScore rnd now dial m =
     (case map_of m dial of None \<Rightarrow> (0, False) | Some e \<Rightarrow> (lbDecayed rnd e now, True))"

section \<open>The selector\<close>

text \<open>An upstream of Caddy's pool: its dial address; health and load are read through functions.\<close>

fun lbSelectLoop ::
    "(real \<Rightarrow> real) \<Rightarrow> (nat \<Rightarrow> gotime \<times> lbRegistry) \<Rightarrow> ('u \<Rightarrow> string) \<Rightarrow> ('u \<Rightarrow> bool) \<Rightarrow> ('u \<Rightarrow> int)
     \<Rightarrow> nat \<Rightarrow> ('u \<times> real) option \<Rightarrow> 'u list \<Rightarrow> ('u \<times> real) option" where
  "lbSelectLoop rnd env dial available inflight i best [] = best"
| "lbSelectLoop rnd env dial available inflight i best (up # pool) =
     (if \<not> available up then lbSelectLoop rnd env dial available inflight (Suc i) best pool
      else
        let ewma = fst (lbScore rnd (fst (env i)) (dial up) (snd (env i)));
            score = rnd (ewma * rnd (of_int (i64 (inflight up + 1))))
        in lbSelectLoop rnd env dial available inflight (Suc i)
             (case best of
                None \<Rightarrow> Some (up, score)
              | Some (b, bestScore) \<Rightarrow> if score < bestScore then Some (up, score) else Some (b, bestScore))
             pool)"

definition lbSelectLowest ::
    "(real \<Rightarrow> real) \<Rightarrow> (nat \<Rightarrow> gotime \<times> lbRegistry) \<Rightarrow> ('u \<Rightarrow> string) \<Rightarrow> ('u \<Rightarrow> bool) \<Rightarrow> ('u \<Rightarrow> int)
     \<Rightarrow> 'u list \<Rightarrow> 'u option" where
  "lbSelectLowest rnd env dial available inflight pool =
     map_option fst (lbSelectLoop rnd env dial available inflight 0 None pool)"

section \<open>The recorder\<close>

definition lbErrorPenalty :: duration where "lbErrorPenalty = 5 * Second"

definition lbGatewayError :: "replacer \<Rightarrow> bool" where
  "lbGatewayError repl =
     (case rp_get repl ''http.reverse_proxy.status_code'' of
        Some (RInt code) \<Rightarrow> code = 502 \<or> code = 503 \<or> code = 504
      | _ \<Rightarrow> False)"

definition lbObserve ::
    "(real \<Rightarrow> real) \<Rightarrow> gotime \<Rightarrow> gotime \<Rightarrow> replacer option \<Rightarrow> lbRegistry \<Rightarrow> lbRegistry" where
  "lbObserve rnd evictNow now replo m =
     (case replo of
        None \<Rightarrow> m
      | Some repl \<Rightarrow>
          (case rp_get repl ''http.reverse_proxy.upstream.latency'' of
             Some (RDuration d) \<Rightarrow>
               (case rp_getString repl ''http.reverse_proxy.upstream.hostport'' of
                  None \<Rightarrow> m
                | Some hostport \<Rightarrow>
                    if hostport = [] then m
                    else lbRecord rnd evictNow now hostport
                           (if lbGatewayError repl \<and> d < lbErrorPenalty then lbErrorPenalty else d) m)
           | _ \<Rightarrow> m))"

section \<open>The selection is the least score\<close>

text \<open>The score the loop computes for the \<open>i\<close>-th upstream of the pool.\<close>

definition scoreAt ::
    "(real \<Rightarrow> real) \<Rightarrow> (nat \<Rightarrow> gotime \<times> lbRegistry) \<Rightarrow> ('u \<Rightarrow> string) \<Rightarrow> ('u \<Rightarrow> int) \<Rightarrow> nat \<Rightarrow> 'u \<Rightarrow> real" where
  "scoreAt rnd env dial inflight i up =
     rnd (fst (lbScore rnd (fst (env i)) (dial up) (snd (env i))) * rnd (of_int (i64 (inflight up + 1))))"

text \<open>The best of a prefix of the pool: the first available upstream with the least score.\<close>

definition leastOf :: "(nat \<Rightarrow> 'u \<Rightarrow> real) \<Rightarrow> ('u \<Rightarrow> bool) \<Rightarrow> 'u list \<Rightarrow> ('u \<times> real) option \<Rightarrow> bool" where
  "leastOf sc av pool best =
     (case best of
        None \<Rightarrow> \<forall>up \<in> set pool. \<not> av up
      | Some (b, s) \<Rightarrow>
          \<exists>j < length pool. pool ! j = b \<and> av b \<and> s = sc j b
            \<and> (\<forall>i < length pool. av (pool ! i) \<longrightarrow> s \<le> sc i (pool ! i))
            \<and> (\<forall>i < j. av (pool ! i) \<longrightarrow> s < sc i (pool ! i)))"

lemma leastOf_skip: "leastOf sc av xs best \<Longrightarrow> \<not> av x \<Longrightarrow> leastOf sc av (xs @ [x]) best"
  by (fastforce simp: leastOf_def nth_append less_Suc_eq split: option.splits)

lemma leastOf_first: "leastOf sc av xs None \<Longrightarrow> av x \<Longrightarrow> leastOf sc av (xs @ [x]) (Some (x, sc (length xs) x))"
  by (auto simp: leastOf_def nth_append less_Suc_eq intro!: exI [of _ "length xs"])

lemma leastOf_keep:
  "leastOf sc av xs (Some (b, s)) \<Longrightarrow> \<not> sc (length xs) x < s \<Longrightarrow> leastOf sc av (xs @ [x]) (Some (b, s))"
  by (fastforce simp: leastOf_def nth_append less_Suc_eq)

lemma leastOf_take:
  assumes "leastOf sc av xs (Some (b, s))" and "sc (length xs) x < s" and "av x"
  shows "leastOf sc av (xs @ [x]) (Some (x, sc (length xs) x))"
proof -
  have "\<forall>i < length xs. av (xs ! i) \<longrightarrow> sc (length xs) x < sc i (xs ! i)"
    using assms(1,2) by (fastforce simp: leastOf_def)
  then show ?thesis
    using assms(3) by (auto simp: leastOf_def nth_append less_Suc_eq intro!: exI [of _ "length xs"] intro: less_imp_le)
qed

lemma lbSelectLoop_least:
  "leastOf (scoreAt rnd env dial inflight) av xs best \<Longrightarrow> i = length xs \<Longrightarrow>
   leastOf (scoreAt rnd env dial inflight) av (xs @ pool)
     (lbSelectLoop rnd env dial av inflight i best pool)"
proof (induction pool arbitrary: xs i best)
  case (Cons up pool)
  let ?sc = "scoreAt rnd env dial inflight"
  let ?s = "?sc i up"
  show ?case
  proof (cases "av up")
    case False
    with Cons.prems have "leastOf ?sc av (xs @ [up]) best" by (simp add: leastOf_skip)
    from Cons.IH [OF this] Cons.prems(2) False show ?thesis by simp
  next
    case True
    define best' where "best' = (case best of
        None \<Rightarrow> Some (up, ?s)
      | Some (b, bs) \<Rightarrow> if ?s < bs then Some (up, ?s) else Some (b, bs))"
    have "leastOf ?sc av (xs @ [up]) best'"
      using Cons.prems True leastOf_first [of ?sc av xs up] leastOf_keep [of ?sc av xs _ _ up]
        leastOf_take [of ?sc av xs _ _ up]
      by (auto simp: best'_def split: option.splits)
    from Cons.IH [OF this, of "Suc i"] Cons.prems(2)
    have "leastOf ?sc av (xs @ up # pool) (lbSelectLoop rnd env dial av inflight (Suc i) best' pool)"
      by simp
    moreover have "lbSelectLoop rnd env dial av inflight i best (up # pool)
      = lbSelectLoop rnd env dial av inflight (Suc i) best' pool"
      using True unfolding best'_def scoreAt_def by (simp add: Let_def)
    ultimately show ?thesis by simp
  qed
qed simp

lemma lbSelectLowest_least:
  "leastOf (scoreAt rnd env dial inflight) av pool (lbSelectLoop rnd env dial av inflight 0 None pool)"
  using lbSelectLoop_least [of rnd env dial inflight av "[]" None 0 pool] by (simp add: leastOf_def)

section \<open>The registry's invariant\<close>

text \<open>What is used of a float rounding: monotone, exact at 0 and 1, and a projection.\<close>

definition float_rounding :: "(real \<Rightarrow> real) \<Rightarrow> bool" where
  "float_rounding rnd =
     ((\<forall>x y. x \<le> y \<longrightarrow> rnd x \<le> rnd y) \<and> rnd 0 = 0 \<and> rnd 1 = 1 \<and> (\<forall>x. rnd (rnd x) = rnd x))"

definition lb_ok :: "(real \<Rightarrow> real) \<Rightarrow> lbRegistry \<Rightarrow> bool" where
  "lb_ok rnd m = (distinct_keys m \<and> (\<forall>(d, e) \<in> set m. d \<noteq> [] \<and> 0 \<le> lb_ewma e \<and> rnd (lb_ewma e) = lb_ewma e))"

lemma rounding_nonneg: "float_rounding rnd \<Longrightarrow> 0 \<le> x \<Longrightarrow> 0 \<le> rnd x"
  by (metis float_rounding_def)

lemma lbDecayed_bounds:
  assumes "float_rounding rnd" and "0 \<le> lb_ewma e" and "rnd (lb_ewma e) = lb_ewma e"
  shows "0 \<le> lbDecayed rnd e asOf \<and> lbDecayed rnd e asOf \<le> lb_ewma e"
proof (cases "time_Sub asOf (lb_lastSeen e) \<le> 0")
  case True
  then show ?thesis using assms(2) by (simp add: lbDecayed_def)
next
  case False
  let ?t = "rnd (rnd (of_int (time_Sub asOf (lb_lastSeen e))) / rnd (of_int lbDecayHalfLife))"
  have pos: "0 \<le> rnd (of_int (time_Sub asOf (lb_lastSeen e)))" "0 \<le> rnd (of_int lbDecayHalfLife)"
    using False by (auto simp: lbDecayHalfLife_def intro!: rounding_nonneg [OF assms(1)])
  then have "0 \<le> rnd (of_int (time_Sub asOf (lb_lastSeen e))) / rnd (of_int lbDecayHalfLife)"
    by (rule divide_nonneg_nonneg)
  then have t: "0 \<le> ?t" by (rule rounding_nonneg [OF assms(1)])
  have "(1 / 2) powr ?t \<le> (1 / 2) powr (0::real)"
    using t by (intro powr_mono') auto
  then have "(1 / 2) powr ?t \<le> (1::real)" by simp
  then have le1: "rnd ((1 / 2) powr ?t) \<le> 1" using assms(1) unfolding float_rounding_def by metis
  have ge0: "0 \<le> rnd ((1 / 2) powr ?t)" by (simp add: rounding_nonneg [OF assms(1)])
  have "lb_ewma e * rnd ((1 / 2) powr ?t) \<le> lb_ewma e * 1"
    using le1 assms(2) by (intro mult_left_mono)
  then have "rnd (lb_ewma e * rnd ((1 / 2) powr ?t)) \<le> rnd (lb_ewma e)"
    using assms(1) unfolding float_rounding_def by simp
  moreover have "0 \<le> rnd (lb_ewma e * rnd ((1 / 2) powr ?t))"
    by (rule rounding_nonneg [OF assms(1) mult_nonneg_nonneg [OF assms(2) ge0]])
  ultimately show ?thesis using False assms(3) by (simp add: lbDecayed_def Let_def)
qed

lemma distinct_filter_keys: "distinct_keys m \<Longrightarrow> distinct_keys (filter P m)"
  by (induction m) auto

lemma lb_ok_evict: "lb_ok rnd m \<Longrightarrow> lb_ok rnd (lbEvictLocked now m)"
  by (auto simp: lb_ok_def lbEvictLocked_def distinct_filter_keys)

lemma lb_ok_put:
  assumes "lb_ok rnd m" and "dial \<noteq> []" and "0 \<le> lb_ewma e" and "rnd (lb_ewma e) = lb_ewma e"
  shows "lb_ok rnd (mput dial e m)"
proof -
  have "d \<noteq> [] \<and> 0 \<le> lb_ewma x \<and> rnd (lb_ewma x) = lb_ewma x" if "(d, x) \<in> set (mput dial e m)" for d x
    using set_mput [OF that] assms unfolding lb_ok_def by blast
  then show ?thesis using assms(1) by (auto simp: lb_ok_def distinct_mput)
qed

lemma lb_ok_record:
  assumes "lb_ok rnd m" and "float_rounding rnd"
  shows "lb_ok rnd (lbRecord rnd t now dial d m)"
proof -
  have idem: "rnd (rnd x) = rnd x" for x using assms(2) by (simp add: float_rounding_def)
  show ?thesis
  proof (cases "dial = [] \<or> d \<le> 0")
    case True
    with assms(1) show ?thesis by (auto simp: lbRecord_def)
  next
    case False
    then have d: "0 \<le> rnd (real_of_int d)" by (intro rounding_nonneg [OF assms(2)]) simp
    show ?thesis
    proof (cases "map_of m dial")
      case None
      with False d show ?thesis
        by (auto simp: lbRecord_def idem intro!: lb_ok_put lb_ok_evict assms(1))
    next
      case (Some e)
      then have "0 \<le> lbDecayed rnd e now"
        using lbDecayed_bounds [OF assms(2), of e now] assms(1) map_of_SomeD [OF Some] unfolding lb_ok_def by blast
      then have "0 \<le> rnd (rnd (2 / 10) * rnd (real_of_int d))" "0 \<le> rnd (rnd (8 / 10) * lbDecayed rnd e now)"
        using d rounding_nonneg [OF assms(2), of "2 / 10"] rounding_nonneg [OF assms(2), of "8 / 10"]
        by (auto intro!: rounding_nonneg [OF assms(2)])
      then have "0 \<le> rnd (rnd (rnd (2 / 10) * rnd (real_of_int d)) + rnd (rnd (8 / 10) * lbDecayed rnd e now))"
        by (intro rounding_nonneg [OF assms(2) add_nonneg_nonneg])
      with False Some show ?thesis
        by (auto simp: lbRecord_def idem intro!: lb_ok_put assms(1))
    qed
  qed
qed

text \<open>A sweep keeps exactly the entries seen in the last ten minutes.\<close>

lemma evict_exact:
  "distinct_keys m \<Longrightarrow>
   map_of (lbEvictLocked now m) dial =
     (case map_of m dial of
        Some e \<Rightarrow> if now - lbEvictAfter \<le> lb_lastSeen e then Some e else None
      | None \<Rightarrow> None)"
proof (induction m)
  case (Cons a m)
  obtain k v where a: "a = (k, v)" by (cases a)
  have "dial = k \<Longrightarrow> map_of (filter P m) dial = None" for P
    using Cons.prems a by (simp add: map_of_None_keys) force
  with Cons a show ?case
    by (auto simp: lbEvictLocked_def simp del: map_of_None_keys split: option.splits)
qed (simp add: lbEvictLocked_def)

end
