(* ===== verification/Upstream_Failure.thy ===== *)
theory Upstream_Failure
  imports Load_Balancer Go_Text Rows
begin

text \<open>
  Upstream failures (upstream\_failure.go): the tree of a Go error as \<open>errors.Is\<close> and
  \<open>errors.As\<close> walk it, the evidence that the HTTP client's trace callbacks leave, and the
  classification of a failed request.  A callback takes the trace's lock once, so it is one
  step, and any sequence of callbacks is any interleaving of them.
\<close>

section \<open>Errors\<close>

text \<open>
  What the code asks of one error of a chain: its text, the sentinels it is (by \<open>==\<close> or its
  own \<open>Is\<close> method), and which of the types of the code it has, with the fields read of them.
  \<open>ef_netError\<close> is the result of \<open>Timeout\<close> of a \<open>net.Error\<close>, \<open>ef_dns\<close> that of a
  \<open>net.DNSError\<close>, \<open>ef_op\<close> the operation of a \<open>net.OpError\<close>, \<open>ef_retryable\<close> the type
  identity of Caddy's \<open>retryableResponseError\<close>.
\<close>

datatype sentinel = Canceled | ECONNREFUSED | ECONNRESET | EOF | ErrUnexpectedEOF

record handlerError =
  he_StatusCode :: int
  he_Trace :: string

record errFacts =
  ef_Error :: string
  ef_is :: "sentinel list"
  ef_handler :: "handlerError option"
  ef_netError :: "bool option"
  ef_certificate :: bool
  ef_dns :: "bool option"
  ef_op :: "string option"
  ef_retryable :: bool

text \<open>\<open>Wrap\<close> has the method \<open>Unwrap() error\<close> or none, \<open>Join\<close> the method \<open>Unwrap() []error\<close>.\<close>

datatype goError = Wrap (facts: errFacts) (inner: "goError option") | Join (facts: errFacts) (parts: "goError list")

text \<open>The errors of a tree in the order of \<open>errors.Is\<close> and \<open>errors.As\<close>: depth first.\<close>

fun errorTree :: "goError \<Rightarrow> goError list" where
  "errorTree (Wrap f None) = [Wrap f None]"
| "errorTree (Wrap f (Some e)) = Wrap f (Some e) # errorTree e"
| "errorTree (Join f es) = Join f es # concat (map errorTree es)"

definition errorsIs :: "goError \<Rightarrow> sentinel \<Rightarrow> bool" where
  "errorsIs err s = list_ex (\<lambda>e. s \<in> set (ef_is (facts e))) (errorTree err)"

definition errorsAs :: "(errFacts \<Rightarrow> bool) \<Rightarrow> goError \<Rightarrow> goError option" where
  "errorsAs has err = find (\<lambda>e. has (facts e)) (errorTree err)"

text \<open>\<open>errors.As\<close> for a \<open>HandlerError\<close>, with the error of its field \<open>Err\<close>, which its \<open>Unwrap\<close>
  returns.\<close>

definition asHandlerError :: "goError option \<Rightarrow> (handlerError \<times> goError option \<times> string) option" where
  "asHandlerError erro =
     (case erro of
        None \<Rightarrow> None
      | Some err \<Rightarrow>
          (case errorsAs (\<lambda>f. ef_handler f \<noteq> None) err of
             Some (Wrap f i) \<Rightarrow> Some (the (ef_handler f), i, ef_Error f)
           | _ \<Rightarrow> None))"

definition timeoutError :: "goError \<Rightarrow> bool" where
  "timeoutError err =
     (case errorsAs (\<lambda>f. ef_netError f \<noteq> None) err of None \<Rightarrow> False | Some e \<Rightarrow> ef_netError (facts e) = Some True)"

definition certificateError :: "goError \<Rightarrow> bool" where
  "certificateError err = (errorsAs ef_certificate err \<noteq> None)"

definition noAvailableUpstreams :: "goError option \<Rightarrow> bool" where
  "noAvailableUpstreams erro =
     (case asHandlerError erro of
        Some (he, Some e, _) \<Rightarrow> he_StatusCode he = 503 \<and> ef_Error (facts e) = ''no upstreams available''
      | _ \<Rightarrow> False)"

text \<open>The loop over \<open>errors.Unwrap\<close>, which does not follow a list.\<close>

fun unwrapsToRetryable :: "goError \<Rightarrow> bool" where
  "unwrapsToRetryable (Wrap f None) = ef_retryable f"
| "unwrapsToRetryable (Wrap f (Some e)) = (ef_retryable f \<or> unwrapsToRetryable e)"
| "unwrapsToRetryable (Join f es) = ef_retryable f"

definition retriedUpstreamResponse :: "goError option \<Rightarrow> bool" where
  "retriedUpstreamResponse erro =
     (case asHandlerError erro of Some (_, Some e, _) \<Rightarrow> unwrapsToRetryable e | _ \<Rightarrow> False)"

definition localResponseHandlerError :: "replacer option \<Rightarrow> goError option \<Rightarrow> bool" where
  "localResponseHandlerError replo erro =
     (case replo of
        None \<Rightarrow> False
      | Some repl \<Rightarrow>
          if rp_get repl ''http.reverse_proxy.upstream.latency'' = None then False
          else case asHandlerError erro of
                 Some (he, _, _) \<Rightarrow> he_Trace he \<noteq> [] \<and> \<not> prefix ''reverseproxy.statusError '' (he_Trace he)
               | None \<Rightarrow> False)"

section \<open>The trace\<close>

record upstreamFailureEvidence =
  ue_message :: string
  ue_reason :: string
  ue_connections :: u64

record upstreamFailureTrace =
  ut_closed :: bool
  ut_evidence :: "upstreamFailureEvidence list"
  ut_connections :: u64

definition newTrace :: upstreamFailureTrace where
  "newTrace = \<lparr>ut_closed = False, ut_evidence = [], ut_connections = 0\<rparr>"

text \<open>The loop over the evidence: the first entry of the message and reason gets the count.\<close>

fun refreshEvidence ::
    "string \<Rightarrow> string \<Rightarrow> u64 \<Rightarrow> upstreamFailureEvidence list \<Rightarrow> upstreamFailureEvidence list option" where
  "refreshEvidence message reason n [] = None"
| "refreshEvidence message reason n (e # es) =
     (if ue_message e = message \<and> ue_reason e = reason then Some (e\<lparr>ue_connections := n\<rparr> # es)
      else map_option ((#) e) (refreshEvidence message reason n es))"

definition recordFailure :: "goError \<Rightarrow> string \<Rightarrow> upstreamFailureTrace \<Rightarrow> upstreamFailureTrace" where
  "recordFailure err reason f =
     (if errorsIs err Canceled then f
      else let message = ef_Error (facts err)
           in if message = [] \<or> length message > 512 then f
              else if ut_closed f then f
              else case refreshEvidence message reason (ut_connections f) (ut_evidence f) of
                     Some es \<Rightarrow> f\<lparr>ut_evidence := es\<rparr>
                   | None \<Rightarrow>
                       if length (ut_evidence f) < 16
                       then f\<lparr>ut_evidence := ut_evidence f @
                                [\<lparr>ue_message = message, ue_reason = reason, ue_connections = ut_connections f\<rparr>]\<rparr>
                       else f)"

definition connected :: "upstreamFailureTrace \<Rightarrow> upstreamFailureTrace" where
  "connected f = (if \<not> ut_closed f then f\<lparr>ut_connections := ut_connections f + 1\<rparr> else f)"

definition closeTrace :: "upstreamFailureTrace \<Rightarrow> upstreamFailureTrace" where
  "closeTrace f = f\<lparr>ut_closed := True\<rparr>"

text \<open>The callbacks of \<open>httptrace.ClientTrace\<close> that are set, and the deferred \<open>close\<close>.\<close>

datatype traceEvent =
    DNSDone "goError option"
  | ConnectDone string "goError option"
  | GotConn
  | TLSHandshakeDone "goError option"
  | WroteRequest "goError option"
  | TraceClosed

fun traceStep :: "traceEvent \<Rightarrow> upstreamFailureTrace \<Rightarrow> upstreamFailureTrace" where
  "traceStep (DNSDone None) f = f"
| "traceStep (DNSDone (Some err)) f =
     recordFailure err (if timeoutError err then ''dns_timeout'' else ''dns_error'') f"
| "traceStep (ConnectDone network None) f = connected f"
| "traceStep (ConnectDone network (Some err)) f =
     (if network \<noteq> ''tcp'' \<and> network \<noteq> ''tcp4'' \<and> network \<noteq> ''tcp6'' then f
      else recordFailure err
             (if timeoutError err then ''connect_timeout''
              else if errorsIs err ECONNREFUSED then ''connection_refused'' else ''unknown'') f)"
| "traceStep GotConn f = connected f"
| "traceStep (TLSHandshakeDone None) f = f"
| "traceStep (TLSHandshakeDone (Some err)) f =
     recordFailure err
       (if certificateError err then ''tls_certificate_error''
        else if timeoutError err then ''tls_handshake_timeout'' else ''tls_handshake_error'') f"
| "traceStep (WroteRequest None) f = f"
| "traceStep (WroteRequest (Some err)) f =
     recordFailure err (if timeoutError err then ''request_write_timeout'' else ''request_write_error'') f"
| "traceStep TraceClosed f = closeTrace f"

text \<open>The test of one entry against the text of the final error, and the loop of \<open>reason\<close>.\<close>

definition candidate :: "upstreamFailureTrace \<Rightarrow> string \<Rightarrow> upstreamFailureEvidence \<Rightarrow> bool" where
  "candidate f message e =
     (if message = [] then ue_connections e = ut_connections f
      else message = ue_message e \<or> suffix ('': '' @ ue_message e) message)"

fun reasonLoop ::
    "upstreamFailureTrace \<Rightarrow> string \<Rightarrow> string \<Rightarrow> upstreamFailureEvidence list \<Rightarrow> string" where
  "reasonLoop f message reason [] = reason"
| "reasonLoop f message reason (e # es) =
     (if \<not> candidate f message e then reasonLoop f message reason es
      else if reason \<noteq> [] \<and> reason \<noteq> ue_reason e then ''unknown''
      else reasonLoop f message (ue_reason e) es)"

definition traceReason :: "upstreamFailureTrace \<Rightarrow> goError \<Rightarrow> string" where
  "traceReason f err = reasonLoop f (ef_Error (facts err)) [] (ut_evidence f)"

section \<open>The recorder's view of the response\<close>

text \<open>The recorder of handler.go that wraps the response writer.\<close>

record recorder =
  rc_status :: int
  rc_bytes :: int
  rc_wrote :: bool
  rc_hijacked :: bool

definition finalStatus :: "recorder \<Rightarrow> goError option \<Rightarrow> u16" where
  "finalStatus w servErr =
     (if rc_wrote w then of_int (rc_status w)
      else case asHandlerError servErr of
             Some (he, _, _) \<Rightarrow> if he_StatusCode he \<noteq> 0 then of_int (he_StatusCode he) else of_int (rc_status w)
           | None \<Rightarrow> of_int (rc_status w))"

section \<open>Classifying a failure\<close>

text \<open>\<open>ctxErr\<close> is whether the request's context has an error; \<open>trace\<close> the trace of the context.\<close>

definition classifyFailure :: "upstreamFailureTrace option \<Rightarrow> goError \<Rightarrow> string" where
  "classifyFailure trace err =
     (if certificateError err then ''tls_certificate_error''
      else case errorsAs (\<lambda>f. ef_dns f \<noteq> None) err of
        Some e \<Rightarrow> if ef_dns (facts e) = Some True then ''dns_timeout'' else ''dns_error''
      | None \<Rightarrow>
          if errorsIs err ECONNRESET then ''connection_reset''
          else if errorsIs err EOF \<or> errorsIs err ErrUnexpectedEOF then ''upstream_eof''
          else if ef_Error (facts err) = ''net/http: timeout awaiting response headers'' then ''response_header_timeout''
          else
            let traced = (case trace of None \<Rightarrow> [] | Some f \<Rightarrow> traceReason f err)
            in if traced \<noteq> [] then traced
               else case errorsAs (\<lambda>f. ef_op f \<noteq> None) err of
                 Some op \<Rightarrow>
                   if ef_op (facts op) = Some ''write''
                   then if timeoutError op then ''request_write_timeout'' else ''request_write_error''
                   else ''unknown''
               | None \<Rightarrow> ''unknown'')"

definition upstreamFailureReason ::
    "upstreamFailureTrace option \<Rightarrow> bool \<Rightarrow> recorder \<Rightarrow> goError option \<Rightarrow> string \<Rightarrow> string" where
  "upstreamFailureReason trace ctxErr w erro origin =
     (case erro of
        None \<Rightarrow> []
      | Some err \<Rightarrow>
          let status = finalStatus w erro
          in if origin \<noteq> OriginClusterProxyError \<or> status < 500 \<or> status > 599 \<or> rc_wrote w \<or> ctxErr
                \<or> errorsIs err Canceled then []
             else if noAvailableUpstreams erro then ''no_upstreams_available''
             else case asHandlerError erro of
                    Some (_, Some e, _) \<Rightarrow> classifyFailure trace e
                  | _ \<Rightarrow> classifyFailure trace err)"

section \<open>The evidence of any sequence of callbacks\<close>

definition stageReasons :: "string list" where
  "stageReasons =
     [''dns_timeout'', ''dns_error'', ''connect_timeout'', ''connection_refused'', ''unknown'', ''tls_certificate_error'',
      ''tls_handshake_timeout'', ''tls_handshake_error'', ''request_write_timeout'', ''request_write_error'']"

definition trace_ok :: "nat \<Rightarrow> upstreamFailureTrace \<Rightarrow> bool" where
  "trace_ok n f \<longleftrightarrow>
     length (ut_evidence f) \<le> 16 \<and> distinct (map (\<lambda>e. (ue_message e, ue_reason e)) (ut_evidence f))
     \<and> (\<forall>e \<in> set (ut_evidence f). ue_message e \<noteq> [] \<and> length (ue_message e) \<le> 512
          \<and> ue_reason e \<in> set stageReasons \<and> ue_connections e \<le> ut_connections f)
     \<and> unat (ut_connections f) \<le> n"

lemma trace_ok_new: "trace_ok 0 newTrace"
  by (simp add: trace_ok_def newTrace_def)

lemma trace_ok_mono: "trace_ok m f \<Longrightarrow> m \<le> n \<Longrightarrow> trace_ok n f"
  by (auto simp: trace_ok_def)

lemma refreshEvidence_Some:
  assumes "refreshEvidence msg reason n es = Some es'"
  shows "map (\<lambda>e. (ue_message e, ue_reason e)) es' = map (\<lambda>e. (ue_message e, ue_reason e)) es
    \<and> (\<forall>e \<in> set es'. e \<in> set es \<or> (ue_message e = msg \<and> ue_reason e = reason \<and> ue_connections e = n
         \<and> (\<exists>e0 \<in> set es. ue_message e0 = msg \<and> ue_reason e0 = reason)))"
  using assms by (induction es arbitrary: es') (auto split: if_splits)

lemma refreshEvidence_None:
  "refreshEvidence msg reason n es = None \<longleftrightarrow> (msg, reason) \<notin> set (map (\<lambda>e. (ue_message e, ue_reason e)) es)"
  by (induction es) auto

lemma trace_ok_record:
  assumes "trace_ok n f" and "reason \<in> set stageReasons"
  shows "trace_ok n (recordFailure err reason f)"
proof (cases "refreshEvidence (ef_Error (facts err)) reason (ut_connections f) (ut_evidence f)")
  case None
  have "(ef_Error (facts err), reason) \<notin> set (map (\<lambda>e. (ue_message e, ue_reason e)) (ut_evidence f))"
    using None unfolding refreshEvidence_None .
  with None assms show ?thesis by (auto simp: recordFailure_def Let_def trace_ok_def)
next
  case (Some es)
  note es = refreshEvidence_Some [OF this]
  from es have "length es = length (ut_evidence f)" by (metis length_map)
  with Some es assms show ?thesis
    by (fastforce simp: recordFailure_def Let_def trace_ok_def)
qed

lemma connections_room: "trace_ok n f \<Longrightarrow> n < 2 ^ 64 - 1 \<Longrightarrow> ut_connections f < - 1"
  by (simp add: trace_ok_def word_less_nat_alt unsigned_minus_1_eq_mask mask_eq_exp_minus_1)

lemma trace_ok_connected:
  assumes "trace_ok n f" and "n < 2 ^ 64 - 1"
  shows "trace_ok (Suc n) (connected f)"
proof -
  note less = connections_room [OF assms]
  have "ut_connections f \<le> ut_connections f + 1" using unat_inc [OF less] by (simp add: word_le_nat_alt)
  with assms unat_inc [OF less] show ?thesis
    by (fastforce simp: trace_ok_def connected_def)
qed

lemma trace_ok_step:
  assumes "trace_ok n f" and "n < 2 ^ 64 - 1"
  shows "trace_ok (Suc n) (traceStep ev f)"
proof -
  have r: "trace_ok (Suc n) (recordFailure err reason f)" if "reason \<in> set stageReasons" for err reason
    using trace_ok_mono [OF trace_ok_record [OF assms(1) that]] by simp
  have keep: "trace_ok (Suc n) f" using trace_ok_mono [OF assms(1)] by simp
  then have c: "trace_ok (Suc n) (closeTrace f)" by (simp add: trace_ok_def closeTrace_def)
  show ?thesis
    using r keep c trace_ok_connected [OF assms]
    by (cases "(ev, f)" rule: traceStep.cases) (simp_all add: stageReasons_def)
qed

definition runTrace :: "traceEvent list \<Rightarrow> upstreamFailureTrace" where
  "runTrace evs = fold traceStep evs newTrace"

lemma trace_ok_run: "length evs < 2 ^ 64 \<Longrightarrow> trace_ok (length evs) (runTrace evs)"
proof (induction evs rule: rev_induct)
  case Nil
  then show ?case by (simp add: runTrace_def trace_ok_new)
next
  case (snoc ev evs)
  then show ?case using trace_ok_step [of "length evs" "runTrace evs" ev] by (simp add: runTrace_def)
qed

section \<open>The classification\<close>

text \<open>What the candidates agree on.\<close>

definition agreed :: "string list \<Rightarrow> string" where
  "agreed rs = (case rs of [] \<Rightarrow> [] | r # rest \<Rightarrow> if list_all ((=) r) rest then r else ''unknown'')"

lemma reasonLoop_agreed:
  assumes "\<forall>e \<in> set es. ue_reason e \<noteq> []"
  shows "reasonLoop f msg reason es =
    agreed (if reason = [] then map ue_reason (filter (candidate f msg) es)
            else reason # map ue_reason (filter (candidate f msg) es))"
  using assms
proof (induction es arbitrary: reason)
  case Nil
  then show ?case by (simp add: agreed_def)
next
  case (Cons e es)
  then show ?case by (auto simp: agreed_def)
qed

lemma stageReasons_not_Nil: "r \<in> set stageReasons \<Longrightarrow> r \<noteq> []"
  by (auto simp: stageReasons_def)

lemma traceReason_agreed:
  assumes "trace_ok n f"
  shows "traceReason f err = agreed (map ue_reason (filter (candidate f (ef_Error (facts err))) (ut_evidence f)))"
  unfolding traceReason_def
  using assms reasonLoop_agreed [of "ut_evidence f" f _ "[]"] stageReasons_not_Nil by (auto simp: trace_ok_def)

lemma agreed_cases: "agreed rs \<in> insert [] (insert ''unknown'' (set rs))"
  by (simp add: agreed_def split: list.splits)

lemma traceReason_stage:
  assumes "trace_ok n f"
  shows "traceReason f err \<in> insert [] (set stageReasons)"
proof -
  let ?rs = "map ue_reason (filter (candidate f (ef_Error (facts err))) (ut_evidence f))"
  have "insert ''unknown'' (set ?rs) \<subseteq> set stageReasons"
    using assms by (auto simp: trace_ok_def stageReasons_def)
  then show ?thesis
    unfolding traceReason_agreed [OF assms] using agreed_cases [of ?rs] by blast
qed

text \<open>A new connection supersedes every stage failure recorded so far.\<close>

lemma connected_supersedes:
  assumes "trace_ok n f" and "n < 2 ^ 64 - 1" and "\<not> ut_closed f" and "ef_Error (facts err) = []"
  shows "traceReason (connected f) err = []"
proof -
  note less = connections_room [OF assms(1,2)]
  have "ue_connections e \<noteq> ut_connections f + 1" if "e \<in> set (ut_evidence f)" for e
    using that assms(1) unat_inc [OF less] by (auto simp: trace_ok_def word_le_nat_alt)
  then have "filter (candidate (connected f) []) (ut_evidence (connected f)) = []"
    using assms(3) by (auto simp: connected_def candidate_def filter_empty_conv)
  then show ?thesis
    unfolding traceReason_agreed [OF trace_ok_connected [OF assms(1,2)]] assms(4) by (simp add: agreed_def)
qed

definition failureReasons :: "string list" where
  "failureReasons =
     stageReasons @ [''no_upstreams_available'', ''connection_reset'', ''upstream_eof'', ''response_header_timeout'']"

lemma classifyFailure_label:
  assumes "\<forall>f. trace = Some f \<longrightarrow> (\<exists>n. trace_ok n f)"
  shows "classifyFailure trace err \<in> set failureReasons"
proof -
  have "(case trace of None \<Rightarrow> [] | Some f \<Rightarrow> traceReason f err) \<in> insert [] (set stageReasons)"
    using assms traceReason_stage by (auto split: option.splits)
  then show ?thesis
    by (auto simp: classifyFailure_def Let_def failureReasons_def stageReasons_def split: option.splits)
qed

lemma upstreamFailureReason_label:
  assumes "\<forall>f. trace = Some f \<longrightarrow> (\<exists>n. trace_ok n f)"
    and "upstreamFailureReason trace ctxErr w erro origin \<noteq> []"
  shows "upstreamFailureReason trace ctxErr w erro origin \<in> set failureReasons
    \<and> origin = OriginClusterProxyError \<and> 500 \<le> finalStatus w erro \<and> finalStatus w erro \<le> 599
    \<and> \<not> rc_wrote w \<and> \<not> ctxErr"
  using assms(2) classifyFailure_label [OF assms(1)]
  by (auto simp: upstreamFailureReason_def Let_def failureReasons_def not_less split: option.splits if_splits)

end
