(* ===== verification/Stats_Handler.thy ===== *)
theory Stats_Handler
  imports Batch Defense_Handler Upstream_Failure
begin

text \<open>
  The HTTP handler (handler.go) and the response evidence of domain\_health.go: the recorder
  around the response writer, what is read of a finished request, and \<open>record\<close>, which feeds the
  app.  The handler knows the app through the interface \<open>AppRef\<close>, a record of operations here;
  the methods that it only uses when the app has them are optional.  Caddy's replacer, its
  request variables, the contexts and the clock are inputs.
\<close>

section \<open>The recorder\<close>

definition newRecorder :: recorder where
  "newRecorder = \<lparr>rc_status = 200, rc_bytes = 0, rc_wrote = False, rc_hijacked = False\<rparr>"

text \<open>The recorder after the call, and the status handed to the wrapped writer, if any.\<close>

definition recWriteHeader :: "int \<Rightarrow> recorder \<Rightarrow> recorder \<times> int option" where
  "recWriteHeader code w =
     (if rc_wrote w then (w, None)
      else if 100 \<le> code \<and> code \<le> 199 \<and> code \<noteq> 101 then (w, Some code)
      else (w\<lparr>rc_status := code, rc_wrote := True\<rparr>, Some code))"

text \<open>\<open>n\<close> is what the wrapped writer reports.\<close>

definition recWrite :: "int \<Rightarrow> recorder \<Rightarrow> recorder" where
  "recWrite n w = w\<lparr>rc_wrote := True, rc_bytes := i64 (rc_bytes w + n)\<rparr>"

definition recHijack :: "bool \<Rightarrow> recorder \<Rightarrow> recorder" where
  "recHijack ok w = (if ok then w\<lparr>rc_wrote := True, rc_hijacked := True\<rparr> else w)"

text \<open>The calls that the next handlers make on the writer; flushing and pushing leave the recorder as it is.\<close>

datatype writerCall = CallWriteHeader int | CallWrite int | CallHijack bool

primrec callRecorder :: "writerCall \<Rightarrow> recorder \<times> int list \<Rightarrow> recorder \<times> int list" where
  "callRecorder (CallWriteHeader code) st =
     (case recWriteHeader code (fst st) of
        (w, None) \<Rightarrow> (w, snd st)
      | (w, Some c) \<Rightarrow> (w, snd st @ [c]))"
| "callRecorder (CallWrite n) st = (recWrite n (fst st), snd st)"
| "callRecorder (CallHijack ok) st = (recHijack ok (fst st), snd st)"

definition runRecorder :: "writerCall list \<Rightarrow> recorder \<times> int list" where
  "runRecorder calls = fold callRecorder calls (newRecorder, [])"

text \<open>\<open>http.StatusText\<close>.\<close>

definition statusTexts :: "(int \<times> string) list" where
  "statusTexts =
    [(100, ''Continue''), (101, ''Switching Protocols''), (102, ''Processing''), (103, ''Early Hints''),
     (200, ''OK''), (201, ''Created''), (202, ''Accepted''), (203, ''Non-Authoritative Information''),
     (204, ''No Content''), (205, ''Reset Content''), (206, ''Partial Content''), (207, ''Multi-Status''),
     (208, ''Already Reported''), (226, ''IM Used''),
     (300, ''Multiple Choices''), (301, ''Moved Permanently''), (302, ''Found''), (303, ''See Other''),
     (304, ''Not Modified''), (305, ''Use Proxy''), (307, ''Temporary Redirect''), (308, ''Permanent Redirect''),
     (400, ''Bad Request''), (401, ''Unauthorized''), (402, ''Payment Required''), (403, ''Forbidden''),
     (404, ''Not Found''), (405, ''Method Not Allowed''), (406, ''Not Acceptable''),
     (407, ''Proxy Authentication Required''), (408, ''Request Timeout''), (409, ''Conflict''), (410, ''Gone''),
     (411, ''Length Required''), (412, ''Precondition Failed''), (413, ''Request Entity Too Large''),
     (414, ''Request URI Too Long''), (415, ''Unsupported Media Type''), (416, ''Requested Range Not Satisfiable''),
     (417, ''Expectation Failed''), (418, ''I'' @ [CHR 0x27] @ ''m a teapot''), (421, ''Misdirected Request''),
     (422, ''Unprocessable Entity''), (423, ''Locked''), (424, ''Failed Dependency''), (425, ''Too Early''),
     (426, ''Upgrade Required''), (428, ''Precondition Required''), (429, ''Too Many Requests''),
     (431, ''Request Header Fields Too Large''), (451, ''Unavailable For Legal Reasons''),
     (500, ''Internal Server Error''), (501, ''Not Implemented''), (502, ''Bad Gateway''),
     (503, ''Service Unavailable''), (504, ''Gateway Timeout''), (505, ''HTTP Version Not Supported''),
     (506, ''Variant Also Negotiates''), (507, ''Insufficient Storage''), (508, ''Loop Detected''),
     (510, ''Not Extended''), (511, ''Network Authentication Required'')]"

definition StatusText :: "int \<Rightarrow> string" where
  "StatusText code = (case map_of statusTexts code of None \<Rightarrow> [] | Some s \<Rightarrow> s)"

definition responseBytes :: "header \<Rightarrow> recorder \<Rightarrow> u64" where
  "responseBytes h w =
     (if \<not> rc_wrote w \<or> rc_hijacked w then 0
      else of_nat (length ''HTTP/1.1 '') + 3 + 1 + of_nat (length (StatusText (rc_status w))) + 2
           + headerBytes h + 2 + of_int (rc_bytes w))"

section \<open>What is read of a request\<close>

text \<open>\<open>caddyhttp.GetVar\<close>, as a string.\<close>

definition varString :: "vars \<Rightarrow> string \<Rightarrow> string" where
  "varString vs name = (case map_of vs name of Some (VString s) \<Rightarrow> s | _ \<Rightarrow> [])"

definition readVhostID :: "vars \<Rightarrow> u32 option" where
  "readVhostID vs =
     (case map_of vs ''vhost_id'' of
        Some (VString s) \<Rightarrow> map_option of_nat (ParseUint 32 s)
      | _ \<Rightarrow> None)"

definition readChallengeOutcome :: "vars \<Rightarrow> string" where
  "readChallengeOutcome vs = varString vs ''apx_challenge_outcome''"

definition readEdgeVerifyOutcome :: "vars \<Rightarrow> string" where
  "readEdgeVerifyOutcome vs = varString vs ''apx_verify_outcome''"

definition readRequestID :: "replacer option \<Rightarrow> string" where
  "readRequestID replo =
     (case replo of
        None \<Rightarrow> []
      | Some repl \<Rightarrow> (case rp_get repl ''http.request.uuid'' of Some (RStr s) \<Rightarrow> s | _ \<Rightarrow> []))"

text \<open>The first result of \<open>GetString\<close>, empty where it reports no value.\<close>

definition replString :: "replacer option \<Rightarrow> string \<Rightarrow> string" where
  "replString replo name =
     (case replo of None \<Rightarrow> [] | Some repl \<Rightarrow> (case rp_getString repl name of None \<Rightarrow> [] | Some s \<Rightarrow> s))"

definition readCountry :: "replacer option \<Rightarrow> string" where
  "readCountry replo = normalizeCountry (replString replo ''geoip2.country_code'')"

definition readASN :: "replacer option \<Rightarrow> u32" where
  "readASN replo =
     (case ParseUint 32 (replString replo ''geoip2.autonomous_system_number'') of None \<Rightarrow> 0 | Some n \<Rightarrow> of_nat n)"

definition blockReason :: "replacer option \<Rightarrow> goError option \<Rightarrow> string" where
  "blockReason replo servErr =
     (let reason = replString replo ''http.vars.apx_block_reason''
      in if reason \<noteq> [] then reason
         else case asHandlerError servErr of
                None \<Rightarrow> []
              | Some (he, _, message) \<Rightarrow>
                  if sublist ''interruption triggered'' message then ''waf''
                  else if he_StatusCode he = 429 then ''rate_limit'' else [])"

definition isHandlerError :: "goError option \<Rightarrow> bool" where
  "isHandlerError erro = (asHandlerError erro \<noteq> None)"

definition classifyOrigin :: "replacer option \<Rightarrow> goError option \<Rightarrow> string \<Rightarrow> string" where
  "classifyOrigin replo servErr reason =
     (if reason \<noteq> [] then OriginClusterBlocked
      else if noAvailableUpstreams servErr then OriginClusterProxyError
      else if replString replo ''http.reverse_proxy.upstream.address'' = [] then OriginCluster
      else if servErr \<noteq> None \<and> isHandlerError servErr then
        (if retriedUpstreamResponse servErr then OriginUpstream
         else if localResponseHandlerError replo servErr then OriginCluster
         else OriginClusterProxyError)
      else OriginUpstream)"

section \<open>Response evidence of domain health\<close>

text \<open>\<open>None\<close> is the snapshot that knows no latency.\<close>

definition snapshotDomainHealthResponse :: "replacer option \<Rightarrow> duration option" where
  "snapshotDomainHealthResponse replo =
     (case replo of
        None \<Rightarrow> None
      | Some repl \<Rightarrow> (case rp_get repl ''http.reverse_proxy.upstream.latency'' of Some (RDuration d) \<Rightarrow> Some d | _ \<Rightarrow> None))"

definition domainHealthUpstreamStatus ::
    "replacer option \<Rightarrow> recorder \<Rightarrow> goError option \<Rightarrow> string \<Rightarrow> duration option \<Rightarrow> int option" where
  "domainHealthUpstreamStatus replo w servErr origin before =
     (if origin \<noteq> OriginUpstream then None
      else if \<not> rc_wrote w \<and> \<not> retriedUpstreamResponse servErr then None
      else case snapshotDomainHealthResponse replo of
             None \<Rightarrow> None
           | Some latency \<Rightarrow>
               if latency \<le> 0 \<or> before = Some latency then None
               else case Option.bind replo (\<lambda>repl. rp_get repl ''http.reverse_proxy.status_code'') of
                      Some (RInt status) \<Rightarrow>
                        if status = 101 \<or> (200 \<le> status \<and> status \<le> 599) then Some status else None
                    | _ \<Rightarrow> None)"

definition domainHealthVar :: string where "domainHealthVar = ''apx_domain_health_key''"

definition domainHealthConfigurationKey :: "vars \<Rightarrow> string" where
  "domainHealthConfigurationKey vs =
     (let key = varString vs domainHealthVar in if validDomainHealthKey key then key else [])"

section \<open>The app, as the handler knows it\<close>

record 'a appRef =
  ar_Record :: "Key \<Rightarrow> CounterDelta \<Rightarrow> 'a \<Rightarrow> 'a"
  ar_RecordUnique :: "u32 \<Rightarrow> u32 \<Rightarrow> u64 \<Rightarrow> 'a \<Rightarrow> 'a"
  ar_RecordRequestEvent :: "requestEventRow \<Rightarrow> 'a \<Rightarrow> 'a"
  ar_RecordChallengeAttempt :: "challengeAttemptKey \<Rightarrow> 'a \<Rightarrow> 'a"
  ar_RecordEdgeVerifyAttempt :: "edgeVerifyAttemptKey \<Rightarrow> 'a \<Rightarrow> 'a"
  ar_HashSalt :: string
  ar_MachineID :: string
  ar_RequestEventsModeV2 :: bool
  ar_DefenseExemptionTelemetryEnabled :: bool
  ar_DefensePolicyEvidenceV2Enabled :: "bool option"
  ar_RecordDomainHealth :: "(domainHealthKey \<Rightarrow> domainHealthCounter \<Rightarrow> 'a \<Rightarrow> 'a) option"
  ar_finishHTTPRecord :: "('a \<Rightarrow> 'a) option"

text \<open>
  A finished request: what \<open>next.ServeHTTP\<close> left in the request's context, the response, and the
  clock readings of \<open>record\<close> in milliseconds of Unix time.  \<open>fr_unesc\<close> and \<open>fr_lower\<close> are
  \<open>html.UnescapeString\<close> and the lower-casing of text that is not ASCII.
\<close>

record finishedRequest =
  fr_request :: httpRequest
  fr_vars :: vars
  fr_replacer :: "replacer option"
  fr_holder :: "defenseSnapshotHolder option"
  fr_trace :: "upstreamFailureTrace option"
  fr_ctxErr :: bool
  fr_recorder :: recorder
  fr_respHeader :: header
  fr_servErr :: "goError option"
  fr_dur :: duration
  fr_before :: "duration option"
  fr_healthNow :: int
  fr_keyNow :: int
  fr_rowNow :: int
  fr_unesc :: "string \<Rightarrow> string"
  fr_lower :: "string \<Rightarrow> string"

definition unixSec :: "int \<Rightarrow> int" where "unixSec ms = ms div 1000"

definition unixMin :: "int \<Rightarrow> u32" where "unixMin ms = of_int (unixSec ms sdiv 60)"

definition durationUs :: "duration \<Rightarrow> u64" where "durationUs d = of_int (d sdiv 1000)"

definition privacyState :: "finishedRequest \<Rightarrow> managedHeaderState option" where
  "privacyState q = Option.bind (fr_holder q) hd_privacy"

abbreviation (input) pathOf :: "finishedRequest \<Rightarrow> string" where
  "pathOf q \<equiv> telemetryPath (fr_unesc q) (privacyState q) (fr_request q)"

abbreviation (input) identityOf :: "finishedRequest \<Rightarrow> requestTelemetryIdentity" where
  "identityOf q \<equiv> telemetryIdentity (fr_unesc q) (privacyState q) (fr_request q)"

abbreviation (input) reasonOf :: "finishedRequest \<Rightarrow> string" where
  "reasonOf q \<equiv> blockReason (fr_replacer q) (fr_servErr q)"

abbreviation (input) originOf :: "finishedRequest \<Rightarrow> string" where
  "originOf q \<equiv> classifyOrigin (fr_replacer q) (fr_servErr q) (reasonOf q)"

definition defenseExempt :: "'a appRef \<Rightarrow> finishedRequest \<Rightarrow> bool" where
  "defenseExempt app q =
     (case sharedSnapshot (fr_holder q) of
        Some snapshot \<Rightarrow> de_HTTP (sn_Evidence snapshot)
      | None \<Rightarrow>
          if ar_DefensePolicyEvidenceV2Enabled app = Some True then False
          else if \<not> ar_DefenseExemptionTelemetryEnabled app then False
          else varString (fr_vars q) ''apx_l7_header_exempt'' = ''true'')"

section \<open>Rows\<close>

text \<open>The fields that both shapes of a row share.\<close>

definition baseRow :: "'a appRef \<Rightarrow> finishedRequest \<Rightarrow> u32 \<Rightarrow> requestEventRow" where
  "baseRow app q vhostID =
     \<lparr>re_TsUnixSec = of_int (unixSec (fr_rowNow q)), re_VhostID = vhostID,
      re_ClientIP = securityClientIP (fr_request q),
      re_ForwardedIP = ti_forwardedIP (identityOf q),
      re_FrontProxy = frontProxy (fr_request q),
      re_Method = methodOrUnknown (rq_Method (fr_request q)),
      re_Path = capPath (pathOf q), re_PathBucket = pathBucket (fr_lower q) (pathOf q),
      re_Status = finalStatus (fr_recorder q) (fr_servErr q),
      re_HTTPVersion = httpVersionOrUnknown (fr_request q),
      re_UA = capUA (ti_userAgent (identityOf q)), re_Origin = originOf q,
      re_BytesIn = requestBytes (fr_request q), re_BytesOut = responseBytes (fr_respHeader q) (fr_recorder q),
      re_DurationUs = durationUs (fr_dur q), re_SampleRate = 0, re_DefenseExempt = defenseExempt app q,
      re_TsUnixMs = 0, re_MachineID = [], re_MachineSeq = 0, re_Disposition = [], re_Host = [],
      re_RequestID = [], re_UpstreamFailureReason = [], re_V2 = False\<rparr>"

definition buildRequestEventRow ::
    "'a appRef \<Rightarrow> finishedRequest \<Rightarrow> u32 \<Rightarrow> string \<Rightarrow> string \<Rightarrow> u64 \<Rightarrow> requestEventRow \<times> u64" where
  "buildRequestEventRow app q vhostID host disposition seq =
     (case nextMachineSeq seq of (n, seq') \<Rightarrow>
        ((baseRow app q vhostID)
           \<lparr>re_TsUnixMs := fr_rowNow q,
            re_UpstreamFailureReason :=
              upstreamFailureReason (fr_trace q) (fr_ctxErr q) (fr_recorder q) (fr_servErr q) (originOf q),
            re_MachineID := truncateBytes (ar_MachineID app) 64, re_MachineSeq := n,
            re_Disposition := disposition, re_Host := host,
            re_RequestID := readRequestID (fr_replacer q), re_V2 := True\<rparr>, seq'))"

section \<open>record\<close>

definition recordAttempts :: "'a appRef \<Rightarrow> finishedRequest \<Rightarrow> 'a \<Rightarrow> 'a" where
  "recordAttempts app q a =
     (let outcome = readChallengeOutcome (fr_vars q);
          a1 = (if outcome \<noteq> [] \<and> \<not> defenseExempt app q
                then ar_RecordChallengeAttempt app
                       \<lparr>ck_vhost = challengeVhost (fr_lower q) (fr_request q), ck_ip = securityClientIP (fr_request q),
                        ck_outcome = outcome\<rparr> a
                else a);
          verify = readEdgeVerifyOutcome (fr_vars q)
      in if verify \<noteq> []
         then ar_RecordEdgeVerifyAttempt app
                \<lparr>ek_vhost = challengeVhost (fr_lower q) (fr_request q),
                 ek_pathBucket = pathBucket (fr_lower q) (pathOf q), ek_outcome = verify\<rparr> a1
         else a1)"

text \<open>A request without a vhost: only a challenge of mode 2 leaves a row.\<close>

definition recordUnrouted :: "'a appRef \<Rightarrow> finishedRequest \<Rightarrow> 'a \<times> u64 \<Rightarrow> 'a \<times> u64" where
  "recordUnrouted app q st =
     (case st of (a, seq) \<Rightarrow>
        let outcome = readChallengeOutcome (fr_vars q)
        in if ar_RequestEventsModeV2 app \<and> outcome \<noteq> []
           then case buildRequestEventRow app q 0 (challengeVhost (fr_lower q) (fr_request q))
                       (deriveDisposition (reasonOf q) outcome) seq of
                  (row, seq') \<Rightarrow> (ar_RecordRequestEvent app row a, seq')
           else (a, seq))"

definition healthDelta :: "finishedRequest \<Rightarrow> domainHealthCounter" where
  "healthDelta q =
     (let w = fr_recorder q; origin = originOf q;
          routed = (fr_servErr q = None \<and> origin \<noteq> OriginClusterProxyError
                    \<and> (rc_wrote w \<or> origin \<noteq> OriginUpstream \<and> \<not> fr_ctxErr q));
          status = domainHealthUpstreamStatus (fr_replacer q) w (fr_servErr q) origin (fr_before q)
      in \<lparr>dc_RequestCount = 1,
          dc_RoutingResponses = (if routed \<or> status \<noteq> None then 1 else 0),
          dc_UpstreamResponses = (if status \<noteq> None then 1 else 0),
          dc_UpstreamSuccesses = (case status of Some s \<Rightarrow> if 200 \<le> s \<and> s < 400 then 1 else 0 | None \<Rightarrow> 0),
          dc_Upstream5xx = (case status of Some s \<Rightarrow> if 500 \<le> s \<and> s < 600 then 1 else 0 | None \<Rightarrow> 0),
          dc_ProxyErrors = (if origin = OriginClusterProxyError then 1 else 0)\<rparr>)"

definition recordHealth :: "'a appRef \<Rightarrow> finishedRequest \<Rightarrow> u32 \<Rightarrow> 'a \<Rightarrow> 'a" where
  "recordHealth app q vhostID a =
     (let key = domainHealthConfigurationKey (fr_vars q)
      in case ar_RecordDomainHealth app of
           Some rec \<Rightarrow>
             if key \<noteq> []
             then rec \<lparr>dk_TsUnixMin = unixMin (fr_healthNow q), dk_VhostID = vhostID, dk_ConfigurationKey = key\<rparr>
                    (healthDelta q) a
             else a
         | None \<Rightarrow> a)"

definition requestKey :: "'a appRef \<Rightarrow> finishedRequest \<Rightarrow> u32 \<Rightarrow> Key" where
  "requestKey app q vhostID =
     \<lparr>k_TsUnixMin = unixMin (fr_keyNow q), k_VhostID = vhostID,
      k_Method = methodOrUnknown (rq_Method (fr_request q)),
      k_Status = finalStatus (fr_recorder q) (fr_servErr q), k_Origin = originOf q,
      k_Country = readCountry (fr_replacer q), k_ASN = readASN (fr_replacer q),
      k_DefenseExempt = defenseExempt app q\<rparr>"

definition requestDelta :: "finishedRequest \<Rightarrow> CounterDelta" where
  "requestDelta q =
     \<lparr>d_BytesIn = requestBytes (fr_request q), d_BytesOut = responseBytes (fr_respHeader q) (fr_recorder q),
      d_DurationUs = durationUs (fr_dur q), d_LatBucket = int (BucketForUs (durationUs (fr_dur q)))\<rparr>"

definition recordEvent :: "'a appRef \<Rightarrow> finishedRequest \<Rightarrow> u32 \<Rightarrow> 'a \<times> u64 \<Rightarrow> 'a \<times> u64" where
  "recordEvent app q vhostID st =
     (case st of (a, seq) \<Rightarrow>
        if ar_RequestEventsModeV2 app
        then case buildRequestEventRow app q vhostID []
                    (deriveDisposition (reasonOf q) (readChallengeOutcome (fr_vars q))) seq of
               (row, seq') \<Rightarrow> (ar_RecordRequestEvent app row a, seq')
        else if reasonOf q = [] then (ar_RecordRequestEvent app (baseRow app q vhostID) a, seq)
        else (a, seq))"

definition recordClient :: "'a appRef \<Rightarrow> finishedRequest \<Rightarrow> u32 \<Rightarrow> 'a \<Rightarrow> 'a" where
  "recordClient app q vhostID a =
     (if ar_HashSalt app \<noteq> []
      then ar_RecordUnique app (unixMin (fr_keyNow q)) vhostID
             (ClientHash (ti_hashIP (identityOf q)) (ti_userAgent (identityOf q)) (ar_HashSalt app)) a
      else a)"

definition finishRecord :: "'a appRef \<Rightarrow> 'a \<Rightarrow> 'a" where
  "finishRecord app a = (case ar_finishHTTPRecord app of None \<Rightarrow> a | Some f \<Rightarrow> f a)"

definition recordRequest :: "'a appRef \<Rightarrow> finishedRequest \<Rightarrow> 'a \<times> u64 \<Rightarrow> 'a \<times> u64" where
  "recordRequest app q st =
     (case st of (a, seq) \<Rightarrow>
        let a1 = recordAttempts app q a;
            (a2, seq') =
              (case readVhostID (fr_vars q) of
                 None \<Rightarrow> recordUnrouted app q (a1, seq)
               | Some vhostID \<Rightarrow>
                   (case recordEvent app q vhostID
                           (ar_Record app (requestKey app q vhostID) (requestDelta q) (recordHealth app q vhostID a1), seq) of
                      (a3, seq3) \<Rightarrow> (recordClient app q vhostID a3, seq3)))
        in (finishRecord app a2, seq'))"

section \<open>ServeHTTP\<close>

text \<open>
  A request as it arrives and what the next handlers make of it.  Every request gets a new
  holder; in mode 2 it gets a trace, which the return of the handler closes.
\<close>

definition servedRequest ::
    "'a appRef \<Rightarrow> finishedRequest \<Rightarrow> writerCall list \<Rightarrow> traceEvent list \<Rightarrow> finishedRequest" where
  "servedRequest app q calls evs =
     q\<lparr>fr_recorder := fst (runRecorder calls),
       fr_trace := (if ar_RequestEventsModeV2 app then Some (runTrace evs) else None)\<rparr>"

definition serveStats ::
    "bool \<Rightarrow> 'a appRef \<Rightarrow> httpRequest \<Rightarrow> finishedRequest \<Rightarrow> writerCall list \<Rightarrow> traceEvent list
     \<Rightarrow> 'a \<times> u64 \<Rightarrow> 'a \<times> u64" where
  "serveStats holderOnly app r q calls evs st =
     (if holderOnly then st
      else if headerGet (rq_Header r) ''Apx-Monitor'' = ''true'' then st
      else recordRequest app (servedRequest app q calls evs) st)"

end
