(* ===== verification/Handler_Props.thy ===== *)
theory Handler_Props
  imports Stats_Handler
begin

text \<open>
  The handler's promises: what the recorder captures of a response, what a request contributes
  to domain health, and that \<open>record\<close> is a fixed sequence of calls on the app, from which the
  counting of every routed request follows for any app that keeps the contract of its interface.
\<close>

section \<open>The recorder\<close>

definition informational :: "int \<Rightarrow> bool" where
  "informational code = (100 \<le> code \<and> code \<le> 199 \<and> code \<noteq> 101)"

primrec finalCall :: "writerCall \<Rightarrow> bool" where
  "finalCall (CallWriteHeader code) = (\<not> informational code)"
| "finalCall (CallWrite n) = True"
| "finalCall (CallHijack ok) = ok"

primrec codeOf :: "writerCall \<Rightarrow> int list" where
  "codeOf (CallWriteHeader code) = [code]"
| "codeOf (CallWrite n) = []"
| "codeOf (CallHijack ok) = []"

primrec writtenBy :: "writerCall \<Rightarrow> int" where
  "writtenBy (CallWriteHeader code) = 0"
| "writtenBy (CallWrite n) = n"
| "writtenBy (CallHijack ok) = 0"

text \<open>The calls up to the first final one, which decide the response's head.\<close>

definition headCalls :: "writerCall list \<Rightarrow> writerCall list" where
  "headCalls calls =
     (let front = takeWhile (Not \<circ> finalCall) calls in take (Suc (length front)) calls)"

definition headStatus :: "writerCall list \<Rightarrow> int" where
  "headStatus calls = (case find finalCall calls of Some (CallWriteHeader code) \<Rightarrow> code | _ \<Rightarrow> 200)"

lemma find_snoc: "find P (xs @ [x]) = (case find P xs of Some y \<Rightarrow> Some y | None \<Rightarrow> if P x then Some x else None)"
  by (induction xs) auto

lemma headCalls_snoc:
  "headCalls (calls @ [c]) = (if list_ex finalCall calls then headCalls calls else calls @ [c])"
proof (cases "list_ex finalCall calls")
  case True
  then have ex: "\<exists>x \<in> set calls. finalCall x" by (simp add: list_ex_iff)
  then have "length (takeWhile (Not \<circ> finalCall) calls) < length calls"
    by (induction calls) auto
  with ex True show ?thesis by (auto simp: headCalls_def Let_def takeWhile_append)
next
  case False
  then have "takeWhile (Not \<circ> finalCall) calls = calls"
    by (auto simp: takeWhile_eq_all_conv list_ex_iff)
  with False show ?thesis by (simp add: headCalls_def Let_def takeWhile_append list_ex_iff)
qed

lemma find_None_iff_ex: "find finalCall calls = None \<longleftrightarrow> \<not> list_ex finalCall calls"
  by (auto simp: find_None_iff list_ex_iff)

theorem runRecorder_head:
  "runRecorder calls =
     (\<lparr>rc_status = headStatus calls, rc_bytes = rc_bytes (fst (runRecorder calls)),
       rc_wrote = list_ex finalCall calls, rc_hijacked = (CallHijack True \<in> set calls)\<rparr>,
      concat (map codeOf (headCalls calls)))"
proof (induction calls rule: rev_induct)
  case Nil
  then show ?case by (simp add: runRecorder_def newRecorder_def headStatus_def headCalls_def)
next
  case (snoc c calls)
  obtain w sent where run: "runRecorder calls = (w, sent)" by (cases "runRecorder calls")
  with snoc have w: "rc_status w = headStatus calls" "rc_wrote w = list_ex finalCall calls"
      "rc_hijacked w = (CallHijack True \<in> set calls)" "sent = concat (map codeOf (headCalls calls))"
    by (metis fst_conv recorder.select_convs(1), metis fst_conv recorder.select_convs(3),
        metis fst_conv recorder.select_convs(4), metis snd_conv)
  have step: "runRecorder (calls @ [c]) = callRecorder c (w, sent)" using run by (simp add: runRecorder_def)
  have all: "concat (map codeOf (headCalls calls)) = concat (map codeOf calls)" if "\<not> list_ex finalCall calls"
  proof -
    from that have front: "takeWhile (Not \<circ> finalCall) calls = calls"
      by (auto simp: takeWhile_eq_all_conv list_ex_iff)
    show ?thesis unfolding headCalls_def Let_def front by simp
  qed
  show ?case
  proof (cases "list_ex finalCall calls")
    case True
    then obtain y where "find finalCall calls = Some y" using find_None_iff_ex by (cases "find finalCall calls") auto
    with True w show ?thesis unfolding step
      by (cases c) (auto simp: recWriteHeader_def recWrite_def recHijack_def headStatus_def headCalls_snoc find_snoc)
  next
    case False
    then have "find finalCall calls = None" using find_None_iff_ex by blast
    with False w all show ?thesis unfolding step
      by (cases c) (auto simp: recWriteHeader_def recWrite_def recHijack_def headStatus_def headCalls_snoc find_snoc
          informational_def)
  qed
qed

text \<open>The body bytes, while their sum is in range.\<close>

lemma runRecorder_bytes:
  assumes "\<forall>pre suf. calls = pre @ suf \<longrightarrow> (let n = sum_list (map writtenBy pre) in min_i64 \<le> n \<and> n \<le> max_i64)"
  shows "rc_bytes (fst (runRecorder calls)) = sum_list (map writtenBy calls)"
  using assms
proof (induction calls rule: rev_induct)
  case Nil
  then show ?case by (simp add: runRecorder_def newRecorder_def)
next
  case (snoc c calls)
  have "rc_bytes (fst (runRecorder calls)) = sum_list (map writtenBy calls)"
    using snoc.prems by (intro snoc.IH) (metis append.assoc)
  moreover have "i64 (sum_list (map writtenBy (calls @ [c]))) = sum_list (map writtenBy (calls @ [c]))"
    using snoc.prems [rule_format, of "calls @ [c]" "[]"] by (intro i64_id) (auto simp: Let_def)
  moreover have "runRecorder (calls @ [c]) = callRecorder c (runRecorder calls)" by (simp add: runRecorder_def)
  ultimately show ?case
    by (cases c) (auto simp: recWriteHeader_def recWrite_def recHijack_def split: prod.splits option.splits)
qed

section \<open>Domain health\<close>

lemma upstreamStatus_cases:
  assumes "domainHealthUpstreamStatus replo w servErr origin before = Some s"
  shows "origin = OriginUpstream \<and> (s = 101 \<or> 200 \<le> s \<and> s \<le> 599)
    \<and> (rc_wrote w \<or> retriedUpstreamResponse servErr)
    \<and> (\<exists>d > 0. snapshotDomainHealthResponse replo = Some d \<and> before \<noteq> Some d)"
  using assms by (auto simp: domainHealthUpstreamStatus_def split: if_splits option.splits replValue.splits)

definition health_consistent :: "domainHealthCounter \<Rightarrow> bool" where
  "health_consistent c =
     (unat (dc_UpstreamSuccesses c) + unat (dc_Upstream5xx c) \<le> unat (dc_UpstreamResponses c)
      \<and> unat (dc_UpstreamResponses c) \<le> unat (dc_RoutingResponses c)
      \<and> unat (dc_RoutingResponses c) + unat (dc_ProxyErrors c) \<le> unat (dc_RequestCount c))"

lemma healthDelta_consistent:
  "health_consistent (healthDelta q) \<and> dc_RequestCount (healthDelta q) = 1"
proof (cases "domainHealthUpstreamStatus (fr_replacer q) (fr_recorder q) (fr_servErr q) (originOf q) (fr_before q)")
  case None
  then show ?thesis by (simp add: health_consistent_def healthDelta_def Let_def)
next
  case (Some s)
  have "originOf q \<noteq> OriginClusterProxyError"
    using upstreamStatus_cases [OF Some] by (auto simp: OriginUpstream_def OriginClusterProxyError_def)
  with Some show ?thesis by (simp add: health_consistent_def healthDelta_def Let_def)
qed

text \<open>Adding a consistent contribution keeps a counter consistent while the request count fits.\<close>

lemma addHealth_consistent:
  assumes c: "health_consistent c" and d: "health_consistent d"
    and fits: "unat (dc_RequestCount c) + unat (dc_RequestCount d) < 2 ^ 64"
  shows "health_consistent (addHealth d c)
    \<and> unat (dc_RequestCount (addHealth d c)) = unat (dc_RequestCount c) + unat (dc_RequestCount d)"
proof -
  have add: "unat (x + y) = unat x + unat y" if "unat x \<le> unat (dc_RequestCount c)" "unat y \<le> unat (dc_RequestCount d)"
    for x y :: u64
    using that fits by (intro unat_add_lem [THEN iffD1]) simp
  show ?thesis using c d
    by (auto simp: health_consistent_def addHealth_def add)
qed

definition healthOf :: "finishedRequest list \<Rightarrow> domainHealthCounter" where
  "healthOf qs = fold (\<lambda>q. addHealth (healthDelta q)) qs zeroHealth"

lemma healthOf_consistent:
  "length qs < 2 ^ 64 \<Longrightarrow> health_consistent (healthOf qs) \<and> unat (dc_RequestCount (healthOf qs)) = length qs"
proof (induction qs rule: rev_induct)
  case Nil
  then show ?case by (simp add: healthOf_def zeroHealth_def health_consistent_def)
next
  case (snoc q qs)
  have one: "unat (dc_RequestCount (healthDelta q)) = 1" using healthDelta_consistent [of q] by simp
  have "health_consistent (addHealth (healthDelta q) (healthOf qs))
    \<and> unat (dc_RequestCount (addHealth (healthDelta q) (healthOf qs)))
      = unat (dc_RequestCount (healthOf qs)) + unat (dc_RequestCount (healthDelta q))"
    using snoc healthDelta_consistent [of q] one by (intro addHealth_consistent) auto
  with snoc one show ?case by (simp add: healthOf_def)
qed

section \<open>The calls on the app\<close>

datatype appCall =
    DoRecord Key CounterDelta
  | DoUnique u32 u32 u64
  | DoEvent requestEventRow
  | DoChallenge challengeAttemptKey
  | DoVerify edgeVerifyAttemptKey
  | DoHealth domainHealthKey domainHealthCounter
  | DoFinish

primrec applyCall :: "'a appRef \<Rightarrow> appCall \<Rightarrow> 'a \<Rightarrow> 'a" where
  "applyCall app (DoRecord k d) = ar_Record app k d"
| "applyCall app (DoUnique t v h) = ar_RecordUnique app t v h"
| "applyCall app (DoEvent row) = ar_RecordRequestEvent app row"
| "applyCall app (DoChallenge k) = ar_RecordChallengeAttempt app k"
| "applyCall app (DoVerify k) = ar_RecordEdgeVerifyAttempt app k"
| "applyCall app (DoHealth k d) = (case ar_RecordDomainHealth app of None \<Rightarrow> (\<lambda>a. a) | Some f \<Rightarrow> f k d)"
| "applyCall app DoFinish = finishRecord app"

text \<open>What a request offers of each kind, in the order of the code.\<close>

definition attemptCalls :: "'a appRef \<Rightarrow> finishedRequest \<Rightarrow> appCall list" where
  "attemptCalls app q =
     (let outcome = readChallengeOutcome (fr_vars q); verify = readEdgeVerifyOutcome (fr_vars q);
          host = challengeVhost (fr_lower q) (fr_request q)
      in (if outcome \<noteq> [] \<and> \<not> defenseExempt app q
          then [DoChallenge \<lparr>ck_vhost = host, ck_ip = securityClientIP (fr_request q), ck_outcome = outcome\<rparr>] else [])
         @ (if verify \<noteq> []
            then [DoVerify \<lparr>ek_vhost = host, ek_pathBucket = pathBucket (fr_lower q) (pathOf q), ek_outcome = verify\<rparr>]
            else []))"

text \<open>Whether the request leaves a row, and the row.\<close>

definition logsRow :: "'a appRef \<Rightarrow> finishedRequest \<Rightarrow> bool" where
  "logsRow app q =
     (case readVhostID (fr_vars q) of
        None \<Rightarrow> ar_RequestEventsModeV2 app \<and> readChallengeOutcome (fr_vars q) \<noteq> []
      | Some _ \<Rightarrow> ar_RequestEventsModeV2 app \<or> reasonOf q = [])"

definition loggedRow :: "'a appRef \<Rightarrow> finishedRequest \<Rightarrow> u64 \<Rightarrow> requestEventRow" where
  "loggedRow app q seq =
     (let disp = deriveDisposition (reasonOf q) (readChallengeOutcome (fr_vars q))
      in case readVhostID (fr_vars q) of
           None \<Rightarrow> fst (buildRequestEventRow app q 0 (challengeVhost (fr_lower q) (fr_request q)) disp seq)
         | Some v \<Rightarrow> if ar_RequestEventsModeV2 app then fst (buildRequestEventRow app q v [] disp seq)
                     else baseRow app q v)"

definition routedCalls :: "'a appRef \<Rightarrow> finishedRequest \<Rightarrow> u32 \<Rightarrow> appCall list" where
  "routedCalls app q v =
     (if domainHealthConfigurationKey (fr_vars q) \<noteq> []
      then [DoHealth \<lparr>dk_TsUnixMin = unixMin (fr_healthNow q), dk_VhostID = v,
                      dk_ConfigurationKey = domainHealthConfigurationKey (fr_vars q)\<rparr> (healthDelta q)]
      else [])
     @ [DoRecord (requestKey app q v) (requestDelta q)]"

definition clientCalls :: "'a appRef \<Rightarrow> finishedRequest \<Rightarrow> u32 \<Rightarrow> appCall list" where
  "clientCalls app q v =
     (if ar_HashSalt app \<noteq> []
      then [DoUnique (unixMin (fr_keyNow q)) v
              (ClientHash (ti_hashIP (identityOf q)) (ti_userAgent (identityOf q)) (ar_HashSalt app))]
      else [])"

definition recordCalls :: "'a appRef \<Rightarrow> finishedRequest \<Rightarrow> u64 \<Rightarrow> appCall list" where
  "recordCalls app q seq =
     (let row = (if logsRow app q then [DoEvent (loggedRow app q seq)] else [])
      in attemptCalls app q
         @ (case readVhostID (fr_vars q) of
              None \<Rightarrow> row
            | Some v \<Rightarrow> routedCalls app q v @ row @ clientCalls app q v)
         @ [DoFinish])"

lemma recordAttempts_calls: "recordAttempts app q a = fold (applyCall app) (attemptCalls app q) a"
  by (simp add: recordAttempts_def attemptCalls_def Let_def)

lemma recordHealth_calls:
  "ar_Record app (requestKey app q v) (requestDelta q) (recordHealth app q v a)
   = fold (applyCall app) (routedCalls app q v) a"
  by (simp add: recordHealth_def routedCalls_def Let_def split: option.splits)

lemma recordEvent_calls:
  assumes "readVhostID (fr_vars q) = Some v"
  shows "recordEvent app q v (a, seq) =
    (fold (applyCall app) (if logsRow app q then [DoEvent (loggedRow app q seq)] else []) a,
     if ar_RequestEventsModeV2 app then seq + 1 else seq)"
  using assms
  by (simp add: recordEvent_def logsRow_def loggedRow_def buildRequestEventRow_def nextMachineSeq_def Let_def)

theorem recordRequest_calls:
  "recordRequest app q (a, seq) =
     (fold (applyCall app) (recordCalls app q seq) a,
      if ar_RequestEventsModeV2 app \<and> logsRow app q then seq + 1 else seq)"
proof (cases "readVhostID (fr_vars q)")
  case None
  then show ?thesis
    by (simp add: recordRequest_def recordUnrouted_def recordCalls_def logsRow_def loggedRow_def
        buildRequestEventRow_def nextMachineSeq_def Let_def recordAttempts_calls)
next
  case (Some v)
  have "recordClient app q v a' = fold (applyCall app) (clientCalls app q v) a'" for a'
    by (simp add: recordClient_def clientCalls_def)
  moreover have "logsRow app q" if "ar_RequestEventsModeV2 app" using that Some by (simp add: logsRow_def)
  ultimately show ?thesis
    using Some recordEvent_calls [OF Some, of app]
    by (simp add: recordRequest_def recordCalls_def Let_def recordAttempts_calls recordHealth_calls)
qed

text \<open>What a row repeats of the counter of the same request.\<close>

lemma loggedRow_agrees:
  assumes "readVhostID (fr_vars q) = Some v"
  shows "let row = loggedRow app q seq; k = requestKey app q v; d = requestDelta q
    in re_VhostID row = k_VhostID k \<and> re_Method row = k_Method k \<and> re_Status row = k_Status k
       \<and> re_Origin row = k_Origin k \<and> re_DefenseExempt row = k_DefenseExempt k
       \<and> re_BytesIn row = d_BytesIn d \<and> re_BytesOut row = d_BytesOut d \<and> re_DurationUs row = d_DurationUs d
       \<and> (re_V2 row \<longleftrightarrow> ar_RequestEventsModeV2 app)"
  using assms
  by (simp add: loggedRow_def buildRequestEventRow_def nextMachineSeq_def baseRow_def requestKey_def requestDelta_def Let_def)

section \<open>The contract of the app\<close>

definition isRecord :: "appCall \<Rightarrow> bool" where
  "isRecord c = (case c of DoRecord _ _ \<Rightarrow> True | _ \<Rightarrow> False)"

text \<open>
  What the handler's users expect of an app: every operation keeps its invariant, \<open>Record\<close>
  counts one request, and nothing else counts one.
\<close>

locale counting_app =
  fixes app :: "'a appRef"
    and inv :: "'a \<Rightarrow> bool"
    and counted :: "'a \<Rightarrow> u64"
  assumes record_counts: "inv a \<Longrightarrow> inv (ar_Record app k d a) \<and> counted (ar_Record app k d a) = counted a + 1"
    and unique_keeps: "inv a \<Longrightarrow> inv (ar_RecordUnique app t v h a) \<and> counted (ar_RecordUnique app t v h a) = counted a"
    and event_keeps: "inv a \<Longrightarrow> inv (ar_RecordRequestEvent app row a) \<and> counted (ar_RecordRequestEvent app row a) = counted a"
    and challenge_keeps:
      "inv a \<Longrightarrow> inv (ar_RecordChallengeAttempt app ck a) \<and> counted (ar_RecordChallengeAttempt app ck a) = counted a"
    and verify_keeps:
      "inv a \<Longrightarrow> inv (ar_RecordEdgeVerifyAttempt app ek a) \<and> counted (ar_RecordEdgeVerifyAttempt app ek a) = counted a"
    and health_keeps:
      "inv a \<Longrightarrow> ar_RecordDomainHealth app = Some f \<Longrightarrow> inv (f hk delta a) \<and> counted (f hk delta a) = counted a"
    and finish_keeps: "inv a \<Longrightarrow> inv (finishRecord app a) \<and> counted (finishRecord app a) = counted a"
begin

lemma apply_counts:
  assumes "inv a"
  shows "inv (applyCall app c a) \<and> counted (applyCall app c a) = counted a + (case c of DoRecord _ _ \<Rightarrow> 1 | _ \<Rightarrow> 0)"
  using assms record_counts unique_keeps event_keeps challenge_keeps verify_keeps health_keeps finish_keeps
  by (cases c) (auto split: option.splits)

lemma fold_counts:
  "inv a \<Longrightarrow> inv (fold (applyCall app) cs a)
     \<and> counted (fold (applyCall app) cs a) = counted a + of_nat (length (filter isRecord cs))"
proof (induction cs arbitrary: a)
  case Nil
  then show ?case by simp
next
  case (Cons c cs)
  from apply_counts [OF Cons.prems] have "inv (applyCall app c a)"
    and "counted (applyCall app c a) = counted a + (if isRecord c then 1 else 0)"
    by (auto simp: isRecord_def split: appCall.splits)
  with Cons.IH [of "applyCall app c a"] show ?case by simp
qed

lemma one_record: "length (filter isRecord (recordCalls app q seq)) = (if readVhostID (fr_vars q) = None then 0 else 1)"
  by (auto simp: recordCalls_def attemptCalls_def routedCalls_def clientCalls_def isRecord_def Let_def split: option.splits)

theorem request_counted:
  assumes "inv a"
  shows "inv (fst (recordRequest app q (a, seq)))
    \<and> counted (fst (recordRequest app q (a, seq))) = counted a + (if readVhostID (fr_vars q) = None then 0 else 1)"
  using fold_counts [OF assms, of "recordCalls app q seq"] one_record [of q seq]
  by (simp add: recordRequest_calls)

end

end
