(* ===== verification/App_Interface.thy ===== *)
theory App_Interface
  imports Handler_Props
begin

text \<open>
  The stats app as an \<open>AppRef\<close>: the recorders of app.go on the state of the app, and the proof
  that they keep the contract the handler relies on.
\<close>

section \<open>The app's methods\<close>

text \<open>
  \<open>salt\<close>, \<open>modeV2\<close>, \<open>telemetry\<close> and \<open>evidenceV2\<close> are the app's configuration.  The app's own
  \<open>finishHTTPRecord\<close> only signals the deliverer, which is modelled apart; the buffers stay.
\<close>

definition statsAppRef ::
    "(real \<Rightarrow> real) \<Rightarrow> string \<Rightarrow> string \<Rightarrow> bool \<Rightarrow> bool \<Rightarrow> bool \<Rightarrow> 't statsApp appRef" where
  "statsAppRef rnd salt machineID modeV2 telemetry evidenceV2 =
     \<lparr>ar_Record = (\<lambda>k d a. a\<lparr>app_http := Record (app_cfg a) k d (app_http a)\<rparr>),
      ar_RecordUnique = (\<lambda>t v h a. a\<lparr>app_http := RecordUnique (app_cfg a) salt t v h (app_http a)\<rparr>),
      ar_RecordRequestEvent = (\<lambda>row a.
         case RecordRequestEvent rnd row (app_reqEvents a, app_gov a) of
           (r, gov) \<Rightarrow> setGov gov (a\<lparr>app_reqEvents := r\<rparr>)),
      ar_RecordChallengeAttempt = (\<lambda>k a. a\<lparr>app_challenge := RecordChallengeAttempt k (app_challenge a)\<rparr>),
      ar_RecordEdgeVerifyAttempt = (\<lambda>k a. a\<lparr>app_edgeVerify := RecordEdgeVerifyAttempt k (app_edgeVerify a)\<rparr>),
      ar_HashSalt = salt, ar_MachineID = machineID, ar_RequestEventsModeV2 = modeV2,
      ar_DefenseExemptionTelemetryEnabled = telemetry, ar_DefensePolicyEvidenceV2Enabled = Some evidenceV2,
      ar_RecordDomainHealth = Some (\<lambda>k d a. a\<lparr>app_health := RecordDomainHealth (app_cfg a) k d (app_health a)\<rparr>),
      ar_finishHTTPRecord = Some (\<lambda>a. a)\<rparr>"

definition app_inv :: "'t statsApp \<Rightarrow> bool" where
  "app_inv a = (http_ok (app_cfg a) (app_http a) \<and> all_uniques_ok (app_cfg a) (app_http a))"

definition app_counted :: "'t statsApp \<Rightarrow> u64" where
  "app_counted a = requestTotal (app_http a) + overflow (app_http a)"

section \<open>The two halves of a shard\<close>

lemma Record_uniques:
  assumes "http_ok cfg a" and "all_uniques_ok cfg a"
  shows "all_uniques_ok cfg (Record cfg k d a)"
proof -
  have "uniques_ok cfg i (s\<lparr>counters := m\<rparr>) = uniques_ok cfg i s" for i s m by (simp add: uniques_ok_def)
  then have set: "all_uniques_ok cfg (setShard i ((shards a ! i)\<lparr>counters := m\<rparr>) a)" for i m
    using assms(2) by (cases "i < shardCount") (simp_all add: all_uniques_ok_def setShard_def nth_list_update)
  from assms(1) show ?thesis
    by (cases rule: Record_cases [of _ _ k d]) (use set assms(2) in \<open>auto simp: all_uniques_ok_def\<close>)
qed

lemma RecordUnique_counters:
  assumes "all_uniques_ok cfg a"
  shows "map counters (shards (RecordUnique cfg salt t v h a)) = map counters (shards a)
    \<and> overflow (RecordUnique cfg salt t v h a) = overflow a"
proof (cases "salt = []")
  case True
  then show ?thesis by (simp add: RecordUnique_def)
next
  case False
  from assms False show ?thesis
  proof (cases rule: RecordUnique_cases [of _ _ _ h t v])
    case add
    have "(map counters (shards a))[i := counters (shards a ! i)] = map counters (shards a)" for i
      by (metis list_update_id map_update)
    with add show ?thesis by (simp add: setShard_def map_update)
  qed simp_all
qed

lemma same_counters:
  assumes "map counters (shards b) = map counters (shards a)"
  shows "http_ok cfg b = http_ok cfg a" and "requestTotal b = requestTotal a"
proof -
  have len: "length (shards b) = length (shards a)" using assms by (metis length_map)
  have nth: "counters (shards b ! i) = counters (shards a ! i)" if "i < length (shards a)" for i
    using assms that len by (metis nth_map)
  have "counters_ok cfg i (shards b ! i) = counters_ok cfg i (shards a ! i)" if "i < length (shards a)" for i
    using nth [OF that] by (simp add: counters_ok_def)
  with len show "http_ok cfg b = http_ok cfg a" by (auto simp: http_ok_def)
  have "map (weigh c_RequestCount) (map counters (shards b)) = map (weigh c_RequestCount) (map counters (shards a))"
    using assms by simp
  then show "requestTotal b = requestTotal a" by (simp add: requestTotal_def comp_def)
qed

section \<open>Any sequence of requests\<close>

text \<open>One arriving request with what the next handlers make of it.\<close>

type_synonym arrival = "httpRequest \<times> finishedRequest \<times> writerCall list \<times> traceEvent list"

definition serveAll :: "'a appRef \<Rightarrow> arrival list \<Rightarrow> 'a \<times> u64 \<Rightarrow> 'a \<times> u64" where
  "serveAll app = fold (\<lambda>(r, q, calls, evs). serveStats False app r q calls evs)"

definition countedArrival :: "arrival \<Rightarrow> bool" where
  "countedArrival x =
     (case x of (r, q, _, _) \<Rightarrow> headerGet (rq_Header r) ''Apx-Monitor'' \<noteq> ''true'' \<and> readVhostID (fr_vars q) \<noteq> None)"

context counting_app
begin

lemma serve_counted:
  assumes "inv a"
  shows "inv (fst (serveStats False app r q calls evs (a, seq)))
    \<and> counted (fst (serveStats False app r q calls evs (a, seq)))
      = counted a + (if countedArrival (r, q, calls, evs) then 1 else 0)"
  using request_counted [OF assms] assms
  by (auto simp: serveStats_def countedArrival_def servedRequest_def)

lemma serve_all_counted:
  "inv a \<Longrightarrow> inv (fst (serveAll app xs (a, seq)))
   \<and> counted (fst (serveAll app xs (a, seq))) = counted a + of_nat (length (filter countedArrival xs))"
proof (induction xs arbitrary: a seq)
  case Nil
  then show ?case by (simp add: serveAll_def)
next
  case (Cons x xs)
  obtain r q calls evs where x: "x = (r, q, calls, evs)" by (cases x) auto
  obtain a' seq' where s: "serveStats False app r q calls evs (a, seq) = (a', seq')"
    by (cases "serveStats False app r q calls evs (a, seq)")
  with serve_counted [OF Cons.prems] have "inv a'"
    and "counted a' = counted a + (if countedArrival x then 1 else 0)" by (metis fst_conv x)+
  with Cons.IH [of a' seq'] s show ?case by (simp add: serveAll_def x)
qed

end

section \<open>The contract\<close>

interpretation stats_app: counting_app "statsAppRef rnd salt machineID modeV2 telemetry evidenceV2" app_inv app_counted
proof
  fix a :: "'a statsApp" and k d
  assume "app_inv a"
  then show "app_inv (ar_Record (statsAppRef rnd salt machineID modeV2 telemetry evidenceV2) k d a)
    \<and> app_counted (ar_Record (statsAppRef rnd salt machineID modeV2 telemetry evidenceV2) k d a) = app_counted a + 1"
    using Record_ok Record_uniques Record_total by (simp add: statsAppRef_def app_inv_def app_counted_def)
next
  fix a :: "'a statsApp" and t v h
  assume "app_inv a"
  then show "app_inv (ar_RecordUnique (statsAppRef rnd salt machineID modeV2 telemetry evidenceV2) t v h a)
    \<and> app_counted (ar_RecordUnique (statsAppRef rnd salt machineID modeV2 telemetry evidenceV2) t v h a) = app_counted a"
    using RecordUnique_ok [of "app_cfg a" "app_http a" salt t v h]
      RecordUnique_counters [of "app_cfg a" "app_http a" salt t v h]
      same_counters [of "RecordUnique (app_cfg a) salt t v h (app_http a)" "app_http a"]
    by (simp add: statsAppRef_def app_inv_def app_counted_def)
qed (auto simp: statsAppRef_def app_inv_def app_counted_def setGov_def finishRecord_def split: prod.splits)

end
