(* ===== verification/Batch_Props.thy ===== *)
theory Batch_Props
  imports Batch
begin

text \<open>
  The flush as a whole: the body is read back line by line, the number of lines is the row
  count that the shipper accounts for, and every counter that was in a shard is in the body.
\<close>

section \<open>Well-formed batches\<close>

definition batch_ok :: "batchRows \<Rightarrow> bool" where
  "batch_ok b =
     ((\<forall>(uk, hs) \<in> set (br_uniq b). hs \<noteq> [])
      \<and> (\<forall>(k, n) \<in> set (snPrefix (br_ip b)). splitPrefixKey k \<noteq> None)
      \<and> (\<forall>(k, n) \<in> set (snIpSni (br_ip b)). splitIpSniKey k \<noteq> None))"

lemma length_concat_singles: "\<forall>x \<in> set xs. length (f x) = 1 \<Longrightarrow> length (concat (map f xs)) = length xs"
  by (induction xs) auto

lemma trackFields_length:
  assumes "batch_ok b"
  shows "int (length (trackFields machineID ps ts b)) = rowCountOf b"
proof -
  have "length (concat (map (uniquesRows ps) (br_uniq b))) = length (br_uniq b)"
    using assms by (intro length_concat_singles) (auto simp: batch_ok_def uniquesRows_def)
  moreover have "length (concat (map (prefixRows ps ts) (snPrefix (br_ip b)))) = length (snPrefix (br_ip b))"
    using assms by (intro length_concat_singles) (fastforce simp: batch_ok_def prefixRows_def)
  moreover have "length (concat (map (ipSniRows ps ts) (snIpSni (br_ip b)))) = length (snIpSni (br_ip b))"
    using assms by (intro length_concat_singles) (fastforce simp: batch_ok_def ipSniRows_def)
  ultimately show ?thesis by (simp add: trackFields_def rowCountOf_def)
qed

definition frame_ok :: "u32 \<Rightarrow> domainHealthFrame option \<Rightarrow> jfields list \<Rightarrow> bool" where
  "frame_ok ps fo rows =
     (case fo of
        None \<Rightarrow> rows = []
      | Some f \<Rightarrow> \<not> f_finished f \<and> \<not> l_released (f_lease f) \<and> f_encodedRows f = 0
                  \<and> ndjson (f_raw f) rows \<and> int (length rows) = l_records (f_lease f))"

text \<open>The rows that the frame writes: its own, or none once the generation is retired.\<close>

lemma frameWriteTo_rows:
  assumes frame: "frame_ok ps fo hrows" and w: "frameWriteTo retW fo h = (htext, fo', hs')"
  shows "\<exists>hs. (hs = hrows \<or> hs = []) \<and> ndjson htext hs
    \<and> (case fo' of None \<Rightarrow> 0 | Some f \<Rightarrow> f_encodedRows f) = int (length hs)"
proof (cases fo)
  case None
  then show ?thesis using w frame by (auto simp: frameWriteTo_def frame_ok_def)
next
  case (Some f)
  show ?thesis
  proof (cases retW)
    case True
    then show ?thesis using w frame Some
      by (auto simp: frameWriteTo_def frame_ok_def split: prod.splits)
  next
    case False
    then show ?thesis using w frame Some
      by (auto simp: frameWriteTo_def frame_ok_def intro!: exI [of _ hrows])
  qed
qed

text \<open>What an accepted flush ships: the track rows, and the health rows unless they were dropped.\<close>

theorem encodeDrained_rows:
  assumes frame: "frame_ok (app_ps a) fo hrows" and b: "batch_ok b"
    and enc: "encodeDrained retW encodeOk ts b fo a = (Some (body, n, health), a')"
  shows "\<exists>hs. (hs = hrows \<or> hs = [])
    \<and> readBatch body = Some (map cleanFields (trackFields (app_machineID a) (app_ps a) ts b @ hs))
    \<and> n = int (length (trackFields (app_machineID a) (app_ps a) ts b @ hs)) \<and> 0 < n"
proof -
  define T where "T = trackFields (app_machineID a) (app_ps a) ts b"
  have lenT: "int (length T) = rowCountOf b" unfolding T_def by (rule trackFields_length [OF b])
  obtain htext fo' hs' where w: "frameWriteTo retW fo (app_health a) = (htext, fo', hs')"
    by (cases "frameWriteTo retW fo (app_health a)")
  define er where "er = (case fo' of None \<Rightarrow> 0 | Some f \<Rightarrow> f_encodedRows f)"
  have bw: "encodeBatchWith retW (app_machineID a) (app_ps a) ts b fo (app_health a)
      = (encodeTracks (app_machineID a) (app_ps a) ts b @ htext, fo', hs')"
    by (simp add: encodeBatchWith_def w)
  have body: "body = encodeTracks (app_machineID a) (app_ps a) ts b @ htext"
    and n: "n = rowCountOf b + er" "n \<noteq> 0"
    using enc unfolding encodeDrained_def Let_def bw
    by (auto simp: er_def split: if_splits)
  from frameWriteTo_rows [OF frame w]
  obtain hs where hs: "hs = hrows \<or> hs = []" "ndjson htext hs" "er = int (length hs)" unfolding er_def by blast
  have "ndjson body (T @ hs)"
    unfolding body T_def using encodeTracks_ndjson hs(2) by (rule ndjson_append)
  then have "readBatch body = Some (map cleanFields (T @ hs))" by (rule readBatch_ndjson)
  moreover have "n = int (length (T @ hs))" using n(1) lenT hs(3) by simp
  moreover from this have "0 < n" using n(2) by simp
  ultimately show ?thesis using hs(1) unfolding T_def by blast
qed

text \<open>A flush with a track row hands a body over, when encoding does not fail.\<close>

lemma encodeDrained_accepts:
  assumes "frame_ok (app_ps a) fo hrows" and "0 < rowCountOf b"
  shows "\<exists>body n health a'. encodeDrained retW True ts b fo a = (Some (body, n, health), a')"
proof -
  obtain htext fo' hs' where w: "frameWriteTo retW fo (app_health a) = (htext, fo', hs')"
    by (cases "frameWriteTo retW fo (app_health a)")
  from frameWriteTo_rows [OF assms(1) this] have "0 \<le> (case fo' of None \<Rightarrow> 0 | Some f \<Rightarrow> f_encodedRows f)" by auto
  with assms(2) show ?thesis by (simp add: encodeDrained_def encodeBatchWith_def w Let_def)
qed

section \<open>Keys of the per-IP maps\<close>

lemma all_keys_mbump: "(\<forall>j \<in> keys (mbump k m). P j) \<longleftrightarrow> P k \<and> (\<forall>j \<in> keys m. P j)"
  by (simp only: keys_mbump ball_simps)

definition ipKeys_ok :: "'t l4IpTrack \<Rightarrow> bool" where
  "ipKeys_ok a = ((\<forall>k \<in> keys (l4IpPrefix a). splitPrefixKey k \<noteq> None)
                  \<and> (\<forall>k \<in> keys (l4IpSni a). splitIpSniKey k \<noteq> None))"

lemma splitIpSniKey_total: "splitIpSniKey (l4IpSniKeyString ip sni outcome) \<noteq> None"
proof -
  define k where "k = l4IpSniKeyString ip sni outcome"
  have "LastIndexByte k (CHR ''|'') \<noteq> None" by (simp add: k_def l4IpSniKeyString_def)
  then obtain l where l: "LastIndexByte k (CHR ''|'') = Some l" by blast
  have "length ip < l"
  proof (rule ccontr)
    assume "\<not> length ip < l"
    then have "drop (Suc l) k = drop (Suc l) (ip @ ''|'') @ sni @ ''|'' @ outcome"
      by (cases "l = length ip") (simp_all add: k_def l4IpSniKeyString_def drop_Cons')
    then have "CHR ''|'' \<in> set (drop (Suc l) k)" by simp
    then show False using LastIndexByte_Some [OF l] by blast
  qed
  then have "CHR ''|'' \<in> set (take l k)"
    by (cases "l - length ip") (auto simp: k_def l4IpSniKeyString_def)
  then have "LastIndexByte (take l k) (CHR ''|'') \<noteq> None" by simp
  then obtain m where "LastIndexByte (take l k) (CHR ''|'') = Some m" by blast
  then show ?thesis using l by (simp add: splitIpSniKey_def k_def [symmetric] Let_def)
qed

text \<open>What \<open>recordIpSni\<close> does to the map: at most one bump, at a key built by the code.\<close>

lemma recordIpSni_map:
  "\<exists>s. l4IpSni (recordIpSni ip sni a) \<in> {l4IpSni a, mbump (l4IpSniKeyString ip s L4IpOutcomeAllowed) (l4IpSni a)}"
  "l4IpPrefix (recordIpSni ip sni a) = l4IpPrefix a"
  by (simp add: recordIpSni_def Let_def, blast) (simp add: recordIpSni_def Let_def)

lemma recordIpSni_keys:
  assumes "ipKeys_ok a"
  shows "ipKeys_ok (recordIpSni ip sni a)"
proof -
  obtain s where "l4IpSni (recordIpSni ip sni a)
      \<in> {l4IpSni a, mbump (l4IpSniKeyString ip s L4IpOutcomeAllowed) (l4IpSni a)}"
    using recordIpSni_map(1) by blast
  then have "\<forall>k \<in> keys (l4IpSni (recordIpSni ip sni a)). splitIpSniKey k \<noteq> None"
    using assms splitIpSniKey_total [of ip s]
    unfolding ipKeys_ok_def by (elim insertE emptyE) (simp_all only: all_keys_mbump, blast+)
  then show ?thesis
    using assms unfolding ipKeys_ok_def recordIpSni_map(2) by blast
qed

lemma RecordL4Ip_keys:
  assumes "ipKeys_ok a"
  shows "ipKeys_ok (RecordL4Ip incr cfg ip sni a)"
proof -
  have "ipKeys_ok (recordTopk incr c a)" if "ipKeys_ok a" for c a
    using that by (simp add: ipKeys_ok_def recordTopk_def)
  moreover have "ipKeys_ok (recordSampled c a)" if "ipKeys_ok a" for c and a :: "'a l4IpTrack"
    using that by (simp add: ipKeys_ok_def recordSampled_def)
  moreover have "ipKeys_ok (recordPrefix (l4IpPrefixKeyString p n) a)" if "ipKeys_ok a"
    for p n and a :: "'a l4IpTrack"
  proof -
    have "splitPrefixKey (l4IpPrefixKeyString p n) \<noteq> None" by (simp add: splitPrefixKey_string)
    then have "\<forall>k \<in> keys (mbump (l4IpPrefixKeyString p n) (l4IpPrefix a)). splitPrefixKey k \<noteq> None"
      using that unfolding all_keys_mbump ipKeys_ok_def by blast
    then show ?thesis using that by (simp only: ipKeys_ok_def recordPrefix_def split: if_split) simp
  qed
  ultimately show ?thesis
    using assms by (simp add: RecordL4Ip_def Let_def recordIpSni_keys split: ipResult.split)
qed

section \<open>The whole flush\<close>

definition health_parts :: "healthState \<Rightarrow> bool" where
  "health_parts hs = (length (healthShards hs) = 16
     \<and> (\<forall>i < 16. distinct_keys (healthShards hs ! i) \<and> (\<forall>k \<in> keys (healthShards hs ! i). healthShard k = i)))"

lemma health_ok_parts: "health_ok cfg outs others hs \<Longrightarrow> health_parts hs"
  unfolding health_ok_def health_parts_def by blast

definition app_parts_ok :: "'t statsApp \<Rightarrow> bool" where
  "app_parts_ok a = (http_ok (app_cfg a) (app_http a) \<and> all_uniques_ok (app_cfg a) (app_http a)
     \<and> ipKeys_ok (app_ip a) \<and> health_parts (app_health a))"

lemma uniques_nonempty:
  assumes "all_uniques_ok cfg h" and "(k, hs) \<in> set (concat (map uniques (shards h)))"
  shows "hs \<noteq> []"
proof -
  obtain s where "s \<in> set (shards h)" "(k, hs) \<in> set (uniques s)" using assms(2) by auto
  moreover from this(1) obtain i where "i < shardCount" "s = shards h ! i"
    using assms(1) by (auto simp: all_uniques_ok_def in_set_conv_nth)
  ultimately show ?thesis using assms(1) by (auto simp: all_uniques_ok_def uniques_ok_def)
qed

lemma drainL4_spec:
  assumes "drainL4 srt rst ts b0 a0 = (b, a)"
  shows "br_snap b = br_snap b0 \<and> br_uniq b = br_uniq b0
    \<and> snPrefix (br_ip b) = l4IpPrefix (app_ip a0) \<and> snIpSni (br_ip b) = l4IpSni (app_ip a0)
    \<and> app_ps a = app_ps a0 \<and> app_machineID a = app_machineID a0
    \<and> healthShards (app_health a) = healthShards (app_health a0)"
  using assms
  by (auto simp: drainL4_def Let_def l4IpSnapshot_def setGov_def split: prod.splits)

lemma drainTracks_spec:
  assumes ok: "app_parts_ok a" and d: "drainTracks srt rst httpOnly ts a = (b, a1)"
  shows "batch_ok b \<and> br_snap b = concat (map counters (shards (app_http a)))
    \<and> app_ps a1 = app_ps a \<and> app_machineID a1 = app_machineID a \<and> health_parts (app_health a1)"
proof -
  define U where "U = concat (map uniques (shards (app_http a)))"
  define b0 where "b0 = noRows\<lparr>br_snap := concat (map counters (shards (app_http a))), br_uniq := U\<rparr>"
  define a0 where "a0 = a\<lparr>app_http := (app_http a)\<lparr>shards := map drainedShard (shards (app_http a))\<rparr>\<rparr>"
  have dr: "drainShards (app_http a) = (concat (map counters (shards (app_http a))), U,
      (app_http a)\<lparr>shards := map drainedShard (shards (app_http a))\<rparr>)"
    unfolding U_def using ok by (intro drainShards_eq) (auto simp: app_parts_ok_def)
  have U: "\<forall>(k, hs) \<in> set U. hs \<noteq> []"
    using ok uniques_nonempty unfolding U_def app_parts_ok_def by fast
  obtain b1 a2 where m: "(if httpOnly then (b0, a0) else drainL4 srt rst ts b0 a0) = (b1, a2)"
    by (metis surj_pair)
  have mid: "br_snap b1 = concat (map counters (shards (app_http a))) \<and> br_uniq b1 = U
    \<and> (\<forall>k \<in> keys (snPrefix (br_ip b1)). splitPrefixKey k \<noteq> None)
    \<and> (\<forall>k \<in> keys (snIpSni (br_ip b1)). splitIpSniKey k \<noteq> None)
    \<and> app_ps a2 = app_ps a \<and> app_machineID a2 = app_machineID a
    \<and> healthShards (app_health a2) = healthShards (app_health a)"
  proof (cases httpOnly)
    case True
    then show ?thesis using m by (auto simp: b0_def a0_def noRows_def emptyIpSnap_def)
  next
    case False
    then have "drainL4 srt rst ts b0 a0 = (b1, a2)" using m by simp
    from drainL4_spec [OF this] show ?thesis
      using ok unfolding app_parts_ok_def ipKeys_ok_def by (simp add: b0_def a0_def)
  qed
  have b: "br_snap b = br_snap b1" "br_uniq b = br_uniq b1" "br_ip b = br_ip b1"
    "app_ps a1 = app_ps a2" "app_machineID a1 = app_machineID a2" "app_health a1 = app_health a2"
    using d unfolding drainTracks_def dr prod.case Let_def b0_def [symmetric] a0_def [symmetric] m
    by (auto split: prod.splits)
  have "batch_ok b" unfolding batch_ok_def using b mid U by auto
  moreover have "health_parts (app_health a1)"
    using ok mid b by (simp add: app_parts_ok_def health_parts_def)
  ultimately show ?thesis using b mid by simp
qed

lemma mergeHealth:
  assumes "health_parts hs"
  shows "fold (\<lambda>m out. fold (\<lambda>(k, v). mput k v) m out) (healthShards hs) [] = concat (healthShards hs)"
proof -
  have "partitioned healthShard 0 (healthShards hs)"
    using assms by (intro partitionedI) (simp add: health_parts_def)
  then have "fold mergeInto (healthShards hs) [] = concat (healthShards hs)"
    using fold_mergeInto [of healthShard 0 "healthShards hs" "[]"] by simp
  then show ?thesis by (simp add: mergeInto_def [abs_def])
qed

lemma length_concat_healthTotal: "length (concat (healthShards hs)) = healthTotal hs"
  by (simp add: healthTotal_def length_concat)

lemma prepareDomainHealth_enc0:
  "prepareDomainHealth ret ps snap lm hs = (Some f, hs') \<Longrightarrow> f_encodedRows f = 0"
  by (auto simp: prepareDomainHealth_def Let_def split: option.splits if_splits sum.splits)

lemma drainHealth_frame:
  assumes ok: "health_parts (app_health a)" and d: "drainHealth ret a = (fo, a')"
  shows "(frame_ok (app_ps a) fo (map (\<lambda>(k, c). domainHealthFields (app_ps a) k c) (concat (healthShards (app_health a))))
          \<or> frame_ok (app_ps a) fo [])
    \<and> app_ps a' = app_ps a \<and> app_machineID a' = app_machineID a"
proof (cases "ret 0")
  case True
  then show ?thesis using d by (auto simp: drainHealth_def frame_ok_def)
next
  case False
  define hs where "hs = app_health a"
  obtain snap hs1 where s: "drainDomainHealth hs = (snap, hs1)" by (cases "drainDomainHealth hs")
  obtain fr hs2 where p: "prepareDomainHealth (ret \<circ> Suc) (app_ps a) snap domainHealthRawFrameBytes hs1 = (fr, hs2)"
    by (cases "prepareDomainHealth (ret \<circ> Suc) (app_ps a) snap domainHealthRawFrameBytes hs1")
  have d': "fo = fr" "app_ps a' = app_ps a" "app_machineID a' = app_machineID a"
    using d False s p by (auto simp: drainHealth_def hs_def)
  show ?thesis
  proof (cases snap)
    case None
    then show ?thesis using p d' by (simp add: prepareDomainHealth_def frame_ok_def)
  next
    case (Some sn)
    have sn: "s_rows sn = concat (healthShards hs)" "s_lease sn = \<lparr>l_records = int (healthTotal hs), l_released = False\<rparr>"
      using s Some ok mergeHealth
      by (auto simp: drainDomainHealth_def detachDomainHealth_def Let_def hs_def split: if_splits)
    then have "\<not> l_released (s_lease sn)" "0 \<le> l_records (s_lease sn)" by simp_all
    from prepareDomainHealth_spec [OF this p [unfolded Some]]
    consider f where "fr = Some f" "f_lease f = s_lease sn" "\<not> f_finished f"
        "f_raw f = concat (map (\<lambda>(k, c). encodeDomainHealthRow (app_ps a) k c) (s_rows sn))"
      | "fr = None" by blast
    then show ?thesis
    proof cases
      case (1 f)
      then have "f_encodedRows f = 0" using prepareDomainHealth_enc0 p by blast
      then show ?thesis
        using 1 d' sn healthRows_ndjson [of "app_ps a" "s_rows sn"]
        by (simp add: frame_ok_def hs_def length_concat_healthTotal)
    next
      case 2
      then show ?thesis using d' by (simp add: frame_ok_def)
    qed
  qed
qed

lemma batch_ok_reqEvents: "batch_ok (b\<lparr>br_reqEvents := rs\<rparr>) = batch_ok b"
  by (simp add: batch_ok_def)

text \<open>The rows of an accepted flush, exactly.\<close>

theorem drainAndEncode_exact:
  assumes ok: "app_parts_ok a"
    and d: "drainAndEncode srt rst ret retW encodeOk httpOnly ts a = (Some (body, n, health), a')"
  shows "\<exists>b hs. let rows = trackFields (app_machineID a) (app_ps a) ts b @ hs
    in readBatch body = Some (map cleanFields rows) \<and> n = int (length rows) \<and> 0 < n
       \<and> br_snap b = concat (map counters (shards (app_http a)))
       \<and> (\<forall>row \<in> set hs. \<exists>k c. row = domainHealthFields (app_ps a) k c)"
proof -
  obtain b a1 where b: "drainTracks srt rst httpOnly ts a = (b, a1)"
    by (cases "drainTracks srt rst httpOnly ts a")
  obtain fo a2 where fo: "drainHealth ret a1 = (fo, a2)" by (cases "drainHealth ret a1")
  obtain b' a3 where b': "drainReqEvents b a2 = (b', a3)" by (cases "drainReqEvents b a2")
  note T = drainTracks_spec [OF ok b]
  then have "health_parts (app_health a1)" by simp
  note H = drainHealth_frame [OF this fo]
  have R: "br_snap b' = br_snap b" "batch_ok b' = batch_ok b" "app_ps a3 = app_ps a2"
    "app_machineID a3 = app_machineID a2"
    using b' batch_ok_reqEvents by (auto simp: drainReqEvents_def setGov_def split: option.splits prod.splits)
  have same: "app_ps a3 = app_ps a" "app_machineID a3 = app_machineID a" using R H T by simp_all
  have enc: "encodeDrained retW encodeOk ts b' fo a3 = (Some (body, n, health), a')"
    using d by (simp add: drainAndEncode_def b fo b')
  from H R T obtain hrows where hrows: "frame_ok (app_ps a3) fo hrows"
    "\<forall>row \<in> set hrows. \<exists>k c. row = domainHealthFields (app_ps a) k c" by fastforce
  from encodeDrained_rows [OF hrows(1) _ enc] R T obtain hs where "hs = hrows \<or> hs = []"
    "readBatch body = Some (map cleanFields (trackFields (app_machineID a) (app_ps a) ts b' @ hs))"
    "n = int (length (trackFields (app_machineID a) (app_ps a) ts b' @ hs))" "0 < n"
    unfolding same by auto
  with hrows(2) R T show ?thesis unfolding Let_def by (intro exI [of _ b'] exI [of _ hs]) auto
qed

lemma drainAndEncode_accepts:
  assumes ok: "app_parts_ok a" and "concat (map counters (shards (app_http a))) \<noteq> []"
  shows "\<exists>body n health a'. drainAndEncode srt rst ret retW True httpOnly ts a = (Some (body, n, health), a')"
proof -
  obtain b a1 where b: "drainTracks srt rst httpOnly ts a = (b, a1)"
    by (cases "drainTracks srt rst httpOnly ts a")
  obtain fo a2 where fo: "drainHealth ret a1 = (fo, a2)" by (cases "drainHealth ret a1")
  obtain b' a3 where b': "drainReqEvents b a2 = (b', a3)" by (cases "drainReqEvents b a2")
  note T = drainTracks_spec [OF ok b]
  then have "health_parts (app_health a1)" by simp
  note H = drainHealth_frame [OF this fo]
  have "br_snap b' = br_snap b" "app_ps a3 = app_ps a2"
    using b' by (auto simp: drainReqEvents_def setGov_def split: option.splits prod.splits)
  with T H assms(2) obtain hrows where "frame_ok (app_ps a3) fo hrows" and "br_snap b' \<noteq> []" by auto
  moreover from this(2) have "0 < rowCountOf b'" unfolding rowCountOf_def of_nat_0_less_iff by simp
  ultimately show ?thesis using encodeDrained_accepts by (simp add: drainAndEncode_def b fo b')
qed

text \<open>In particular, every counter that was in a shard is one of them.\<close>

corollary drainAndEncode_rows:
  assumes ok: "app_parts_ok a"
    and d: "drainAndEncode srt rst ret retW encodeOk httpOnly ts a = (Some (body, n, health), a')"
  shows "\<exists>rows. readBatch body = Some rows \<and> n = int (length rows) \<and> 0 < n
    \<and> (\<forall>k c. counterFor (app_http a) k = Some c \<longrightarrow> cleanFields (counterFields (app_ps a) k c) \<in> set rows)"
proof -
  from drainAndEncode_exact [OF assms] obtain b hs where
    rd: "readBatch body = Some (map cleanFields (trackFields (app_machineID a) (app_ps a) ts b @ hs))"
      "n = int (length (trackFields (app_machineID a) (app_ps a) ts b @ hs))" "0 < n"
    and snap: "br_snap b = concat (map counters (shards (app_http a)))" unfolding Let_def by blast
  have "cleanFields (counterFields (app_ps a) k c)
      \<in> set (map cleanFields (trackFields (app_machineID a) (app_ps a) ts b @ hs))"
    if "counterFor (app_http a) k = Some c" for k c
  proof -
    have "map_of (fst (drainShards (app_http a))) k = Some c"
      using drainShards_lookup [of "app_cfg a" "app_http a" k] ok that by (simp add: app_parts_ok_def)
    then have "(k, c) \<in> set (br_snap b)"
      using drainShards_eq ok unfolding snap by (metis app_parts_ok_def fst_conv map_of_SomeD)
    then have "counterFields (app_ps a) k c \<in> set (trackFields (app_machineID a) (app_ps a) ts b)"
      unfolding trackFields_def by force
    then show ?thesis by (metis Un_iff imageI set_append set_map)
  qed
  with rd show ?thesis
    by (intro exI [of _ "map cleanFields (trackFields (app_machineID a) (app_ps a) ts b @ hs)"]) simp
qed

end
