(* ===== verification/Overload.thy ===== *)
theory Overload
  imports Mem_Governor
begin

text \<open>
  Overload control (overload.go): the configuration and its resolution, the level machine
  \<open>nextLevel\<close>, and the registry of started apps that decides which configuration is current.
\<close>

section \<open>Configuration\<close>

record AdmissionConfig =
  ac_Mode :: string
  ac_MinLimit :: int
  ac_HardLimit :: int

record OverloadThresholds =
  ot_ConserveThrottlePermille :: int
  ot_ShedThrottlePermille :: int
  ot_CalmThrottlePermille :: int
  ot_ConserveSchedMs :: int
  ot_ShedSchedMs :: int
  ot_CalmSchedMs :: int
  ot_BurstTteS :: int
  ot_EnterSamples :: int
  ot_DwellS :: int
  ot_ConserveExitS :: int
  ot_ShedExitS :: int

record OverloadConfig =
  ov_WAF :: string
  ov_Admission :: "AdmissionConfig option"
  ov_Thresholds :: "OverloadThresholds option"

definition overloadModeOff :: string where "overloadModeOff = ''off''"
definition overloadModeObserve :: string where "overloadModeObserve = ''observe''"
definition overloadModeEnforce :: string where "overloadModeEnforce = ''enforce''"

lemmas mode_defs = overloadModeOff_def overloadModeObserve_def overloadModeEnforce_def

definition validOverloadMode :: "string \<Rightarrow> bool" where
  "validOverloadMode m = (m \<in> {[], overloadModeOff, overloadModeObserve, overloadModeEnforce})"

datatype overloadError = BadWafMode string | BadAdmissionMode string | NegativeLimit | NegativeThreshold

definition thresholdValues :: "OverloadThresholds \<Rightarrow> int list" where
  "thresholdValues t =
     [ot_ConserveThrottlePermille t, ot_ShedThrottlePermille t, ot_CalmThrottlePermille t,
      ot_ConserveSchedMs t, ot_ShedSchedMs t, ot_CalmSchedMs t, ot_BurstTteS t, ot_EnterSamples t,
      ot_DwellS t, ot_ConserveExitS t, ot_ShedExitS t]"

definition Validate :: "OverloadConfig option \<Rightarrow> overloadError option" where
  "Validate co =
     (case co of
        None \<Rightarrow> None
      | Some c \<Rightarrow>
          if \<not> validOverloadMode (ov_WAF c) then Some (BadWafMode (ov_WAF c))
          else
            (let thr = (case ov_Thresholds c of
                          None \<Rightarrow> None
                        | Some t \<Rightarrow> if list_ex (\<lambda>v. v < 0) (thresholdValues t)
                                    then Some NegativeThreshold else None)
             in case ov_Admission c of
                  None \<Rightarrow> thr
                | Some ad \<Rightarrow>
                    if \<not> validOverloadMode (ac_Mode ad) then Some (BadAdmissionMode (ac_Mode ad))
                    else if ac_MinLimit ad < 0 \<or> ac_HardLimit ad < 0 then Some NegativeLimit
                    else thr))"

text \<open>The time-to-empty threshold is a float64 in the code; it is a whole number here.\<close>

record levelThresholds =
  lt_conserveThrottle :: int
  lt_shedThrottle :: int
  lt_calmThrottle :: int
  lt_conserveSched :: duration
  lt_shedSched :: duration
  lt_calmSched :: duration
  lt_burstTte :: real
  lt_enterSamples :: int
  lt_dwell :: duration
  lt_conserveExit :: duration
  lt_shedExit :: duration

definition defaultLevelThresholds :: levelThresholds where
  "defaultLevelThresholds =
     \<lparr>lt_conserveThrottle = 100, lt_shedThrottle = 300, lt_calmThrottle = 50,
      lt_conserveSched = 20 * Millisecond, lt_shedSched = 100 * Millisecond,
      lt_calmSched = 10 * Millisecond, lt_burstTte = 300, lt_enterSamples = 3,
      lt_dwell = 30 * Second, lt_conserveExit = 120 * Second, lt_shedExit = 60 * Second\<rparr>"

definition pick :: "int \<Rightarrow> int \<Rightarrow> int" where
  "pick v cur = (if v > 0 then v else cur)"

text \<open>The product of two durations wraps like every int64 product.\<close>

definition pickD :: "int \<Rightarrow> duration \<Rightarrow> duration \<Rightarrow> duration" where
  "pickD v unt cur = (if v > 0 then i64 (v * unt) else cur)"

definition resolveLevelThresholds :: "(real \<Rightarrow> real) \<Rightarrow> OverloadThresholds option \<Rightarrow> levelThresholds" where
  "resolveLevelThresholds rnd to =
     (let th = defaultLevelThresholds
      in case to of
           None \<Rightarrow> th
         | Some t \<Rightarrow>
             \<lparr>lt_conserveThrottle = pick (ot_ConserveThrottlePermille t) (lt_conserveThrottle th),
              lt_shedThrottle = pick (ot_ShedThrottlePermille t) (lt_shedThrottle th),
              lt_calmThrottle = pick (ot_CalmThrottlePermille t) (lt_calmThrottle th),
              lt_conserveSched = pickD (ot_ConserveSchedMs t) Millisecond (lt_conserveSched th),
              lt_shedSched = pickD (ot_ShedSchedMs t) Millisecond (lt_shedSched th),
              lt_calmSched = pickD (ot_CalmSchedMs t) Millisecond (lt_calmSched th),
              lt_burstTte = (if ot_BurstTteS t > 0 then rnd (of_int (ot_BurstTteS t)) else lt_burstTte th),
              lt_enterSamples = pick (ot_EnterSamples t) (lt_enterSamples th),
              lt_dwell = pickD (ot_DwellS t) Second (lt_dwell th),
              lt_conserveExit = pickD (ot_ConserveExitS t) Second (lt_conserveExit th),
              lt_shedExit = pickD (ot_ShedExitS t) Second (lt_shedExit th)\<rparr>)"

record overloadRuntime =
  or_waf :: string
  or_admission :: string
  or_minLimit :: int
  or_hardLimit :: int
  or_thresholds :: levelThresholds
  or_wafEnforce :: bool
  or_wafObserve :: bool
  or_admitEnforce :: bool
  or_admitObserve :: bool
  or_admissionLive :: bool

text \<open>\<open>memTotalBytes >> 20\<close> is below \<open>2 ^ 44\<close>, so the conversion to int and the doubling are exact.\<close>

definition defaultHardLimit :: "u64 \<Rightarrow> int" where
  "defaultHardLimit memTotalBytes =
     (let mb = uint (drop_bit 20 memTotalBytes) in if mb * 2 > 256 then mb * 2 else 256)"

definition resolveOverloadConfig ::
    "(real \<Rightarrow> real) \<Rightarrow> OverloadConfig option \<Rightarrow> u64 \<Rightarrow> overloadRuntime option" where
  "resolveOverloadConfig rnd co memTotalBytes =
     (case co of
        None \<Rightarrow> None
      | Some c \<Rightarrow>
          (let waf = (if ov_WAF c = [] then overloadModeOff else ov_WAF c);
               admission = (case ov_Admission c of
                              None \<Rightarrow> overloadModeOff
                            | Some ad \<Rightarrow> if ac_Mode ad \<noteq> [] then ac_Mode ad else overloadModeOff);
               minL0 = (case ov_Admission c of
                          None \<Rightarrow> 8
                        | Some ad \<Rightarrow> if ac_MinLimit ad > 0 then ac_MinLimit ad else 8);
               hard0 = (case ov_Admission c of None \<Rightarrow> 0 | Some ad \<Rightarrow> ac_HardLimit ad);
               hard = (if hard0 \<le> 0 then defaultHardLimit memTotalBytes else hard0);
               minL = (if minL0 > hard then hard else minL0)
           in Some \<lparr>or_waf = waf, or_admission = admission, or_minLimit = minL, or_hardLimit = hard,
                    or_thresholds = resolveLevelThresholds rnd (ov_Thresholds c),
                    or_wafEnforce = (waf = overloadModeEnforce), or_wafObserve = (waf = overloadModeObserve),
                    or_admitEnforce = (admission = overloadModeEnforce),
                    or_admitObserve = (admission = overloadModeObserve),
                    or_admissionLive = (admission = overloadModeEnforce \<or> admission = overloadModeObserve)\<rparr>))"

section \<open>The level machine\<close>

definition reasonThrottle :: u32 where "reasonThrottle = 1"
definition reasonSched :: u32 where "reasonSched = 2"
definition reasonBurstTte :: u32 where "reasonBurstTte = 4"
definition reasonHardCap :: u32 where "reasonHardCap = 8"

record levelSample =
  ls_throttlePermille :: int
  ls_schedP99 :: duration
  ls_tte :: real
  ls_hardCap :: bool

record levelState =
  st_level :: int
  st_since :: gotime
  st_streak1 :: int
  st_streak2 :: int
  st_l2ClearSince :: gotime
  st_calmSince :: gotime
  st_reasons :: u32

definition zeroLevel :: levelState where
  "zeroLevel = \<lparr>st_level = 0, st_since = 0, st_streak1 = 0, st_streak2 = 0, st_l2ClearSince = 0,
     st_calmSince = 0, st_reasons = 0\<rparr>"

definition sampleReasons :: "levelThresholds \<Rightarrow> levelSample \<Rightarrow> u32" where
  "sampleReasons th s =
     (if ls_throttlePermille s \<ge> lt_conserveThrottle th then reasonThrottle else 0)
     OR (if ls_schedP99 s \<ge> lt_conserveSched th then reasonSched else 0)
     OR (if ls_tte s \<ge> 0 \<and> ls_tte s < lt_burstTte th then reasonBurstTte else 0)
     OR (if ls_hardCap s then reasonHardCap else 0)"

definition level2Term :: "levelThresholds \<Rightarrow> levelSample \<Rightarrow> bool" where
  "level2Term th s =
     (ls_throttlePermille s \<ge> lt_shedThrottle th \<or> ls_schedP99 s \<ge> lt_shedSched th)"

definition level1Term :: "levelThresholds \<Rightarrow> levelSample \<Rightarrow> bool" where
  "level1Term th s =
     (level2Term th s
      \<or> sampleReasons th s AND (reasonThrottle OR reasonSched OR reasonBurstTte) \<noteq> 0)"

definition calmTerm :: "levelThresholds \<Rightarrow> levelSample \<Rightarrow> bool" where
  "calmTerm th s =
     (\<not> level1Term th s \<and> ls_throttlePermille s < lt_calmThrottle th \<and> ls_schedP99 s < lt_calmSched th)"

text \<open>The counters and clocks of a sample, before the switch.\<close>

definition countSample :: "levelThresholds \<Rightarrow> levelSample \<Rightarrow> gotime \<Rightarrow> levelState \<Rightarrow> levelState" where
  "countSample th s now st =
     st\<lparr>st_streak2 := (if level2Term th s then st_streak2 st + 1 else 0),
        st_l2ClearSince := (if level2Term th s then 0
                            else if IsZero (st_l2ClearSince st) then now else st_l2ClearSince st),
        st_streak1 := (if level1Term th s then st_streak1 st + 1 else 0),
        st_calmSince := (if calmTerm th s
                         then (if IsZero (st_calmSince st) then now else st_calmSince st) else 0)\<rparr>"

definition enterLevel :: "int \<Rightarrow> gotime \<Rightarrow> levelState \<Rightarrow> levelState" where
  "enterLevel l now st = st\<lparr>st_level := l, st_since := now\<rparr>"

definition nextLevel ::
    "levelState \<Rightarrow> levelSample \<Rightarrow> gotime \<Rightarrow> levelThresholds \<Rightarrow> levelState" where
  "nextLevel st0 s now th =
     (let st = countSample th s now st0;
          dwellOK = (time_Sub now (st_since st) \<ge> lt_dwell th);
          st' = (if st_level st < 2 \<and> st_streak2 st \<ge> lt_enterSamples th then enterLevel 2 now st
                 else if st_level st < 1 \<and> st_streak1 st \<ge> lt_enterSamples th then enterLevel 1 now st
                 else if st_level st = 2 \<and> dwellOK \<and> \<not> IsZero (st_l2ClearSince st)
                      \<and> time_Sub now (st_l2ClearSince st) \<ge> lt_shedExit th then enterLevel 1 now st
                 else if st_level st = 1 \<and> dwellOK \<and> \<not> IsZero (st_calmSince st)
                      \<and> time_Sub now (st_calmSince st) \<ge> lt_conserveExit th then enterLevel 0 now st
                 else st)
      in st'\<lparr>st_reasons := sampleReasons th s\<rparr>)"

section \<open>The registry of started apps\<close>

text \<open>
  An owner is a pointer; here it has a number that no other owner gets.  \<open>oc_sampling\<close> is
  whether a sampler runs whose stop channel is open.
\<close>

record overloadOwner =
  oo_id :: nat
  oo_cfg :: "OverloadConfig option"

record overloadController =
  oc_cfg :: "overloadRuntime option"
  oc_level :: int
  oc_owners :: "overloadOwner list"
  oc_sampling :: bool
  oc_next :: nat

definition Level :: "overloadController \<Rightarrow> int" where
  "Level c = (case oc_cfg c of None \<Rightarrow> 0 | Some rt \<Rightarrow> oc_level c)"

definition applyOverloadConfig ::
    "(real \<Rightarrow> real) \<Rightarrow> u64 \<Rightarrow> OverloadConfig option \<Rightarrow> overloadController \<Rightarrow> overloadController" where
  "applyOverloadConfig rnd mem cfg c =
     (case resolveOverloadConfig rnd cfg mem of
        None \<Rightarrow> c\<lparr>oc_cfg := None, oc_level := 0\<rparr>
      | Some rt \<Rightarrow> c\<lparr>oc_cfg := Some rt\<rparr>)"

definition overloadRetain ::
    "(real \<Rightarrow> real) \<Rightarrow> u64 \<Rightarrow> OverloadConfig option \<Rightarrow> overloadController
     \<Rightarrow> overloadOwner \<times> overloadController" where
  "overloadRetain rnd mem cfg c =
     (let own = \<lparr>oo_id = oc_next c, oo_cfg = cfg\<rparr>;
          c1 = applyOverloadConfig rnd mem cfg (c\<lparr>oc_owners := oc_owners c @ [own], oc_next := Suc (oc_next c)\<rparr>)
      in (own, if length (oc_owners c1) = 1 then c1\<lparr>oc_sampling := True\<rparr> else c1))"

fun ownerIndex :: "overloadOwner list \<Rightarrow> overloadOwner \<Rightarrow> nat option" where
  "ownerIndex [] own = None"
| "ownerIndex (x # xs) own = (if oo_id x = oo_id own then Some 0 else map_option Suc (ownerIndex xs own))"

definition overloadRelease ::
    "(real \<Rightarrow> real) \<Rightarrow> u64 \<Rightarrow> overloadOwner \<Rightarrow> overloadController \<Rightarrow> overloadController" where
  "overloadRelease rnd mem own c =
     (case ownerIndex (oc_owners c) own of
        None \<Rightarrow> c
      | Some i \<Rightarrow>
          (let newest = (i = length (oc_owners c) - 1);
               c1 = c\<lparr>oc_owners := take i (oc_owners c) @ drop (Suc i) (oc_owners c)\<rparr>
           in if oc_owners c1 \<noteq> []
              then (if newest then applyOverloadConfig rnd mem (oo_cfg (last (oc_owners c1))) c1 else c1)
              else (applyOverloadConfig rnd mem None c1)\<lparr>oc_sampling := False\<rparr>))"

definition initController :: overloadController where
  "initController = \<lparr>oc_cfg = None, oc_level = 0, oc_owners = [], oc_sampling = False, oc_next = 0\<rparr>"

end
