(* ===== verification/Overload_Props.thy ===== *)
theory Overload_Props
  imports Overload
begin

text \<open>
  Correctness of overload control: resolved limits make sense, the level rises only after its
  condition has held on enough consecutive samples and falls by one only after dwell and a
  long enough clear run, and the current configuration is the one of the newest started app.
\<close>

section \<open>Resolved limits\<close>

lemma defaultHardLimit_min: "256 \<le> defaultHardLimit mem"
  by (simp add: defaultHardLimit_def Let_def)

lemma resolveOverload_limits:
  assumes "resolveOverloadConfig rnd (Some c) mem = Some rt"
  shows "1 \<le> or_minLimit rt \<and> or_minLimit rt \<le> or_hardLimit rt"
  using assms defaultHardLimit_min [of mem]
  by (auto simp: resolveOverloadConfig_def Let_def split: option.splits)

lemma modes_distinct: "overloadModeEnforce \<noteq> overloadModeObserve" "overloadModeEnforce \<noteq> overloadModeOff"
  "overloadModeObserve \<noteq> overloadModeOff"
  by (simp_all add: mode_defs)

lemma resolveOverload_modes:
  assumes "resolveOverloadConfig rnd (Some c) mem = Some rt" and "Validate (Some c) = None"
  shows "or_waf rt \<in> {overloadModeOff, overloadModeObserve, overloadModeEnforce}
    \<and> or_admission rt \<in> {overloadModeOff, overloadModeObserve, overloadModeEnforce}
    \<and> \<not> (or_wafEnforce rt \<and> or_wafObserve rt)"
proof -
  have waf: "validOverloadMode (ov_WAF c)"
    and adm: "case ov_Admission c of None \<Rightarrow> True | Some ad \<Rightarrow> validOverloadMode (ac_Mode ad)"
    using assms(2) by (auto simp: Validate_def Let_def split: option.splits if_splits)
  have "or_waf rt \<in> {overloadModeOff, overloadModeObserve, overloadModeEnforce}"
    using assms(1) waf by (auto simp: resolveOverloadConfig_def validOverloadMode_def Let_def)
  moreover have "or_admission rt \<in> {overloadModeOff, overloadModeObserve, overloadModeEnforce}"
    using assms(1) adm
    by (auto simp: resolveOverloadConfig_def validOverloadMode_def Let_def split: option.splits)
  moreover have "\<not> (or_wafEnforce rt \<and> or_wafObserve rt)"
    using assms(1) modes_distinct(1) by (auto simp: resolveOverloadConfig_def Let_def)
  ultimately show ?thesis by blast
qed

lemma resolveOverload_Some: "resolveOverloadConfig rnd (Some c) mem \<noteq> None"
  by (simp add: resolveOverloadConfig_def Let_def)

section \<open>The level over a run of samples\<close>

definition levelRun :: "levelThresholds \<Rightarrow> (levelSample \<times> gotime) list \<Rightarrow> levelState" where
  "levelRun th xs = fold (\<lambda>(s, now) st. nextLevel st s now th) xs zeroLevel"

lemma levelRun_snoc: "levelRun th (xs @ [(s, now)]) = nextLevel (levelRun th xs) s now th"
  by (simp add: levelRun_def)

lemma enterLevel_simps [simp]:
  "st_level (enterLevel l now st) = l" "st_since (enterLevel l now st) = now"
  "st_streak1 (enterLevel l now st) = st_streak1 st" "st_streak2 (enterLevel l now st) = st_streak2 st"
  "st_l2ClearSince (enterLevel l now st) = st_l2ClearSince st"
  "st_calmSince (enterLevel l now st) = st_calmSince st"
  by (simp_all add: enterLevel_def)

lemma countSample_simps [simp]:
  "st_level (countSample th s now st) = st_level st" "st_since (countSample th s now st) = st_since st"
  by (simp_all add: countSample_def)

lemma nextLevel_counts:
  "st_streak1 (nextLevel st s now th) = st_streak1 (countSample th s now st)"
  "st_streak2 (nextLevel st s now th) = st_streak2 (countSample th s now st)"
  "st_l2ClearSince (nextLevel st s now th) = st_l2ClearSince (countSample th s now st)"
  "st_calmSince (nextLevel st s now th) = st_calmSince (countSample th s now st)"
  by (simp_all add: nextLevel_def Let_def)

lemma nextLevel_level:
  obtains (up2) "st_level (nextLevel st s now th) = 2" "st_level st < 2"
      "st_streak2 (countSample th s now st) \<ge> lt_enterSamples th"
  | (up1) "st_level (nextLevel st s now th) = 1" "st_level st < 1"
      "st_streak1 (countSample th s now st) \<ge> lt_enterSamples th"
  | (down1) "st_level (nextLevel st s now th) = 1" "st_level st = 2"
      "time_Sub now (st_since st) \<ge> lt_dwell th" "st_l2ClearSince (countSample th s now st) \<noteq> 0"
      "time_Sub now (st_l2ClearSince (countSample th s now st)) \<ge> lt_shedExit th"
  | (down0) "st_level (nextLevel st s now th) = 0" "st_level st = 1"
      "time_Sub now (st_since st) \<ge> lt_dwell th" "st_calmSince (countSample th s now st) \<noteq> 0"
      "time_Sub now (st_calmSince (countSample th s now st)) \<ge> lt_conserveExit th"
  | (same) "st_level (nextLevel st s now th) = st_level st"
proof -
  let ?st = "countSample th s now st"
  consider "st_level st < 2 \<and> st_streak2 ?st \<ge> lt_enterSamples th"
    | "\<not> (st_level st < 2 \<and> st_streak2 ?st \<ge> lt_enterSamples th)"
      "st_level st < 1 \<and> st_streak1 ?st \<ge> lt_enterSamples th"
    | "\<not> (st_level st < 2 \<and> st_streak2 ?st \<ge> lt_enterSamples th)"
      "\<not> (st_level st < 1 \<and> st_streak1 ?st \<ge> lt_enterSamples th)"
    by blast
  then show ?thesis
  proof cases
    case 1
    then show ?thesis using up2 by (simp add: nextLevel_def Let_def)
  next
    case 2
    then have "st_level (nextLevel st s now th) = 1" by (auto simp add: nextLevel_def Let_def)
    with 2 show ?thesis using up1 by blast
  next
    case 3
    show ?thesis
    proof (cases "st_level st = 2 \<and> time_Sub now (st_since st) \<ge> lt_dwell th \<and> st_l2ClearSince ?st \<noteq> 0
        \<and> time_Sub now (st_l2ClearSince ?st) \<ge> lt_shedExit th")
      case True
      then show ?thesis using down1 by (simp add: nextLevel_def Let_def)
    next
      case no2: False
      show ?thesis
      proof (cases "st_level st = 1 \<and> time_Sub now (st_since st) \<ge> lt_dwell th \<and> st_calmSince ?st \<noteq> 0
          \<and> time_Sub now (st_calmSince ?st) \<ge> lt_conserveExit th")
        case True
        then have "st_level (nextLevel st s now th) = 0" using 3 no2
          by (auto simp: nextLevel_def Let_def)
        then show ?thesis using True down0 by blast
      next
        case False
        have "st_level (nextLevel st s now th) = st_level st"
          unfolding nextLevel_def Let_def countSample_simps using 3 no2 False by auto
        then show ?thesis by (rule same)
      qed
    qed
  qed
qed

lemma levelRun_range: "st_level (levelRun th xs) \<in> {0, 1, 2}"
proof (induction xs rule: rev_induct)
  case Nil
  show ?case by (simp add: levelRun_def zeroLevel_def)
next
  case (snoc x xs)
  obtain s now where x: "x = (s, now)" by fastforce
  show ?case unfolding x levelRun_snoc
    by (cases rule: nextLevel_level [of "levelRun th xs" s now th]) (use snoc.IH in auto)
qed

text \<open>What the counters and clocks mean: they describe the run of samples at the end.\<close>

abbreviation endRun :: "(levelSample \<Rightarrow> bool) \<Rightarrow> (levelSample \<times> gotime) list \<Rightarrow> (levelSample \<times> gotime) list" where
  "endRun P xs \<equiv> takeWhile (\<lambda>z. P (fst z)) (rev xs)"

lemma streaks_count:
  "st_streak1 (levelRun th xs) = int (length (endRun (level1Term th) xs))"
  "st_streak2 (levelRun th xs) = int (length (endRun (level2Term th) xs))"
proof (induction xs rule: rev_induct)
  case Nil
  show "st_streak1 (levelRun th []) = int (length (endRun (level1Term th) []))"
    "st_streak2 (levelRun th []) = int (length (endRun (level2Term th) []))"
    by (simp_all add: levelRun_def zeroLevel_def)
next
  case (snoc x xs)
  obtain s now where x: "x = (s, now)" by fastforce
  show "st_streak1 (levelRun th (xs @ [x])) = int (length (endRun (level1Term th) (xs @ [x])))"
    "st_streak2 (levelRun th (xs @ [x])) = int (length (endRun (level2Term th) (xs @ [x])))"
    unfolding x levelRun_snoc nextLevel_counts using snoc.IH by (simp_all add: countSample_def)
qed

definition runStart :: "(levelSample \<Rightarrow> bool) \<Rightarrow> (levelSample \<times> gotime) list \<Rightarrow> gotime" where
  "runStart P xs = (if endRun P xs = [] then 0 else snd (last (endRun P xs)))"

lemma runStart_snoc:
  "runStart P (xs @ [(s, now)]) = (if P s then (if endRun P xs = [] then now else runStart P xs) else 0)"
  by (simp add: runStart_def)

lemma runStart_zero:
  assumes "\<forall>(s, t) \<in> set xs. t \<noteq> 0"
  shows "runStart P xs = 0 \<longleftrightarrow> endRun P xs = []"
proof -
  have "snd (last (endRun P xs)) \<noteq> 0" if "endRun P xs \<noteq> []"
  proof -
    have "last (endRun P xs) \<in> set xs" using that by (metis last_in_set set_takeWhileD set_rev)
    then show ?thesis using assms by fastforce
  qed
  then show ?thesis by (auto simp: runStart_def)
qed

lemma clocks_start:
  assumes "\<forall>(s, t) \<in> set xs. t \<noteq> 0"
  shows "st_calmSince (levelRun th xs) = runStart (calmTerm th) xs
    \<and> st_l2ClearSince (levelRun th xs) = runStart (\<lambda>s. \<not> level2Term th s) xs"
  using assms
proof (induction xs rule: rev_induct)
  case Nil
  show ?case by (simp add: levelRun_def zeroLevel_def runStart_def)
next
  case (snoc x xs)
  obtain s now where x: "x = (s, now)" by fastforce
  have ok: "\<forall>(s, t) \<in> set xs. t \<noteq> 0" using snoc.prems by auto
  note z = runStart_zero [OF ok]
  show ?case
    unfolding x levelRun_snoc nextLevel_counts runStart_snoc
    using snoc.IH [OF ok] z [of "calmTerm th"] z [of "\<lambda>s. \<not> level2Term th s"]
    by (simp add: countSample_def)
qed

lemma endRun_suffix: "\<exists>ys. xs = ys @ rev (endRun P xs)"
  by (metis rev_append rev_rev_ident takeWhile_dropWhile_id)

lemma endRun_all: "z \<in> set (endRun P xs) \<Longrightarrow> P (fst z)"
  by (metis (mono_tags, lifting) set_takeWhileD)

lemma endRun_tail: "\<exists>ys zs. xs = ys @ zs \<and> length zs = length (endRun P xs) \<and> (\<forall>z \<in> set zs. P (fst z))"
  using endRun_suffix [of xs P] endRun_all [of _ P xs] by (metis length_rev set_rev)

text \<open>The level rises only when the last samples, enough of them, all had the term.\<close>

lemma level_rise:
  assumes "st_level (levelRun th (xs @ [(s, now)])) > st_level (levelRun th xs)"
  shows "\<exists>ys zs. xs @ [(s, now)] = ys @ zs \<and> int (length zs) \<ge> lt_enterSamples th
    \<and> (\<forall>z \<in> set zs. if st_level (levelRun th (xs @ [(s, now)])) = 2
          then level2Term th (fst z) else level1Term th (fst z))"
proof -
  let ?xs = "xs @ [(s, now)]"
  have wit: ?thesis if "int (length (endRun P ?xs)) \<ge> lt_enterSamples th"
      "\<And>s. P s \<Longrightarrow> if st_level (levelRun th ?xs) = 2 then level2Term th s else level1Term th s" for P
  proof -
    obtain ys zs where "?xs = ys @ zs" "length zs = length (endRun P ?xs)" "\<forall>z \<in> set zs. P (fst z)"
      using endRun_tail by blast
    then show ?thesis using that by (metis (no_types, lifting))
  qed
  have range: "st_level (levelRun th xs) \<ge> 0" using levelRun_range [of th xs] by auto
  note counts = nextLevel_counts [of "levelRun th xs" s now th, symmetric]
  show ?thesis
  proof (cases rule: nextLevel_level [of "levelRun th xs" s now th])
    case up2
    then show ?thesis using wit [of "level2Term th"] streaks_count(2) [of th ?xs]
      by (simp add: levelRun_snoc counts)
  next
    case up1
    then show ?thesis using wit [of "level1Term th"] streaks_count(1) [of th ?xs]
      by (simp add: levelRun_snoc counts)
  qed (use assms range in \<open>auto simp: levelRun_snoc\<close>)
qed

text \<open>
  The level falls by one, not before dwell, and only after a run of clear samples (without
  level-2 terms from 2, calm from 1) that began long enough ago.
\<close>

lemma level_fall:
  assumes "st_level (levelRun th (xs @ [(s, now)])) < st_level (levelRun th xs)"
    and "\<forall>(s, t) \<in> set (xs @ [(s, now)]). t \<noteq> 0"
  shows "st_level (levelRun th (xs @ [(s, now)])) = st_level (levelRun th xs) - 1
    \<and> time_Sub now (st_since (levelRun th xs)) \<ge> lt_dwell th
    \<and> (\<exists>ys z zs. xs @ [(s, now)] = ys @ z # zs
        \<and> (\<forall>y \<in> set (z # zs). if st_level (levelRun th xs) = 2 then \<not> level2Term th (fst y)
              else calmTerm th (fst y))
        \<and> time_Sub now (snd z) \<ge> (if st_level (levelRun th xs) = 2 then lt_shedExit th
              else lt_conserveExit th))"
proof -
  let ?xs = "xs @ [(s, now)]"
  have wit: "\<exists>ys z zs. ?xs = ys @ z # zs \<and> (\<forall>y \<in> set (z # zs). P (fst y)) \<and> snd z = runStart P ?xs"
    if "runStart P ?xs \<noteq> 0" for P
  proof -
    have ne: "endRun P ?xs \<noteq> []" using that unfolding runStart_def by metis
    then obtain z zs where z: "rev (endRun P ?xs) = z # zs" by (metis neq_Nil_conv rev_is_Nil_conv)
    obtain ys where "?xs = ys @ rev (endRun P ?xs)" using endRun_suffix by blast
    moreover have "snd z = runStart P ?xs"
      using ne z unfolding runStart_def by (metis hd_rev list.sel(1))
    moreover have "\<forall>y \<in> set (z # zs). P (fst y)" using endRun_all [of _ P ?xs] z
      by (metis set_rev)
    ultimately show ?thesis using z by metis
  qed
  have range: "st_level (levelRun th xs) \<in> {0, 1, 2}" by (rule levelRun_range)
  note counts = nextLevel_counts [of "levelRun th xs" s now th, symmetric]
  note clocks = clocks_start [OF assms(2), of th]
  show ?thesis
  proof (cases rule: nextLevel_level [of "levelRun th xs" s now th])
    case down1
    then show ?thesis using wit [of "\<lambda>s. \<not> level2Term th s"] clocks
      by (simp add: levelRun_snoc counts) metis
  next
    case down0
    then show ?thesis using wit [of "calmTerm th"] clocks
      by (simp add: levelRun_snoc counts) metis
  qed (use assms(1) range in \<open>auto simp: levelRun_snoc\<close>)
qed

section \<open>The registry\<close>

definition registry_ok :: "(real \<Rightarrow> real) \<Rightarrow> u64 \<Rightarrow> overloadController \<Rightarrow> bool" where
  "registry_ok rnd mem c =
     (oc_cfg c = (if oc_owners c = [] then None
                  else resolveOverloadConfig rnd (oo_cfg (last (oc_owners c))) mem)
      \<and> (oc_sampling c \<longleftrightarrow> oc_owners c \<noteq> [])
      \<and> (oc_cfg c = None \<longrightarrow> oc_level c = 0)
      \<and> distinct (map oo_id (oc_owners c)) \<and> (\<forall>x \<in> set (oc_owners c). oo_id x < oc_next c))"

lemma apply_frame [simp]:
  "oc_owners (applyOverloadConfig rnd mem cfg c) = oc_owners c"
  "oc_sampling (applyOverloadConfig rnd mem cfg c) = oc_sampling c"
  "oc_next (applyOverloadConfig rnd mem cfg c) = oc_next c"
  "oc_cfg (applyOverloadConfig rnd mem cfg c) = resolveOverloadConfig rnd cfg mem"
  by (simp_all add: applyOverloadConfig_def split: option.split)

lemma registry_init: "registry_ok rnd mem initController"
  by (simp add: registry_ok_def initController_def)

lemma registry_retain:
  assumes "registry_ok rnd mem c" and "overloadRetain rnd mem cfg c = (own, c')"
  shows "registry_ok rnd mem c' \<and> oc_owners c' = oc_owners c @ [own] \<and> oo_cfg own = cfg"
proof -
  have level: "resolveOverloadConfig rnd cfg mem = None \<Longrightarrow> oc_level (applyOverloadConfig rnd mem cfg x) = 0" for x
    by (simp add: applyOverloadConfig_def)
  show ?thesis using assms level
    by (fastforce simp: registry_ok_def overloadRetain_def Let_def split: if_splits)
qed

lemma ownerIndex_last:
  "own \<notin> set xs \<Longrightarrow> oo_id own \<notin> oo_id ` set xs \<Longrightarrow> ownerIndex (xs @ [own]) own = Some (length xs)"
  by (induction xs) auto

lemma ownerIndex_Some:
  "ownerIndex xs own = Some i \<Longrightarrow> i < length xs \<and> oo_id (xs ! i) = oo_id own"
  by (induction xs arbitrary: i) (auto split: if_splits)

lemma registry_release:
  assumes "registry_ok rnd mem c"
  shows "registry_ok rnd mem (overloadRelease rnd mem own c)"
proof (cases "ownerIndex (oc_owners c) own")
  case None
  then show ?thesis using assms by (simp add: overloadRelease_def)
next
  case (Some i)
  define rest where "rest = take i (oc_owners c) @ drop (Suc i) (oc_owners c)"
  have i: "i < length (oc_owners c)" using ownerIndex_Some [OF Some] by simp
  have sub: "set rest \<subseteq> set (oc_owners c)"
    unfolding rest_def by (auto dest: in_set_takeD in_set_dropD)
  have dist: "distinct (map oo_id rest)"
  proof -
    have "distinct (map oo_id (take i (oc_owners c) @ oc_owners c ! i # drop (Suc i) (oc_owners c)))"
      using assms i by (simp add: registry_ok_def id_take_nth_drop [symmetric])
    then show ?thesis by (auto simp: rest_def)
  qed
  have lst: "i \<noteq> length (oc_owners c) - 1 \<Longrightarrow> rest \<noteq> [] \<and> last rest = last (oc_owners c)"
    using i by (auto simp: rest_def last_append last_drop)
  have level: "resolveOverloadConfig rnd cfg mem = None \<Longrightarrow> oc_level (applyOverloadConfig rnd mem cfg x) = 0"
    for cfg x by (simp add: applyOverloadConfig_def)
  have rel: "overloadRelease rnd mem own c =
      (if rest \<noteq> []
       then (if i = length (oc_owners c) - 1
             then applyOverloadConfig rnd mem (oo_cfg (last rest)) (c\<lparr>oc_owners := rest\<rparr>)
             else c\<lparr>oc_owners := rest\<rparr>)
       else (applyOverloadConfig rnd mem None (c\<lparr>oc_owners := rest\<rparr>))\<lparr>oc_sampling := False\<rparr>)"
    by (simp add: overloadRelease_def Some rest_def Let_def)
  have ids: "\<forall>x \<in> set rest. oo_id x < oc_next c" using sub assms by (auto simp: registry_ok_def)
  have smp: "oc_sampling c" using assms i by (auto simp: registry_ok_def)
  consider "rest = []" | "rest \<noteq> []" "i = length (oc_owners c) - 1"
    | "rest \<noteq> []" "i \<noteq> length (oc_owners c) - 1" by blast
  then show ?thesis
  proof cases
    case 1
    have "resolveOverloadConfig rnd None mem = None" by (simp add: resolveOverloadConfig_def)
    then show ?thesis unfolding rel using 1 level by (simp add: registry_ok_def)
  next
    case 2
    then show ?thesis unfolding rel using level ids dist smp by (simp add: registry_ok_def)
  next
    case 3
    have "oc_owners c \<noteq> []" using i by auto
    then show ?thesis unfolding rel using 3 lst assms ids dist by (simp add: registry_ok_def)
  qed
qed

text \<open>A load that fails after its app started rolls back: the configuration before it returns.\<close>

lemma failed_load_rolls_back:
  assumes "registry_ok rnd mem c" and "overloadRetain rnd mem cfg c = (own, c')"
  shows "oc_owners (overloadRelease rnd mem own c') = oc_owners c
    \<and> oc_cfg (overloadRelease rnd mem own c') = oc_cfg c
    \<and> oc_sampling (overloadRelease rnd mem own c') = oc_sampling c"
proof -
  note ret = registry_retain [OF assms]
  then have own: "oc_owners c' = oc_owners c @ [own]" "registry_ok rnd mem c'" by simp_all
  then have fresh: "oo_id own \<notin> oo_id ` set (oc_owners c)" by (auto simp: registry_ok_def)
  then have idx: "ownerIndex (oc_owners c') own = Some (length (oc_owners c))"
    unfolding own by (intro ownerIndex_last) auto
  have "oc_owners (overloadRelease rnd mem own c') = oc_owners c"
    by (simp add: overloadRelease_def idx Let_def) (simp add: own)
  moreover have "registry_ok rnd mem (overloadRelease rnd mem own c')"
    using own(2) by (rule registry_release)
  ultimately show ?thesis using assms(1) by (simp add: registry_ok_def)
qed

end
