(* ===== verification/Free_Memory.thy ===== *)
theory Free_Memory
  imports Prelude
begin

text \<open>
  The debounced \<open>FreeOSMemory\<close> (free\_os\_memory.go).  A timer is armed, or it has fired and its
  callback has not taken the lock yet; \<open>Timer.Stop\<close> only disarms a timer that has not fired.
  Every critical section is one step, so the steps interleave as the goroutines do.
\<close>

section \<open>State and steps\<close>

text \<open>
  \<open>fm_timer\<close> is the timer of the package variable by its generation, \<open>fm_armed\<close> and
  \<open>fm_fired\<close> the generations of the timers in these states, \<open>fm_calls\<close> the calls made so far.
\<close>

record freeMem =
  fm_gen :: u64
  fm_timer :: "u64 option"
  fm_armed :: "u64 list"
  fm_fired :: "u64 list"
  fm_calls :: "u64 list"

definition initFreeMem :: freeMem where
  "initFreeMem = \<lparr>fm_gen = 0, fm_timer = None, fm_armed = [], fm_fired = [], fm_calls = []\<rparr>"

definition scheduleFreeOSMemory :: "freeMem \<Rightarrow> freeMem" where
  "scheduleFreeOSMemory s =
     (let armed = (case fm_timer s of None \<Rightarrow> fm_armed s | Some t \<Rightarrow> removeAll t (fm_armed s)); gen = fm_gen s + 1
      in s\<lparr>fm_gen := gen, fm_timer := Some gen, fm_armed := gen # armed\<rparr>)"

text \<open>The critical section of a callback, and the call that follows it when it is not stale.\<close>

definition freeCallback :: "u64 \<Rightarrow> freeMem \<Rightarrow> freeMem" where
  "freeCallback gen s =
     (let s1 = s\<lparr>fm_fired := remove1 gen (fm_fired s)\<rparr>; stale = (gen \<noteq> fm_gen s)
      in if stale then s1 else s1\<lparr>fm_timer := None, fm_calls := gen # fm_calls s1\<rparr>)"

inductive free_step :: "freeMem \<Rightarrow> freeMem \<Rightarrow> bool" where
  schedule: "free_step s (scheduleFreeOSMemory s)"
| fire: "g \<in> set (fm_armed s) \<Longrightarrow>
      free_step s (s\<lparr>fm_armed := remove1 g (fm_armed s), fm_fired := g # fm_fired s\<rparr>)"
| callback: "g \<in> set (fm_fired s) \<Longrightarrow> free_step s (freeCallback g s)"

text \<open>Runs, with the number of schedules.\<close>

inductive free_reach :: "nat \<Rightarrow> freeMem \<Rightarrow> bool" where
  start: "free_reach 0 initFreeMem"
| step: "free_reach n s \<Longrightarrow> free_step s s' \<Longrightarrow>
      free_reach (if fm_gen s' = fm_gen s then n else Suc n) s'"

section \<open>One call per generation, and only of the newest\<close>

definition free_inv :: "nat \<Rightarrow> freeMem \<Rightarrow> bool" where
  "free_inv n s \<longleftrightarrow>
     fm_gen s = of_nat n \<and> distinct (fm_armed s @ fm_fired s @ fm_calls s)
     \<and> (\<forall>g \<in> set (fm_armed s) \<union> set (fm_fired s) \<union> set (fm_calls s). 0 < unat g \<and> unat g \<le> n)
     \<and> set (fm_armed s) \<subseteq> {fm_gen s}
     \<and> (0 < n \<longrightarrow> fm_gen s \<in> set (fm_armed s) \<union> set (fm_fired s) \<union> set (fm_calls s))
     \<and> fm_timer s = (if n = 0 \<or> fm_gen s \<in> set (fm_calls s) then None else Some (fm_gen s))"

lemma free_inv_schedule:
  assumes inv: "free_inv n s" and "Suc n < 2 ^ 64"
  shows "free_inv (Suc n) (scheduleFreeOSMemory s)"
proof -
  define x :: u64 where "x = of_nat (Suc n)"
  have gen: "unat x = Suc n" unfolding x_def using assms(2) by (simp add: unat_of_nat del: of_nat_Suc)
  have new: "fm_gen s + 1 = x" using inv by (simp add: free_inv_def x_def)
  have bound: "\<forall>g \<in> set (fm_armed s) \<union> set (fm_fired s) \<union> set (fm_calls s). 0 < unat g \<and> unat g \<le> n"
    using inv unfolding free_inv_def by blast
  then have fresh: "x \<notin> set (fm_fired s)" "x \<notin> set (fm_calls s)" using gen by (metis Suc_n_not_le_n UnI1 UnI2)+
  have "(case fm_timer s of None \<Rightarrow> fm_armed s | Some t \<Rightarrow> removeAll t (fm_armed s)) = []"
  proof (cases "n = 0 \<or> fm_gen s \<in> set (fm_calls s)")
    case True
    then have "fm_armed s = []"
      using inv by (cases "fm_armed s") (auto simp: free_inv_def)
    with True inv show ?thesis by (simp add: free_inv_def)
  next
    case False
    with inv have "fm_timer s = Some (fm_gen s)" and "set (fm_armed s) \<subseteq> {fm_gen s}" by (auto simp: free_inv_def)
    then show ?thesis by (auto simp: removeAll_filter_not_eq filter_empty_conv)
  qed
  then have sch: "scheduleFreeOSMemory s = s\<lparr>fm_gen := x, fm_timer := Some x, fm_armed := [x]\<rparr>"
    unfolding scheduleFreeOSMemory_def Let_def new by simp
  have "distinct (fm_fired s @ fm_calls s)" using inv by (simp add: free_inv_def)
  with bound gen fresh show ?thesis unfolding sch free_inv_def x_def [symmetric] by (auto simp: le_SucI)
qed

lemma free_inv_step:
  assumes "free_inv n s" and "free_step s s'" and "Suc n < 2 ^ 64"
  shows "free_inv (if fm_gen s' = fm_gen s then n else Suc n) s'"
  using assms(2)
proof cases
  case schedule
  have "fm_gen s' \<noteq> fm_gen s" by (simp add: schedule scheduleFreeOSMemory_def Let_def)
  with free_inv_schedule [OF assms(1,3)] schedule show ?thesis by simp
next
  case (fire g)
  then show ?thesis using assms(1) by (auto simp: free_inv_def)
next
  case (callback g)
  then have "fm_gen s' = fm_gen s" by (simp add: freeCallback_def Let_def)
  moreover have "0 < n" using assms(1) callback(2) by (auto simp: free_inv_def)
  ultimately show ?thesis using assms(1) callback
    by (auto simp: free_inv_def freeCallback_def Let_def)
qed

lemma free_reach_inv: "free_reach n s \<Longrightarrow> n < 2 ^ 64 - 1 \<Longrightarrow> free_inv n s"
proof (induction rule: free_reach.induct)
  case start
  then show ?case by (simp add: free_inv_def initFreeMem_def)
next
  case (step n s s')
  then have "n < 2 ^ 64 - 1" by (auto split: if_splits)
  with step free_inv_step [of n s s'] show ?case by auto
qed

text \<open>While nothing is scheduled, the pending timer can always get to its call.\<close>

lemma free_progress:
  assumes "free_inv n s" and "0 < n" and "fm_gen s \<notin> set (fm_calls s)"
  shows "\<exists>s1 s2. (s1 = s \<or> free_step s s1) \<and> free_step s1 s2 \<and> fm_gen s2 = fm_gen s
    \<and> fm_calls s2 = fm_gen s # fm_calls s \<and> fm_timer s2 = None"
proof (cases "fm_gen s \<in> set (fm_fired s)")
  case True
  then show ?thesis using free_step.callback [OF True]
    by (intro exI [of _ s] exI [of _ "freeCallback (fm_gen s) s"]) (simp add: freeCallback_def Let_def)
next
  case False
  with assms have armed: "fm_gen s \<in> set (fm_armed s)" by (auto simp: free_inv_def)
  define s1 where "s1 = s\<lparr>fm_armed := remove1 (fm_gen s) (fm_armed s), fm_fired := fm_gen s # fm_fired s\<rparr>"
  have "free_step s s1" unfolding s1_def by (rule free_step.fire [OF armed])
  moreover have "free_step s1 (freeCallback (fm_gen s) s1)" by (rule free_step.callback) (simp add: s1_def)
  ultimately show ?thesis
    by (intro exI [of _ s1] exI [of _ "freeCallback (fm_gen s) s1"]) (simp add: freeCallback_def Let_def s1_def)
qed

end
