(* ===== verification/Lifecycle.thy ===== *)
theory Lifecycle
  imports App_Interface Batch_Props Overload_Props Free_Memory
begin

text \<open>
  The life of an app generation (app.go): what \<open>Provision\<close> checks and builds, \<open>Start\<close>, \<open>Stop\<close>
  and \<open>Cleanup\<close> with the process-wide state that generations share (the published app of the
  audit writer, the overload owners, the memory timer), and the rate limit of the overflow logs.
  The flush loop, the shipper and the deliverer that \<open>Start\<close> and \<open>Stop\<close> launch and end are
  modelled in their own theories.
\<close>

section \<open>Provision\<close>

record statsConfig =
  sc_Ingest :: "IngestConfig option"
  sc_ProxyServerID :: u32
  sc_HashSalt :: string
  sc_MachineID :: string
  sc_Overload :: "OverloadConfig option"

datatype provisionError =
    NoIngest | NoURL | NoProxyServerID | BadOverload overloadError | EmptySecret string

text \<open>The secret: the token of the configuration, or the value of an environment variable.\<close>

definition resolveSecret :: "(string \<Rightarrow> string) \<Rightarrow> IngestConfig \<Rightarrow> provisionError + string" where
  "resolveSecret getenv ing =
     (if ic_AuthToken ing \<noteq> [] then Inr (ic_AuthToken ing)
      else
        let envVar = (if ic_AuthEnvVar ing = [] then ''APX_INTERNAL_KEY'' else ic_AuthEnvVar ing); secret = getenv envVar
        in if secret = [] then Inl (EmptySecret envVar) else Inr secret)"

definition requestEventsOf :: "IngestConfig \<Rightarrow> requestEventRecorder option \<times> bool" where
  "requestEventsOf ing =
     (case ic_RequestEvents ing of
        None \<Rightarrow> (None, False)
      | Some re \<Rightarrow>
          if \<not> rc_Enabled re then (None, False)
          else if rc_ModeV2 re
          then (Some (newRequestEventRecorderV2 (intDefault (rc_MaxRows re) 200000)
                  (intDefault (rc_BlockedSampleThreshold re) 2000)), True)
          else (Some (newRequestEventRecorder (intDefault (rc_MaxRows re) 200000) (rc_SampleThreshold re)), False))"

definition initL4IpState :: "'t \<Rightarrow> 't l4IpTrack" where
  "initL4IpState sketch =
     \<lparr>l4IpTopk = Some sketch, l4IpSampled = [], l4IpPrefix = [], l4IpSni = [], l4IpSniPerIp = []\<rparr>"

text \<open>
  What \<open>Provision\<close> leaves in the app: the buffers, the secret, the salt and the mode.  \<open>ram\<close> and
  \<open>rss\<close> are the readings of the machine, \<open>health\<close> the process-wide part of domain health, and
  \<open>sketch\<close> a new top-k sketch.
\<close>

record 't provisioned =
  pv_app :: "'t statsApp"
  pv_secret :: string
  pv_hashSalt :: string
  pv_modeV2 :: bool
  pv_timeout :: duration

definition freshHealth :: "memGovernor \<Rightarrow> healthState \<Rightarrow> healthState" where
  "freshHealth gov h =
     h\<lparr>healthShards := replicate shardCount [], domainHealthKeys := 0, domainHealthRetired := False, memGov := Some gov\<rparr>"

definition provision ::
    "(real \<Rightarrow> real) \<Rightarrow> (string \<Rightarrow> string) \<Rightarrow> (string \<Rightarrow> string) \<Rightarrow> u64 \<times> bool \<Rightarrow> (u64 \<times> bool) option \<Rightarrow> 't \<Rightarrow> healthState
     \<Rightarrow> statsConfig \<Rightarrow> provisionError + 't provisioned" where
  "provision rnd getenv replaceAll ram rss sketch health c =
     (case sc_Ingest c of
        None \<Rightarrow> Inl NoIngest
      | Some ing \<Rightarrow>
          if ic_URL ing = [] then Inl NoURL
          else if sc_ProxyServerID c = 0 then Inl NoProxyServerID
          else case Validate (sc_Overload c) of
            Some e \<Rightarrow> Inl (BadOverload e)
          | None \<Rightarrow>
              (case resolveSecret getenv ing of
                 Inl e \<Rightarrow> Inl e
               | Inr secret \<Rightarrow>
                   let gov = newMemGovernor rnd (clampTotalRAM (fst ram) (snd ram)) rss;
                       (recorder, modeV2) = requestEventsOf ing
                   in Inr \<lparr>pv_app =
                        \<lparr>app_cfg = resolveIngest ing, app_ps = sc_ProxyServerID c,
                         app_machineID = resolveMachineID replaceAll (sc_MachineID c), app_http = newHttpState,
                         app_sni = \<lparr>l4SniMap = [], l4SniOverflow = 0\<rparr>, app_ip = initL4IpState sketch,
                         app_fp = \<lparr>fpMap = [], fpIpMap = [], fpOverflow = 0, fpIpOverflow = 0\<rparr>,
                         app_coraza = \<lparr>corazaEvents = [], corazaOverflow = 0, corazaReservedBytes = 0\<rparr>,
                         app_block = \<lparr>l4Blocks = [], l4BlockOverflow = 0, l4BlockReputationOverflow = 0\<rparr>,
                         app_challenge = \<lparr>challengeMap = Some [], challengeOverflow = 0\<rparr>,
                         app_edgeVerify = \<lparr>edgeVerifyMap = Some [], edgeVerifyOverflow = 0\<rparr>,
                         app_health = freshHealth gov health, app_reqEvents = recorder,
                         app_nodeStates = \<lparr>ns_cur = None, ns_base = [], ns_ready = []\<rparr>, app_dropped = 0\<rparr>,
                        pv_secret = secret, pv_hashSalt = sc_HashSalt c, pv_modeV2 = modeV2,
                        pv_timeout = durationMs (ic_TimeoutMs ing) 10000\<rparr>))"

section \<open>Start, Stop and Cleanup\<close>

text \<open>What the lifecycle keeps of one generation, and what the process keeps of all of them.\<close>

record generation =
  ge_started :: bool
  ge_stopped :: bool
  ge_owner :: "overloadOwner option"
  ge_httpRetired :: bool

record process =
  pr_corazaApp :: "nat option"
  pr_overload :: overloadController
  pr_freeMem :: freeMem
  pr_gens :: "nat \<Rightarrow> generation"

definition newGeneration :: generation where
  "newGeneration = \<lparr>ge_started = False, ge_stopped = False, ge_owner = None, ge_httpRetired = False\<rparr>"

text \<open>The last step of a successful \<open>Provision\<close>: \<open>corazaApp.Store(a)\<close>.\<close>

definition publishApp :: "nat \<Rightarrow> process \<Rightarrow> process" where
  "publishApp i p = p\<lparr>pr_corazaApp := Some i, pr_gens := (pr_gens p)(i := newGeneration)\<rparr>"

definition startApp ::
    "(real \<Rightarrow> real) \<Rightarrow> u64 \<Rightarrow> OverloadConfig option \<Rightarrow> nat \<Rightarrow> process \<Rightarrow> process" where
  "startApp rnd mem cfg i p =
     (case overloadRetain rnd mem cfg (pr_overload p) of (own, c) \<Rightarrow>
        p\<lparr>pr_overload := c, pr_gens := (pr_gens p)(i := (pr_gens p i)\<lparr>ge_started := True, ge_owner := Some own\<rparr>)\<rparr>)"

text \<open>The body of \<open>stopOnce\<close>.\<close>

definition stopOnce :: "(real \<Rightarrow> real) \<Rightarrow> u64 \<Rightarrow> nat \<Rightarrow> process \<Rightarrow> process" where
  "stopOnce rnd mem i p =
     (if ge_stopped (pr_gens p i) then p
      else p\<lparr>pr_overload := (case ge_owner (pr_gens p i) of
                               None \<Rightarrow> pr_overload p | Some own \<Rightarrow> overloadRelease rnd mem own (pr_overload p)),
             pr_freeMem := scheduleFreeOSMemory (pr_freeMem p),
             pr_gens := (pr_gens p)(i := (pr_gens p i)\<lparr>ge_stopped := True\<rparr>)\<rparr>)"

definition stopApp :: "(real \<Rightarrow> real) \<Rightarrow> u64 \<Rightarrow> nat \<Rightarrow> process \<Rightarrow> process" where
  "stopApp rnd mem i p =
     (let p1 = p\<lparr>pr_corazaApp := (if pr_corazaApp p = Some i then None else pr_corazaApp p)\<rparr>;
          p2 = stopOnce rnd mem i p1
      in p2\<lparr>pr_gens := (pr_gens p2)(i := (pr_gens p2 i)\<lparr>ge_httpRetired := True\<rparr>)\<rparr>)"

definition cleanupApp :: "nat \<Rightarrow> process \<Rightarrow> healthState \<Rightarrow> healthState" where
  "cleanupApp i p h = (if \<not> ge_started (pr_gens p i) then retireDomainHealth h else h)"

section \<open>The overflow logs\<close>

text \<open>Whether a line is written, and the time of the last one; both rate limits are alike.\<close>

definition maybeLogOverflow :: "gotime \<Rightarrow> gotime \<Rightarrow> bool \<times> gotime" where
  "maybeLogOverflow now loggedAt =
     (if \<not> IsZero loggedAt \<and> time_Sub now loggedAt < Minute then (False, loggedAt) else (True, now))"

definition maybeLogL4IpOverflow :: "gotime \<Rightarrow> gotime \<Rightarrow> bool \<times> gotime" where
  "maybeLogL4IpOverflow now loggedAt =
     (if \<not> IsZero loggedAt \<and> time_Sub now loggedAt < Minute then (False, loggedAt) else (True, now))"

section \<open>A provisioned app\<close>

lemma newHttpState_uniques_ok: "all_uniques_ok cfg newHttpState"
  by (simp add: all_uniques_ok_def uniques_ok_def newHttpState_def emptyShard_def)

lemma newHttpState_total: "requestTotal newHttpState + overflow newHttpState = 0"
  by (simp add: requestTotal_def newHttpState_def emptyShard_def sum_list_replicate)

lemma provision_Inr:
  assumes "provision rnd getenv replaceAll ram rss sketch health c = Inr pv"
  obtains ing where "sc_Ingest c = Some ing" "ic_URL ing \<noteq> []" "sc_ProxyServerID c \<noteq> 0"
    "Validate (sc_Overload c) = None" "resolveSecret getenv ing = Inr (pv_secret pv)"
    "app_cfg (pv_app pv) = resolveIngest ing" "app_http (pv_app pv) = newHttpState"
    "app_ip (pv_app pv) = initL4IpState sketch" "app_ps (pv_app pv) = sc_ProxyServerID c"
    "app_health (pv_app pv) = freshHealth (newMemGovernor rnd (clampTotalRAM (fst ram) (snd ram)) rss) health"
    "app_reqEvents (pv_app pv) = fst (requestEventsOf ing)" "pv_modeV2 pv = snd (requestEventsOf ing)"
  using assms by (auto simp: provision_def Let_def split: option.splits if_splits sum.splits prod.splits)

lemma resolveSecret_nonempty: "resolveSecret getenv ing = Inr secret \<Longrightarrow> secret \<noteq> []"
  by (auto simp: resolveSecret_def Let_def split: if_splits)

text \<open>The invariants of every component hold in a provisioned app.\<close>

lemma provision_ok:
  assumes "provision rnd getenv replaceAll ram rss sketch health c = Inr pv"
  shows "app_parts_ok (pv_app pv) \<and> app_inv (pv_app pv) \<and> app_counted (pv_app pv) = 0"
  using assms
proof (rule provision_Inr)
  fix ing
  assume "app_http (pv_app pv) = newHttpState" "app_ip (pv_app pv) = initL4IpState sketch"
    "app_health (pv_app pv) = freshHealth (newMemGovernor rnd (clampTotalRAM (fst ram) (snd ram)) rss) health"
  then show ?thesis
    by (simp add: app_parts_ok_def app_inv_def app_counted_def newHttpState_ok newHttpState_uniques_ok
        newHttpState_total ipKeys_ok_def initL4IpState_def health_parts_def freshHealth_def shardCount_def)
qed

section \<open>Reloads\<close>

text \<open>The new generation is provisioned and started before the old one stops.\<close>

definition reloadApp ::
    "(real \<Rightarrow> real) \<Rightarrow> u64 \<Rightarrow> OverloadConfig option \<Rightarrow> nat \<Rightarrow> nat \<Rightarrow> process \<Rightarrow> process" where
  "reloadApp rnd mem cfg old new p = stopApp rnd mem old (startApp rnd mem cfg new (publishApp new p))"

lemma ownerIndex_snoc: "ownerIndex xs own = Some i \<Longrightarrow> ownerIndex (xs @ ys) own = Some i"
  by (induction xs arbitrary: i) auto

lemma ownerIndex_mem: "own \<in> set xs \<Longrightarrow> \<exists>i. ownerIndex xs own = Some i"
  by (induction xs) auto

lemma release_older:
  assumes "registry_ok rnd mem c" and "oc_owners c = xs @ [newest]" and "ownerIndex xs own = Some i"
  shows "registry_ok rnd mem (overloadRelease rnd mem own c)
    \<and> oc_owners (overloadRelease rnd mem own c) = take i xs @ drop (Suc i) xs @ [newest]
    \<and> oc_cfg (overloadRelease rnd mem own c) = resolveOverloadConfig rnd (oo_cfg newest) mem"
proof -
  have i: "i < length xs" using ownerIndex_Some [OF assms(3)] by simp
  have idx: "ownerIndex (oc_owners c) own = Some i" using ownerIndex_snoc [OF assms(3)] by (simp add: assms(2))
  have owners: "oc_owners (overloadRelease rnd mem own c) = take i xs @ drop (Suc i) xs @ [newest]"
    using i unfolding overloadRelease_def idx by (simp add: assms(2) Let_def)
  note ok = registry_release [OF assms(1), of own]
  then have "oc_cfg (overloadRelease rnd mem own c) = resolveOverloadConfig rnd (oo_cfg newest) mem"
    by (simp add: registry_ok_def owners)
  with ok owners show ?thesis by blast
qed

theorem reload_outcome:
  assumes "registry_ok rnd mem (pr_overload p)" and "old \<noteq> new"
    and "ge_owner (pr_gens p old) = Some own" and "own \<in> set (oc_owners (pr_overload p))"
    and "\<not> ge_stopped (pr_gens p old)"
  shows "let p' = reloadApp rnd mem cfg old new p
    in pr_corazaApp p' = Some new \<and> registry_ok rnd mem (pr_overload p')
       \<and> oc_cfg (pr_overload p') = resolveOverloadConfig rnd cfg mem
       \<and> ge_started (pr_gens p' new) \<and> \<not> ge_stopped (pr_gens p' new)
       \<and> ge_stopped (pr_gens p' old) \<and> ge_httpRetired (pr_gens p' old)
       \<and> fm_gen (pr_freeMem p') = fm_gen (pr_freeMem p) + 1"
proof -
  obtain newest c where ret: "overloadRetain rnd mem cfg (pr_overload p) = (newest, c)"
    by (cases "overloadRetain rnd mem cfg (pr_overload p)")
  note c = registry_retain [OF assms(1) ret]
  obtain i where "ownerIndex (oc_owners (pr_overload p)) own = Some i" using ownerIndex_mem [OF assms(4)] by blast
  with c release_older [of rnd mem c "oc_owners (pr_overload p)" newest own i] have
    "registry_ok rnd mem (overloadRelease rnd mem own c)"
    "oc_cfg (overloadRelease rnd mem own c) = resolveOverloadConfig rnd cfg mem" by auto
  with ret assms(2,3,5) show ?thesis
    by (simp add: reloadApp_def publishApp_def startApp_def stopApp_def stopOnce_def newGeneration_def
        scheduleFreeOSMemory_def Let_def)
qed

text \<open>A second \<open>Stop\<close> changes nothing, and a failed start gives its health back.\<close>

lemma stopApp_twice: "stopApp rnd mem i (stopApp rnd mem i p) = stopApp rnd mem i p"
  by (simp add: stopApp_def stopOnce_def Let_def)

section \<open>Log lines are a minute apart\<close>

fun logLines :: "gotime \<Rightarrow> gotime list \<Rightarrow> gotime list" where
  "logLines loggedAt [] = []"
| "logLines loggedAt (now # ts) =
     (case maybeLogOverflow now loggedAt of
        (True, t) \<Rightarrow> now # logLines t ts
      | (False, t) \<Rightarrow> logLines t ts)"

lemma logLines_spaced:
  "0 \<notin> set ts \<Longrightarrow>
   successively (\<lambda>t u. Minute \<le> time_Sub u t) (if loggedAt = 0 then logLines loggedAt ts else loggedAt # logLines loggedAt ts)"
proof (induction ts arbitrary: loggedAt)
  case Nil
  then show ?case by simp
next
  case (Cons now ts)
  then have "now \<noteq> 0" by simp
  with Cons.IH [of now] Cons.IH [of loggedAt] Cons.prems show ?case
    by (auto simp: maybeLogOverflow_def not_less successively_Cons)
qed

end
