(* ===== verification/End_To_End.thy ===== *)
theory End_To_End
  imports Lifecycle
begin

text \<open>
  From the handler to the wire: the counter rows that a flush ships report exactly the requests
  that the handler served since \<open>Provision\<close>, apart from those counted as overflow.
\<close>

section \<open>Serving keeps what a flush relies on\<close>

lemma health_parts_cong: "healthShards b = healthShards a \<Longrightarrow> health_parts b = health_parts a"
  by (simp add: health_parts_def)

lemma putHealth_parts:
  assumes "health_parts hs"
  shows "health_parts (putHealth key c hs)"
  unfolding health_parts_def
proof (intro conjI allI impI)
  let ?i = "healthShard key"
  have sh: "healthShards (putHealth key c hs) = (healthShards hs)[?i := mput key c (healthShards hs ! ?i)]"
    by (simp add: putHealth_def Let_def)
  show "length (healthShards (putHealth key c hs)) = 16" using assms by (simp add: sh health_parts_def)
  fix i :: nat
  assume i: "i < 16"
  with assms have ok: "length (healthShards hs) = 16" "distinct_keys (healthShards hs ! i)"
    "\<forall>k \<in> keys (healthShards hs ! i). healthShard k = i" by (simp_all add: health_parts_def)
  have upd: "healthShards (putHealth key c hs) ! i
      = (if i = ?i then mput key c (healthShards hs ! i) else healthShards hs ! i)"
    using ok(1) i unfolding sh by (metis nth_list_update_eq nth_list_update_neq)
  show "distinct_keys (healthShards (putHealth key c hs) ! i)" 
    unfolding upd using distinct_mput [OF ok(2), of key c] ok(2)
    by (cases "i = ?i") (simp_all only: if_True if_False simp_thms)
  show "\<forall>k \<in> keys (healthShards (putHealth key c hs) ! i). healthShard k = i"
  proof
    fix k
    assume "k \<in> keys (healthShards (putHealth key c hs) ! i)"
    then have "k \<in> keys (healthShards hs ! i) \<or> k = key \<and> i = ?i" unfolding upd by (auto split: if_splits)
    with ok(3) show "healthShard k = i" by blast
  qed
qed

lemma admit_shards:
  assumes "admitHealthKey cfg hs = (ok, hs')"
  shows "healthShards hs' = healthShards hs"
proof -
  have r: "healthShards x = healthShards y" if "reserveDomainHealthKey cfg y = (b, x)" for b x y
    using that by (auto simp: reserveDomainHealthKey_def Let_def split: if_splits)
  have c: "healthShards x = healthShards y" if "reserveDomainHealthCredit y = (b, x)" for b x y
    using that by (auto simp: reserveDomainHealthCredit_def Let_def split: if_splits)
  have g: "healthShards x = healthShards y" if "reserveHealthBytes y = (b, x)" for b x y
    using that by (auto simp: reserveHealthBytes_def Let_def split: option.splits prod.splits if_splits)
  show ?thesis using assms
    by (auto simp: admitHealthKey_def countDomainHealthDrop_def split: prod.splits bool.splits dest!: r c g)
qed

lemma RecordDomainHealth_parts:
  assumes "health_parts hs"
  shows "health_parts (RecordDomainHealth cfg key delta hs)"
proof -
  obtain ok hs' where ad: "admitHealthKey cfg hs = (ok, hs')" by fastforce
  from health_parts_cong [OF admit_shards [OF this]] assms have parts: "health_parts hs'" by simp
  have drop: "health_parts (countDomainHealthDrop reason n hs)" for reason n
    using assms health_parts_cong [of "countDomainHealthDrop reason n hs" hs] by (simp add: countDomainHealthDrop_def)
  show ?thesis
    using assms parts drop putHealth_parts [OF assms] putHealth_parts [OF parts]
    unfolding RecordDomainHealth_def ad by (cases ok) (simp_all split: option.split)
qed

lemma parts_split: "app_parts_ok a \<longleftrightarrow> app_inv a \<and> ipKeys_ok (app_ip a) \<and> health_parts (app_health a)"
  by (auto simp: app_parts_ok_def app_inv_def)

interpretation shipping_app: counting_app "statsAppRef rnd salt machineID modeV2 telemetry evidenceV2" app_parts_ok app_counted
proof
  fix a :: "'a statsApp" and k d
  assume "app_parts_ok a"
  with stats_app.record_counts [of a rnd salt machineID modeV2 telemetry evidenceV2 k d]
  show "app_parts_ok (ar_Record (statsAppRef rnd salt machineID modeV2 telemetry evidenceV2) k d a)
    \<and> app_counted (ar_Record (statsAppRef rnd salt machineID modeV2 telemetry evidenceV2) k d a) = app_counted a + 1"
    by (simp add: parts_split statsAppRef_def)
next
  fix a :: "'a statsApp" and t v h
  assume "app_parts_ok a"
  with stats_app.unique_keeps [of a rnd salt machineID modeV2 telemetry evidenceV2 t v h]
  show "app_parts_ok (ar_RecordUnique (statsAppRef rnd salt machineID modeV2 telemetry evidenceV2) t v h a)
    \<and> app_counted (ar_RecordUnique (statsAppRef rnd salt machineID modeV2 telemetry evidenceV2) t v h a) = app_counted a"
    by (simp add: parts_split statsAppRef_def)
next
  fix a :: "'a statsApp" and row
  assume "app_parts_ok a"
  with stats_app.event_keeps [of a rnd salt machineID modeV2 telemetry evidenceV2 row]
  show "app_parts_ok (ar_RecordRequestEvent (statsAppRef rnd salt machineID modeV2 telemetry evidenceV2) row a)
    \<and> app_counted (ar_RecordRequestEvent (statsAppRef rnd salt machineID modeV2 telemetry evidenceV2) row a) = app_counted a"
    using health_parts_cong [of "(app_health a)\<lparr>memGov := gov\<rparr>" "app_health a" for gov]
    by (simp add: parts_split statsAppRef_def setGov_def split: prod.splits)
next
  fix a :: "'a statsApp" and hk delta and f :: "domainHealthKey \<Rightarrow> domainHealthCounter \<Rightarrow> 'a statsApp \<Rightarrow> 'a statsApp"
  assume "app_parts_ok a" and "ar_RecordDomainHealth (statsAppRef rnd salt machineID modeV2 telemetry evidenceV2) = Some f"
  with stats_app.health_keeps [of a rnd salt machineID modeV2 telemetry evidenceV2 f hk delta] RecordDomainHealth_parts
  show "app_parts_ok (f hk delta a) \<and> app_counted (f hk delta a) = app_counted a"
    by (auto simp: parts_split statsAppRef_def)
qed (simp_all add: statsAppRef_def parts_split app_inv_def app_counted_def finishRecord_def)

section \<open>What a flush reports\<close>

text \<open>The requests that a row of a batch reports: only counter rows report any.\<close>

definition shippedRequests :: "jfields \<Rightarrow> u64" where
  "shippedRequests row =
     (if map_of row ''_type'' = Some (jstr ''counter'')
      then (case map_of row ''request_count'' of Some (JS (JNum n)) \<Rightarrow> of_int n | _ \<Rightarrow> 0)
      else 0)"

definition otherKinds :: "string list" where
  "otherKinds =
     [''uniques'', ''l4_sni'', ''l4_ip_topk'', ''l4_ip_uniques_raw'', ''l4_ip_prefix'', ''l4_ip_sni'', ''l4_fingerprint'',
      ''l4_fingerprint_ip'', ''coraza_detection'', ''challenge_attempt'', ''edge_verify_attempt'', ''request_event'',
      ''l4_block'', ''node_state'', ''domain_health'']"

lemma kinds_clean: "sanitize ''counter'' = ''counter''" "list_all (\<lambda>kind. sanitize kind \<noteq> ''counter'') otherKinds"
  by code_simp+

lemma shipped_other:
  assumes "row = (''_type'', jstr kind) # rest" and "kind \<in> set otherKinds"
  shows "shippedRequests (cleanFields row) = 0"
proof -
  have "sanitize kind \<noteq> ''counter''" using assms(2) kinds_clean(2) by (simp add: list_all_iff)
  with assms(1) show ?thesis by (simp add: shippedRequests_def)
qed

lemma shipped_counter: "shippedRequests (cleanFields (counterFields ps k c)) = c_RequestCount c"
  by (simp add: shippedRequests_def counterFields_def kinds_clean(1))

lemma sum_list_zeros: "(\<And>x. x \<in> set xs \<Longrightarrow> f x = 0) \<Longrightarrow> sum_list (map f xs) = (0 :: u64)"
  by (induction xs) auto

lemma shipped_none: "(\<And>row. row \<in> set rows \<Longrightarrow> shippedRequests (cleanFields row) = 0) \<Longrightarrow>
    sum_list (map (shippedRequests \<circ> cleanFields) rows) = 0"
  by (rule sum_list_zeros) simp

text \<open>Every row that is not a counter row begins with another type.\<close>

lemmas row_fields = uniquesFields_def sniFields_def topkFields_def uniquesRawFields_def prefixFields_def ipSniFields_def
  fingerprintFields_def fingerprintIpFields_def corazaFields_def challengeFields_def edgeVerifyFields_def
  requestEventFields_def blockFields_def nodeStateFields_def domainHealthFields_def

lemma kind_heads:
  "hd (uniquesFields ps uk hs) = (''_type'', jstr ''uniques'')"
  "hd (sniFields ps sk n) = (''_type'', jstr ''l4_sni'')"
  "hd (topkFields ps ts ip n) = (''_type'', jstr ''l4_ip_topk'')"
  "hd (uniquesRawFields ps ts ip) = (''_type'', jstr ''l4_ip_uniques_raw'')"
  "hd (prefixFields ps ts pfx len n) = (''_type'', jstr ''l4_ip_prefix'')"
  "hd (ipSniFields ps ts ip sni outcome n) = (''_type'', jstr ''l4_ip_sni'')"
  "hd (fingerprintFields ps ts ja3 ja4 outcome n) = (''_type'', jstr ''l4_fingerprint'')"
  "hd (fingerprintIpFields ps ts ja4 ip n) = (''_type'', jstr ''l4_fingerprint_ip'')"
  "hd (corazaFields ev ps) = (''_type'', jstr ''coraza_detection'')"
  "hd (challengeFields ps ts ck n) = (''_type'', jstr ''challenge_attempt'')"
  "hd (edgeVerifyFields ps ts ek n) = (''_type'', jstr ''edge_verify_attempt'')"
  "hd (requestEventFields ps re) = (''_type'', jstr ''request_event'')"
  "hd (blockFields ps bk n) = (''_type'', jstr ''l4_block'')"
  "hd (nodeStateFields ps mid nm) = (''_type'', jstr ''node_state'')"
  "hd (domainHealthFields ps dk dc) = (''_type'', jstr ''domain_health'')"
  by (simp_all add: row_fields)

lemma row_nonempty:
  "uniquesFields ps uk hs \<noteq> []" "sniFields ps sk n \<noteq> []" "topkFields ps ts ip n \<noteq> []" "uniquesRawFields ps ts ip \<noteq> []"
  "prefixFields ps ts pfx len n \<noteq> []" "ipSniFields ps ts ip sni outcome n \<noteq> []"
  "fingerprintFields ps ts ja3 ja4 outcome n \<noteq> []" "fingerprintIpFields ps ts ja4 ip n \<noteq> []" "corazaFields ev ps \<noteq> []"
  "challengeFields ps ts ck n \<noteq> []" "edgeVerifyFields ps ts ek n \<noteq> []" "requestEventFields ps re \<noteq> []"
  "blockFields ps bk n \<noteq> []" "nodeStateFields ps mid nm \<noteq> []" "domainHealthFields ps dk dc \<noteq> []"
  by (simp_all add: row_fields)

lemma shipped_hd:
  assumes "row \<noteq> []" and "hd row = (''_type'', jstr kind)" and "kind \<in> set otherKinds"
  shows "shippedRequests (cleanFields row) = 0"
  using assms by (intro shipped_other [of row kind "tl row"]) (cases row, simp_all)

lemma shipped_rows:
  "shippedRequests (cleanFields (uniquesFields ps uk hs)) = 0"
  "shippedRequests (cleanFields (sniFields ps sk n)) = 0"
  "shippedRequests (cleanFields (topkFields ps ts ip n)) = 0"
  "shippedRequests (cleanFields (uniquesRawFields ps ts ip)) = 0"
  "shippedRequests (cleanFields (prefixFields ps ts pfx len n)) = 0"
  "shippedRequests (cleanFields (ipSniFields ps ts ip sni outcome n)) = 0"
  "shippedRequests (cleanFields (fingerprintFields ps ts ja3 ja4 outcome n)) = 0"
  "shippedRequests (cleanFields (fingerprintIpFields ps ts ja4 ip n)) = 0"
  "shippedRequests (cleanFields (corazaFields ev ps)) = 0"
  "shippedRequests (cleanFields (challengeFields ps ts ck n)) = 0"
  "shippedRequests (cleanFields (edgeVerifyFields ps ts ek n)) = 0"
  "shippedRequests (cleanFields (requestEventFields ps re)) = 0"
  "shippedRequests (cleanFields (blockFields ps bk n)) = 0"
  "shippedRequests (cleanFields (nodeStateFields ps mid nm)) = 0"
  "shippedRequests (cleanFields (domainHealthFields ps dk dc)) = 0"
  by (rule shipped_hd, rule row_nonempty, rule kind_heads, simp add: otherKinds_def)+

lemma trackFields_shipped:
  "sum_list (map (shippedRequests \<circ> cleanFields) (trackFields machineID ps ts b)) = weigh c_RequestCount (br_snap b)"
proof -
  have "sum_list (map (shippedRequests \<circ> cleanFields) (map (\<lambda>(k, c). counterFields ps k c) snap))
      = weigh c_RequestCount snap" for snap
    by (induction snap) (auto simp: shipped_counter simp del: map_map)
  moreover have "sum_list (map (shippedRequests \<circ> cleanFields) rows) = 0"
    if "trackFields machineID ps ts b = map (\<lambda>(k, c). counterFields ps k c) (br_snap b) @ rows" for rows
  proof (rule shipped_none)
    fix row
    assume "row \<in> set rows"
    with that show "shippedRequests (cleanFields row) = 0"
      unfolding trackFields_def
      by (auto simp: shipped_rows uniquesRows_def prefixRows_def ipSniRows_def split: if_splits option.splits)
  qed
  ultimately show ?thesis by (simp add: trackFields_def)
qed

text \<open>The counter rows of an accepted flush report the requests that were in the shards.\<close>

theorem flush_reports:
  assumes "app_parts_ok a" and "drainAndEncode srt rst ret retW encodeOk httpOnly ts a = (Some (body, n, health), a')"
  shows "\<exists>rows. readBatch body = Some rows \<and> n = int (length rows)
    \<and> sum_list (map shippedRequests rows) = requestTotal (app_http a)"
proof -
  from drainAndEncode_exact [OF assms] obtain b hs where
    rd: "readBatch body = Some (map cleanFields (trackFields (app_machineID a) (app_ps a) ts b @ hs))"
      "n = int (length (trackFields (app_machineID a) (app_ps a) ts b @ hs))"
    and snap: "br_snap b = concat (map counters (shards (app_http a)))"
    and hs: "\<forall>row \<in> set hs. \<exists>k c. row = domainHealthFields (app_ps a) k c" unfolding Let_def by blast
  have "sum_list (map (shippedRequests \<circ> cleanFields) hs) = 0"
    using hs shipped_rows(15) by (intro shipped_none) auto
  moreover have "weigh c_RequestCount (concat (map counters ss)) = sum_list (map (\<lambda>s. weigh c_RequestCount (counters s)) ss)" for ss
    by (induction ss) simp_all
  ultimately have "sum_list (map shippedRequests (map cleanFields (trackFields (app_machineID a) (app_ps a) ts b @ hs)))
      = requestTotal (app_http a)"
    using trackFields_shipped [of "app_machineID a" "app_ps a" ts b] by (simp add: snap requestTotal_def)
  with rd show ?thesis
    by (intro exI [of _ "map cleanFields (trackFields (app_machineID a) (app_ps a) ts b @ hs)"]) simp
qed

lemma no_counters:
  assumes "\<forall>s \<in> set ss. counters s = []"
  shows "(\<Sum>s\<leftarrow>ss. weigh c_RequestCount (counters s)) = 0"
proof (rule sum_list_zeros)
  fix s
  assume "s \<in> set ss"
  then have "counters s = []" using assms by blast
  then show "weigh c_RequestCount (counters s) = 0" by (simp only: weigh_simps)
qed

text \<open>
  From \<open>Provision\<close> through any requests to the body of a flush: unless every request was lost to
  overflow, the flush hands over a body, and its counter rows account for the requests.
\<close>

theorem served_flush:
  assumes "provision rnd getenv replaceAll ram rss sketch health c = Inr pv"
    and "a = fst (serveAll (statsAppRef rnd (pv_hashSalt pv) (app_machineID (pv_app pv)) (pv_modeV2 pv) telemetry evidenceV2)
                  xs (pv_app pv, seq))"
  shows "drainAndEncode srt rst ret retW encodeOk httpOnly ts a = (Some (body, n, lease), a') \<Longrightarrow>
      \<exists>rows. readBatch body = Some rows \<and> n = int (length rows)
        \<and> sum_list (map shippedRequests rows) + overflow (app_http a) = of_nat (length (filter countedArrival xs))"
    and "of_nat (length (filter countedArrival xs)) \<noteq> overflow (app_http a) \<Longrightarrow>
      \<exists>body n lease a'. drainAndEncode srt rst ret retW True httpOnly ts a = (Some (body, n, lease), a')"
proof -
  have parts: "app_parts_ok a" and total: "requestTotal (app_http a) + overflow (app_http a) = of_nat (length (filter countedArrival xs))"
    using provision_ok [OF assms(1)] shipping_app.serve_all_counted [of "pv_app pv"] by (auto simp: assms(2) app_counted_def)
  show "\<exists>rows. readBatch body = Some rows \<and> n = int (length rows)
        \<and> sum_list (map shippedRequests rows) + overflow (app_http a) = of_nat (length (filter countedArrival xs))"
    if "drainAndEncode srt rst ret retW encodeOk httpOnly ts a = (Some (body, n, lease), a')"
    using flush_reports [OF parts that] total by auto
  show "\<exists>body n lease a'. drainAndEncode srt rst ret retW True httpOnly ts a = (Some (body, n, lease), a')"
    if "of_nat (length (filter countedArrival xs)) \<noteq> overflow (app_http a)"
  proof (rule drainAndEncode_accepts [OF parts])
    show "concat (map counters (shards (app_http a))) \<noteq> []"
    proof
      assume "concat (map counters (shards (app_http a))) = []"
      then have "\<forall>s \<in> set (shards (app_http a)). counters s = []" by simp
      then have "requestTotal (app_http a) = 0" unfolding requestTotal_def by (rule no_counters)
      with total that show False by simp
    qed
  qed
qed

end
