(* ===== verification/Metrics.thy ===== *)
theory Metrics
  imports End_To_End
begin

text \<open>
  The Prometheus collectors (metrics.go) and the series that the HTTP handler counts requests
  in.  The declarations are registered when the package is loaded: a name that is not a metric
  name, or that is declared twice, panics there, and a use with the wrong number of label values
  panics where it happens.
\<close>

section \<open>Declarations\<close>

datatype metricKind = MCounter | MGauge | MHistogram

record metricFamily =
  mf_kind :: metricKind
  mf_name :: string
  mf_labels :: "string list"

abbreviation family :: "metricKind \<Rightarrow> string \<Rightarrow> string list \<Rightarrow> metricFamily" where
  "family kind name labels \<equiv> \<lparr>mf_kind = kind, mf_name = name, mf_labels = labels\<rparr>"

definition metricRequestsTotal :: metricFamily where
  "metricRequestsTotal = family MCounter ''apx_stats_requests_total'' [''origin'']"

definition metricDomainHealthDrops :: metricFamily where
  "metricDomainHealthDrops = family MCounter ''apx_stats_domain_health_dropped_total'' [''reason'']"

definition metricShipAttempts :: metricFamily where
  "metricShipAttempts = family MCounter ''apx_stats_ship_attempts_total'' [''result'']"

definition metricRetiredShip :: metricFamily where
  "metricRetiredShip = family MCounter ''apx_stats_retired_ship_total'' [''result'']"

definition metricOverloadWAFSkips :: metricFamily where
  "metricOverloadWAFSkips = family MCounter ''apx_stats_overload_waf_skips_total'' [''kind'']"

text \<open>The collectors without labels, in the order of the file.\<close>

definition metricBufferSize :: metricFamily where
  "metricBufferSize = family MGauge ''apx_stats_buffer_size'' []"

definition metricBufferOverflow :: metricFamily where
  "metricBufferOverflow = family MCounter ''apx_stats_buffer_overflow_total'' []"

definition metricDomainHealthOverflow :: metricFamily where
  "metricDomainHealthOverflow = family MCounter ''apx_stats_domain_health_overflow_total'' []"

definition metricUniquesOverflow :: metricFamily where
  "metricUniquesOverflow = family MCounter ''apx_stats_uniques_overflow_total'' []"

definition metricShipDuration :: metricFamily where
  "metricShipDuration = family MHistogram ''apx_stats_ship_duration_seconds'' []"

definition metricDroppedRows :: metricFamily where
  "metricDroppedRows = family MCounter ''apx_stats_dropped_rows_total'' []"

definition metricStopWait :: metricFamily where
  "metricStopWait = family MHistogram ''apx_stats_stop_wait_seconds'' []"

definition metricShipQueueDroppedRows :: metricFamily where
  "metricShipQueueDroppedRows = family MCounter ''apx_stats_ship_queue_dropped_rows_total'' []"

definition metricOverloadLevel :: metricFamily where
  "metricOverloadLevel = family MGauge ''apx_stats_overload_level'' []"

definition metricFingerprintOverflows :: metricFamily where
  "metricFingerprintOverflows = family MCounter ''apx_l4_fingerprint_bounded_map_overflows_total'' []"

definition metricFingerprintIpOverflows :: metricFamily where
  "metricFingerprintIpOverflows = family MCounter ''apx_l4_fingerprint_ip_bounded_map_overflows_total'' []"

definition metricChallengeOverflows :: metricFamily where
  "metricChallengeOverflows = family MCounter ''apx_stats_challenge_map_overflows_total'' []"

definition metricEdgeVerifyOverflows :: metricFamily where
  "metricEdgeVerifyOverflows = family MCounter ''apx_stats_edge_verify_map_overflows_total'' []"

definition metricCorazaOverflows :: metricFamily where
  "metricCorazaOverflows = family MCounter ''apx_coraza_detection_slice_overflows_total'' []"

definition metricFamilies :: "metricFamily list" where
  "metricFamilies =
     [metricRequestsTotal, metricDomainHealthDrops, metricShipAttempts, metricRetiredShip, metricOverloadWAFSkips]
     @ [metricBufferSize, metricBufferOverflow, metricDomainHealthOverflow, metricUniquesOverflow,
        metricShipDuration, metricDroppedRows, metricStopWait, metricShipQueueDroppedRows, metricOverloadLevel,
        metricFingerprintOverflows, metricFingerprintIpOverflows, metricChallengeOverflows,
        metricEdgeVerifyOverflows, metricCorazaOverflows]"

text \<open>The buckets of the two histograms, in milliseconds: \<open>ExponentialBuckets(0.001, 2, 12)\<close> and the list.\<close>

definition shipDurationBuckets :: "nat list" where
  "shipDurationBuckets = map (\<lambda>i. 2 ^ i) [0..<12]"

definition stopWaitBuckets :: "nat list" where
  "stopWaitBuckets = [10, 50, 100, 250, 500, 1000, 2000, 5000]"

text \<open>The counter of each reason, by its position.\<close>

definition metricDomainHealthDropCounters :: "string list" where
  "metricDomainHealthDropCounters =
     [''capacity'', ''pressure'', ''retired'', ''encode_busy'', ''frame_limit'', ''encode_error'', ''queue'', ''delivery'']"

primrec dropReasonIndex :: "domainHealthDropReason \<Rightarrow> nat" where
  "dropReasonIndex DropCapacity = 0"
| "dropReasonIndex DropPressure = 1"
| "dropReasonIndex DropRetired = 2"
| "dropReasonIndex DropEncodeBusy = 3"
| "dropReasonIndex DropFrameLimit = 4"
| "dropReasonIndex DropEncodeError = 5"
| "dropReasonIndex DropQueue = 6"
| "dropReasonIndex DropDelivery = 7"

definition dropReasonLabel :: "domainHealthDropReason \<Rightarrow> string" where
  "dropReasonLabel reason = metricDomainHealthDropCounters ! dropReasonIndex reason"

section \<open>Registration\<close>

text \<open>A metric name: letters, digits, underscores and colons, not beginning with a digit.\<close>

definition nameChar :: "char \<Rightarrow> bool" where
  "nameChar c = (is_digit c \<or> c = CHR ''_'' \<or> c = CHR '':''
     \<or> (65 \<le> byte c \<and> byte c \<le> 90) \<or> (97 \<le> byte c \<and> byte c \<le> 122))"

definition metricName :: "string \<Rightarrow> bool" where
  "metricName s = (s \<noteq> [] \<and> list_all nameChar s \<and> \<not> is_digit (hd s))"

definition strictlyIncreasing :: "nat list \<Rightarrow> bool" where
  "strictlyIncreasing xs = (xs \<noteq> [] \<and> sorted_wrt (<) xs)"

definition registers :: "metricFamily list \<Rightarrow> bool" where
  "registers fs =
     (distinct (map mf_name fs)
      \<and> list_all (\<lambda>f. metricName (mf_name f) \<and> list_all metricName (mf_labels f) \<and> distinct (mf_labels f)) fs)"

lemma families_register: "registers metricFamilies" "strictlyIncreasing shipDurationBuckets" "strictlyIncreasing stopWaitBuckets"
  by code_simp+

lemma dropReasonLabel_inj: "dropReasonLabel r = dropReasonLabel r' \<longleftrightarrow> r = r'"
proof -
  have "distinct metricDomainHealthDropCounters" by code_simp
  moreover have "dropReasonIndex x < length metricDomainHealthDropCounters" for x
    by (cases x) (simp_all add: metricDomainHealthDropCounters_def)
  moreover have "dropReasonIndex r = dropReasonIndex r' \<longleftrightarrow> r = r'" by (cases r; cases r') simp_all
  ultimately show ?thesis by (simp add: dropReasonLabel_def nth_eq_iff_index_eq)
qed

section \<open>The series of a request\<close>

type_synonym series = "(string, nat) gomap"

definition incSeries :: "string \<Rightarrow> series \<Rightarrow> series" where
  "incSeries l m = mput l (case map_of m l of None \<Rightarrow> 1 | Some n \<Rightarrow> Suc n) m"

text \<open>The label that \<open>ServeHTTP\<close> and \<open>record\<close> count the request under.\<close>

definition requestLabel :: "httpRequest \<Rightarrow> finishedRequest \<Rightarrow> string" where
  "requestLabel r q =
     (if headerGet (rq_Header r) ''Apx-Monitor'' = ''true'' then ''skipped_monitor''
      else case readVhostID (fr_vars q) of None \<Rightarrow> ''no_vhost'' | Some _ \<Rightarrow> originOf q)"

definition countRequests :: "arrival list \<Rightarrow> series \<Rightarrow> series" where
  "countRequests = fold (\<lambda>(r, q, calls, evs). incSeries (requestLabel r q))"

definition requestLabels :: "string list" where
  "requestLabels =
     [OriginUpstream, OriginCluster, OriginClusterBlocked, OriginClusterProxyError, ''skipped_monitor'', ''no_vhost'']"

definition seriesSum :: "string list \<Rightarrow> series \<Rightarrow> nat" where
  "seriesSum ls m = sum_list (map (\<lambda>l. case map_of m l of None \<Rightarrow> 0 | Some n \<Rightarrow> n) ls)"

lemma requestLabel_known: "requestLabel r q \<in> set requestLabels"
  by (auto simp: requestLabel_def requestLabels_def classifyOrigin_def split: option.splits)

lemma labels_distinct: "distinct requestLabels"
  by code_simp

lemma requestLabel_origin:
  "requestLabel r q \<in> set (take 4 requestLabels) \<longleftrightarrow> countedArrival (r, q, calls, evs)"
proof -
  have "originOf q \<in> set (take 4 requestLabels)"
    by (auto simp: requestLabels_def classifyOrigin_def)
  moreover have "''skipped_monitor'' \<notin> set (take 4 requestLabels)" "''no_vhost'' \<notin> set (take 4 requestLabels)"
    by code_simp+
  ultimately show ?thesis by (auto simp: requestLabel_def countedArrival_def split: option.splits)
qed

lemma seriesSum_inc:
  assumes "distinct ls"
  shows "seriesSum ls (incSeries l m) = seriesSum ls m + (if l \<in> set ls then 1 else 0)"
  using assms by (induction ls) (auto simp: seriesSum_def incSeries_def split: option.splits)

lemma incSeries_keys [simp]: "keys (incSeries l m) = insert l (keys m)"
  by (simp add: incSeries_def)

theorem countRequests_exact:
  "keys (countRequests xs []) \<subseteq> set requestLabels
   \<and> seriesSum requestLabels (countRequests xs []) = length xs
   \<and> seriesSum (take 4 requestLabels) (countRequests xs []) = length (filter countedArrival xs)"
proof (induction xs rule: rev_induct)
  case Nil
  then show ?case by (simp add: countRequests_def seriesSum_def requestLabels_def)
next
  case (snoc x xs)
  obtain r q calls evs where x: "x = (r, q, calls, evs)" by (cases x) auto
  have step: "countRequests (xs @ [x]) [] = incSeries (requestLabel r q) (countRequests xs [])"
    by (simp add: countRequests_def x)
  have d: "distinct (take 4 requestLabels)" using labels_distinct by simp
  show ?case
    unfolding step seriesSum_inc [OF labels_distinct] seriesSum_inc [OF d] incSeries_keys
      requestLabel_origin [of r q calls evs] x [symmetric]
    using snoc requestLabel_known [of r q] by simp
qed

end
