(* ===== verification/Static_Asset.thy ===== *)
theory Static_Asset
  imports Http_Request "HOL-Library.Sublist"
begin

text \<open>
  Static assets (static\_asset.go): which requests count as static for admission, and the
  stricter screen of the requests for which a blocking WAF may be skipped.
\<close>

section \<open>Static extensions\<close>

definition staticAssetExts :: "string list" where
  "staticAssetExts =
     [''css'', ''js'', ''mjs'', ''map'', ''png'', ''jpg'', ''jpeg'', ''gif'', ''webp'', ''avif'',
      ''svg'', ''ico'', ''bmp'', ''woff'', ''woff2'', ''ttf'', ''otf'', ''eot'', ''mp4'', ''webm'',
      ''mp3'', ''ogg'', ''wav'', ''m4a'', ''wasm'']"

definition lastSegment :: "string \<Rightarrow> string" where
  "lastSegment path = (case LastIndexByte path (CHR ''/'') of None \<Rightarrow> path | Some i \<Rightarrow> drop (i + 1) path)"

definition staticExt :: "string \<Rightarrow> bool" where
  "staticExt path =
     (let seg = lastSegment path
      in case LastIndexByte seg (CHR ''.'') of
           None \<Rightarrow> False
         | Some dot \<Rightarrow>
             if dot = length seg - 1 then False
             else let ext = drop (dot + 1) seg
                  in if length ext > 5 then False
                     else list_ex (\<lambda>e. length e = length ext \<and> equalFold ext e) staticAssetExts)"

definition staticAssetPath :: "httpRequest \<Rightarrow> bool" where
  "staticAssetPath r =
     (if rq_Method r \<noteq> ''GET'' \<and> rq_Method r \<noteq> ''HEAD'' then False else staticExt (rq_Path r))"

section \<open>Plain targets\<close>

definition is_alnum :: "char \<Rightarrow> bool" where
  "is_alnum c = (is_lower c \<or> is_upper c \<or> is_digit c)"

text \<open>The loop over the path after its first byte; \<open>prev\<close> is the byte before.\<close>

fun plainPathLoop :: "char \<Rightarrow> string \<Rightarrow> bool" where
  "plainPathLoop prev [] = True"
| "plainPathLoop prev (c # s) =
     (if is_alnum c \<or> c \<in> set ''_.~-'' then plainPathLoop c s
      else if c = CHR ''/'' then (if prev = CHR ''/'' then False else plainPathLoop c s)
      else False)"

definition plainStaticPath :: "string \<Rightarrow> bool" where
  "plainStaticPath p =
     (if length p < 2 \<or> length p > 257 \<or> p ! 0 \<noteq> CHR ''/'' then False
      else plainPathLoop (hd p) (tl p) \<and> \<not> Contains p ''..'')"

definition plainStaticQuery :: "string \<Rightarrow> bool" where
  "plainStaticQuery q =
     (if q = [] then True
      else if length q > 64 then False
      else list_all (\<lambda>c. is_alnum c \<or> c \<in> set ''_.=&-'') q)"

section \<open>Header values\<close>

text \<open>After \<open>()\<close>: blanks, then an opening brace.\<close>

definition braceFollows :: "string \<Rightarrow> bool" where
  "braceFollows s = (case dropWhile (\<lambda>c. c = CHR '' '' \<or> byte c = 9) s of [] \<Rightarrow> False | c # _ \<Rightarrow> c = CHR 0x7B)"

fun headerHasInjectionMarker :: "string \<Rightarrow> bool" where
  "headerHasInjectionMarker [] = False"
| "headerHasInjectionMarker (c # s) =
     (if c = CHR ''<'' \<or> byte c = 0 \<or> byte c = 13 \<or> byte c = 10 \<or> byte c = 96 then True
      else if c = CHR ''$'' \<and> s \<noteq> [] \<and> hd s = CHR 0x7B then True
      else if c = CHR ''('' \<and> s \<noteq> [] \<and> hd s = CHR '')'' \<and> braceFollows (tl s) then True
      else headerHasInjectionMarker s)"

fun cookieHeaderSafe :: "string \<Rightarrow> bool" where
  "cookieHeaderSafe [] = True"
| "cookieHeaderSafe (c # s) =
     (if is_alnum c \<or> c \<in> set ''_.~=:/+'' then cookieHeaderSafe s
      else if c = CHR ''-'' then (if s \<noteq> [] \<and> hd s = CHR ''-'' then False else cookieHeaderSafe s)
      else if c = CHR '';'' then (if s = [] \<or> hd s \<noteq> CHR '' '' then False else cookieHeaderSafe (tl s))
      else False)"

definition hasPrefixFold :: "string \<Rightarrow> string \<Rightarrow> bool" where
  "hasPrefixFold s pre = (length s \<ge> length pre \<and> equalFold (take (length pre) s) pre)"

fun textHeaderSafe :: "string \<Rightarrow> bool \<Rightarrow> bool" where
  "textHeaderSafe [] spaces = True"
| "textHeaderSafe (c # s) spaces =
     (if is_alnum c \<or> c \<in> set ''_.~=:+,();?&!'' then textHeaderSafe s spaces
      else if c = CHR '' '' then (if \<not> spaces then False else textHeaderSafe s spaces)
      else if c = CHR ''-'' then (if s \<noteq> [] \<and> hd s = CHR ''-'' then False else textHeaderSafe s spaces)
      else if c = CHR ''/''
        then (if hasPrefixFold (c # s) ''/bin/'' \<or> hasPrefixFold (c # s) ''/etc/'' then False
              else textHeaderSafe s spaces)
      else False)"

definition sqlKeywords :: "string list" where
  "sqlKeywords =
     [''select'', ''union'', ''insert'', ''update'', ''delete'', ''drop'', ''truncate'', ''alter'',
      ''sleep'', ''pg_sleep'', ''benchmark'', ''waitfor'', ''exec'', ''execute'', ''declare'',
      ''having'', ''information_schema'', ''load_file'', ''outfile'', ''dumpfile'', ''xp_cmdshell'']"

definition isKeyword :: "string \<Rightarrow> bool" where
  "isKeyword w = list_ex (\<lambda>k. length k = length w \<and> equalFold w k) sqlKeywords"

definition is_word :: "char \<Rightarrow> bool" where
  "is_word c = (is_lower c \<or> is_upper c \<or> c = CHR ''_'')"

text \<open>The scan; \<open>acc\<close> is the word read so far, backwards, empty when \<open>start\<close> is -1.\<close>

fun keywordScan :: "string \<Rightarrow> string \<Rightarrow> bool" where
  "keywordScan acc [] = (acc \<noteq> [] \<and> isKeyword (rev acc))"
| "keywordScan acc (c # s) =
     (if is_word c then keywordScan (c # acc) s
      else (acc \<noteq> [] \<and> isKeyword (rev acc)) \<or> keywordScan [] s)"

definition hasSQLKeyword :: "string \<Rightarrow> bool" where
  "hasSQLKeyword v = keywordScan [] v"

definition staticSkipHeaderSafe :: "string \<Rightarrow> string \<Rightarrow> bool" where
  "staticSkipHeaderSafe name v =
     (if headerHasInjectionMarker v then False
      else if name = ''Cookie'' then cookieHeaderSafe v \<and> \<not> hasSQLKeyword v
      else if name = ''User-Agent'' then textHeaderSafe v True \<and> \<not> hasSQLKeyword v
      else if name = ''Referer'' then textHeaderSafe v False \<and> \<not> hasSQLKeyword v
      else True)"

section \<open>The screen\<close>

text \<open>The raw target split at the question mark, when there is one.\<close>

definition skipTarget :: "httpRequest \<Rightarrow> string \<times> string" where
  "skipTarget r =
     (if rq_RequestURI r \<noteq> [] \<and> rq_RequestURI r \<noteq> ''*'' then
        (case indexByte (rq_RequestURI r) (CHR ''?'') of
           None \<Rightarrow> (rq_RequestURI r, [])
         | Some i \<Rightarrow> (take i (rq_RequestURI r), drop (i + 1) (rq_RequestURI r)))
      else (rq_EscapedPath r, rq_RawQuery r))"

text \<open>A plain path has a slash, so the slice in the code is in range.\<close>

definition dottedDirectory :: "string \<Rightarrow> bool" where
  "dottedDirectory path =
     (case LastIndexByte path (CHR ''/'') of None \<Rightarrow> False | Some i \<Rightarrow> CHR ''.'' \<in> set (take i path))"

definition wafSkippableStatic :: "httpRequest \<Rightarrow> bool" where
  "wafSkippableStatic r =
     (if \<not> staticAssetPath r then False
      else if rq_ContentLength r \<noteq> 0 \<or> rq_TransferEncoding r \<noteq> []
           \<or> headerGet (rq_Header r) ''Transfer-Encoding'' \<noteq> [] then False
      else case skipTarget r of
        (path, query) \<Rightarrow>
          if \<not> plainStaticPath path \<or> \<not> plainStaticQuery query \<or> rq_Fragment r \<noteq> [] then False
          else if dottedDirectory path then False
          else list_all (\<lambda>(name, vs). list_all (staticSkipHeaderSafe name) vs) (rq_Header r))"

section \<open>What the screen guarantees\<close>

lemma plainPathLoop_chars:
  "plainPathLoop prev s \<Longrightarrow> c \<in> set s \<Longrightarrow> is_alnum c \<or> c \<in> set ''_.~-/''"
  by (induction prev s rule: plainPathLoop.induct) (auto split: if_splits)

lemma slash_not_alnum: "\<not> is_alnum (CHR ''/'')"
  by (simp add: is_alnum_def is_lower_def is_upper_def is_digit_def)

lemma plainPathLoop_Cons:
  "plainPathLoop prev (c # s) \<Longrightarrow> plainPathLoop c s \<and> \<not> (prev = CHR ''/'' \<and> c = CHR ''/'')"
  using slash_not_alnum by (auto split: if_splits)

lemma plainPathLoop_slashes:
  "plainPathLoop prev s \<Longrightarrow> \<not> sublist ''//'' (prev # s)"
proof (induction s arbitrary: prev)
  case Nil
  show ?case by (simp add: sublist_Cons_right)
next
  case (Cons c s)
  from plainPathLoop_Cons [OF Cons.prems] Cons.IH [of c]
  have "\<not> sublist ''//'' (c # s)" "\<not> (prev = CHR ''/'' \<and> c = CHR ''/'')" by blast+
  then show ?case by (auto simp: sublist_Cons_right [of _ prev])
qed

lemma plainPath_slash: "plainStaticPath p \<Longrightarrow> LastIndexByte p (CHR ''/'') \<noteq> None"
  by (cases p) (auto simp: plainStaticPath_def simp del: LastIndexByte.simps split: if_splits)

theorem wafSkippable_guarantee:
  assumes "wafSkippableStatic r" and "skipTarget r = (path, query)"
  shows "rq_Method r \<in> {''GET'', ''HEAD''} \<and> rq_ContentLength r = 0 \<and> rq_TransferEncoding r = []"
    and "\<forall>c \<in> set path. is_alnum c \<or> c \<in> set ''_.~-/''"
    and "\<not> sublist ''//'' path \<and> \<not> sublist ''..'' path \<and> length path \<le> 257"
    and "\<not> dottedDirectory path"
    and "\<forall>c \<in> set query. is_alnum c \<or> c \<in> set ''_.=&-''"
    and "\<forall>(name, vs) \<in> set (rq_Header r). \<forall>v \<in> set vs. staticSkipHeaderSafe name v"
proof -
  note w = assms(1) [unfolded wafSkippableStatic_def assms(2), simplified]
  have plain: "plainStaticPath path" "plainStaticQuery query" and dd: "\<not> dottedDirectory path"
    using w by (auto split: if_splits)
  obtain c s where p: "path = c # s" "c = CHR ''/''" "plainPathLoop c s"
    using plain(1) by (cases path) (auto simp: plainStaticPath_def split: if_splits)
  show "rq_Method r \<in> {''GET'', ''HEAD''} \<and> rq_ContentLength r = 0 \<and> rq_TransferEncoding r = []"
    using w by (auto simp: staticAssetPath_def split: if_splits)
  show "\<forall>c \<in> set path. is_alnum c \<or> c \<in> set ''_.~-/''"
    using plainPathLoop_chars [OF p(3)] p by auto
  show "\<not> sublist ''//'' path \<and> \<not> sublist ''..'' path \<and> length path \<le> 257"
    using plainPathLoop_slashes [OF p(3)] p plain(1) by (auto simp: plainStaticPath_def split: if_splits)
  show "\<not> dottedDirectory path" by (rule dd)
  show "\<forall>c \<in> set query. is_alnum c \<or> c \<in> set ''_.=&-''"
    using plain(2) by (auto simp: plainStaticQuery_def list_all_iff split: if_splits)
  show "\<forall>(name, vs) \<in> set (rq_Header r). \<forall>v \<in> set vs. staticSkipHeaderSafe name v"
    using w by (auto simp: list_all_iff split: if_splits)
qed

section \<open>The keyword scan\<close>

text \<open>A maximal run of word characters in a text.\<close>

definition wholeWord :: "string \<Rightarrow> string \<Rightarrow> bool" where
  "wholeWord w v =
     (\<exists>pre post. v = pre @ w @ post \<and> w \<noteq> [] \<and> (\<forall>c \<in> set w. is_word c)
        \<and> (pre = [] \<or> \<not> is_word (last pre)) \<and> (post = [] \<or> \<not> is_word (hd post)))"

lemma wholeWord_all:
  assumes "\<forall>c \<in> set a. is_word c"
  shows "wholeWord w a \<longleftrightarrow> w = a \<and> a \<noteq> []"
proof
  assume "wholeWord w a"
  then obtain pre post where a: "a = pre @ w @ post" "w \<noteq> []"
      "pre = [] \<or> \<not> is_word (last pre)" "post = [] \<or> \<not> is_word (hd post)"
    by (auto simp: wholeWord_def)
  then have "pre = []" "post = []" using assms by (metis Un_iff last_in_set set_append, metis Un_iff hd_in_set set_append)
  with a show "w = a \<and> a \<noteq> []" by simp
next
  assume "w = a \<and> a \<noteq> []"
  then show "wholeWord w a" using assms unfolding wholeWord_def
    by (intro exI [of _ "[]"]) auto
qed

lemma wholeWord_split:
  assumes a: "\<forall>x \<in> set a. is_word x" and c: "\<not> is_word c"
  shows "wholeWord w (a @ c # s) \<longleftrightarrow> w = a \<and> a \<noteq> [] \<or> wholeWord w s"
proof
  assume "wholeWord w (a @ c # s)"
  then obtain pre post where v: "a @ c # s = pre @ w @ post" "w \<noteq> []" "\<forall>x \<in> set w. is_word x"
      "pre = [] \<or> \<not> is_word (last pre)" "post = [] \<or> \<not> is_word (hd post)"
    by (auto simp: wholeWord_def)
  show "w = a \<and> a \<noteq> [] \<or> wholeWord w s"
  proof (cases "length pre \<le> length a")
    case True
    then have "prefix pre a" using v(1) by (metis prefixI prefix_length_prefix)
    then obtain us where us: "a = pre @ us" by (elim prefixE)
    then have pre: "pre = []" using v(4) a by (metis UnI1 last_in_set set_append)
    have pw: "prefix w (a @ c # s)" unfolding v(1) pre by simp
    have pa: "prefix (a @ [c]) (a @ c # s)" "prefix a (a @ c # s)" by simp_all
    have "length w \<le> length a"
    proof (rule ccontr)
      assume "\<not> length w \<le> length a"
      then have "length (a @ [c]) \<le> length w" by simp
      then have "prefix (a @ [c]) w" by (rule prefix_length_prefix [OF pa(1) pw])
      then have "c \<in> set w" by (auto elim: prefixE)
      then show False using v(3) c by blast
    qed
    then have "prefix w a" by (rule prefix_length_prefix [OF pw pa(2)])
    then obtain vs where vs: "a = w @ vs" by (elim prefixE)
    have "vs @ c # s = post" using v(1) unfolding pre vs by simp
    then have "vs = []" using v(5) a vs by (cases vs) auto
    then show ?thesis using vs v(2) by simp
  next
    case False
    then obtain us where us: "pre = a @ c # us" "s = us @ w @ post"
      using v(1) by (auto simp: append_eq_append_conv2 Cons_eq_append_conv)
    then have "us = [] \<or> \<not> is_word (last us)" using v(4) by (auto split: if_splits)
    then show ?thesis using us v by (auto simp: wholeWord_def)
  qed
next
  assume "w = a \<and> a \<noteq> [] \<or> wholeWord w s"
  then show "wholeWord w (a @ c # s)"
  proof
    assume "w = a \<and> a \<noteq> []"
    then show ?thesis using a c unfolding wholeWord_def
      by (intro exI [of _ "[]"] exI [of _ "c # s"]) auto
  next
    assume "wholeWord w s"
    then obtain pre post where "s = pre @ w @ post" "w \<noteq> []" "\<forall>x \<in> set w. is_word x"
        "pre = [] \<or> \<not> is_word (last pre)" "post = [] \<or> \<not> is_word (hd post)"
      by (auto simp: wholeWord_def)
    then show ?thesis using c unfolding wholeWord_def
      by (intro exI [of _ "a @ c # pre"] exI [of _ post]) auto
  qed
qed

lemma keywordScan_spec:
  "\<forall>c \<in> set acc. is_word c \<Longrightarrow>
   keywordScan acc s \<longleftrightarrow> (\<exists>w. wholeWord w (rev acc @ s) \<and> isKeyword w)"
proof (induction acc s rule: keywordScan.induct)
  case (1 acc)
  then show ?case using wholeWord_all [of "rev acc"] by auto
next
  case (2 acc c s)
  show ?case
  proof (cases "is_word c")
    case True
    then show ?thesis using 2 by auto
  next
    case False
    then show ?thesis using 2(2) [OF False] 2(3) wholeWord_split [of "rev acc" c _ s] by auto
  qed
qed

theorem hasSQLKeyword_spec: "hasSQLKeyword v \<longleftrightarrow> (\<exists>w. wholeWord w v \<and> isKeyword w)"
  by (simp add: hasSQLKeyword_def keywordScan_spec)

end
