(* ===== verification/Admission.thy ===== *)
theory Admission
  imports Overload Static_Asset Node_State "HOL-Library.Signed_Division"
begin

text \<open>
  Admission control (admission.go) and the WAF bridge (overload\_bridge.go): classification,
  the shed decision, the in-flight count with its early release for streams, and the counters
  the node-state rows carry.  The package atomics are one record.
\<close>

section \<open>State and classes\<close>

record admissionState =
  ad_inflight :: int
  ad_limitNow :: int
  ad_completions :: u64
  ad_latencyNs :: u64
  ad_hardCapHit :: bool
  ad_counts :: overloadCounts

datatype admissionClass = AdmitP0 | AdmitP1 | AdmitP2 | AdmitP3

fun classIndex :: "admissionClass \<Rightarrow> nat" where
  "classIndex AdmitP0 = 0"
| "classIndex AdmitP1 = 1"
| "classIndex AdmitP2 = 2"
| "classIndex AdmitP3 = 3"

definition classifyAdmission :: "httpRequest \<Rightarrow> admissionClass" where
  "classifyAdmission r =
     (let p = rq_Path r; h = rq_Header r
      in if HasPrefix p ''/__apx_'' \<or> HasPrefix p ''/.well-known/acme-challenge/''
            \<or> p = ''/healthy'' \<or> HasPrefix p ''/apxflyhealthcheck'' then AdmitP0
         else if rq_Method r = ''GET'' \<or> rq_Method r = ''HEAD'' then
           (if headerGet h ''Sec-Fetch-Mode'' = ''navigate'' \<or> headerGet h ''Sec-Fetch-Dest'' = ''document''
               \<or> HasPrefix (headerGet h ''Accept'') ''text/html'' then AdmitP1
            else if staticExt p then AdmitP3
            else AdmitP2)
         else AdmitP2)"

section \<open>The decision\<close>

text \<open>All arithmetic is on int64, so it wraps; the pair is (shed, hard).\<close>

definition admissionShouldShed ::
    "admissionClass \<Rightarrow> int \<Rightarrow> int \<Rightarrow> int \<Rightarrow> int \<Rightarrow> bool \<times> bool" where
  "admissionShouldShed cls inflight level limit hardLimit =
     (if cls = AdmitP0 then (False, False)
      else
        (let hardAt = (if cls = AdmitP1 then i64 (hardLimit + hardLimit sdiv 4) else hardLimit)
         in if inflight \<ge> hardAt then (True, True)
            else if level < 2 \<or> limit \<le> 0 then (False, False)
            else case cls of
              AdmitP3 \<Rightarrow> (i64 (inflight * 2) \<ge> limit, False)
            | AdmitP2 \<Rightarrow> (inflight \<ge> limit, False)
            | _ \<Rightarrow> (i64 (inflight * 2) \<ge> i64 (limit * 3), False)))"

datatype admissionOutcome = Bypass | Admitted | Shed

definition bumpAt :: "nat \<Rightarrow> u64 list \<Rightarrow> u64 list" where
  "bumpAt i xs = xs[i := xs ! i + 1]"

text \<open>\<open>admissionInflight.Add(1) - 1\<close>: how many others were in flight.\<close>

definition enterAdmission :: "admissionState \<Rightarrow> int \<times> admissionState" where
  "enterAdmission st = (ad_inflight st, st\<lparr>ad_inflight := ad_inflight st + 1\<rparr>)"

definition decideAdmission ::
    "overloadRuntime \<Rightarrow> int \<Rightarrow> httpRequest \<Rightarrow> int \<Rightarrow> admissionState \<Rightarrow> admissionOutcome \<times> admissionState" where
  "decideAdmission rt level r inflight st =
     (if level < 2 \<and> inflight < or_hardLimit rt then (Admitted, st)
      else
        (let cls = classifyAdmission r;
             (shed, hard) = admissionShouldShed cls inflight level (ad_limitNow st) (or_hardLimit rt)
         in if \<not> shed then (Admitted, st)
            else if \<not> or_admitEnforce rt
              then (Admitted, st\<lparr>ad_counts := (ad_counts st)\<lparr>oc_wouldShed := oc_wouldShed (ad_counts st) + 1\<rparr>\<rparr>)
            else (Shed, st\<lparr>ad_inflight := ad_inflight st - 1,
                           ad_counts := (ad_counts st)\<lparr>oc_shed := bumpAt (classIndex cls) (oc_shed (ad_counts st))\<rparr>,
                           ad_hardCapHit := (ad_hardCapHit st \<or> hard)\<rparr>)))"

definition admissionServe ::
    "overloadRuntime option \<Rightarrow> int \<Rightarrow> httpRequest \<Rightarrow> admissionState \<Rightarrow> admissionOutcome \<times> admissionState" where
  "admissionServe rto level r st =
     (case rto of
        None \<Rightarrow> (Bypass, st)
      | Some rt \<Rightarrow>
          if \<not> or_admissionLive rt then (Bypass, st)
          else case enterAdmission st of (inflight, st') \<Rightarrow> decideAdmission rt level r inflight st')"

section \<open>The shed response\<close>

record shedResponse =
  sr_status :: int
  sr_headers :: header
  sr_body :: string

definition shedBody :: string where
  "shedBody = ''503 node overloaded, retry in a moment'' @ [CHR 0x0A]"

text \<open>\<open>draw\<close> is \<open>rand.IntN(3)\<close>.\<close>

definition writeShed :: "nat \<Rightarrow> shedResponse" where
  "writeShed draw =
     \<lparr>sr_status = 503,
      sr_headers = [(''Retry-After'', [[''1'', ''2'', ''3''] ! draw]), (''Cache-Control'', [''no-store'']),
                    (''Apx-Overload'', [''1'']), (''Content-Type'', [''text/plain; charset=utf-8'']),
                    (''Content-Length'', [FormatUint (length shedBody)])],
      sr_body = shedBody\<rparr>"

section \<open>Serving an admitted request\<close>

definition admissionDone :: "duration \<Rightarrow> admissionState \<Rightarrow> admissionState" where
  "admissionDone elapsed st =
     st\<lparr>ad_inflight := ad_inflight st - 1, ad_completions := ad_completions st + 1,
        ad_latencyNs := ad_latencyNs st + of_int elapsed\<rparr>"

definition admissionStreamCandidate :: "httpRequest \<Rightarrow> bool" where
  "admissionStreamCandidate r =
     (if rq_Method r = ''CONNECT'' \<or> headerGet (rq_Header r) ''Upgrade'' \<noteq> [] then True
      else Contains (headerGet (rq_Header r) ''Accept'') ''text/event-stream'')"

record admissionStreamWriter =
  sw_connect :: bool
  sw_wroteHeader :: bool
  sw_released :: bool

text \<open>\<open>ct\<close> is the Content-Type of the response headers at the call.\<close>

definition streamWriteHeader ::
    "string \<Rightarrow> int \<Rightarrow> admissionStreamWriter \<times> admissionState \<Rightarrow> admissionStreamWriter \<times> admissionState" where
  "streamWriteHeader ct code ws =
     (case ws of (w, st) \<Rightarrow>
        if \<not> sw_wroteHeader w \<and> (code = 101 \<or> code \<ge> 200) then
          (if code = 101 \<or> (sw_connect w \<and> code < 300) \<or> HasPrefix ct ''text/event-stream''
           then (w\<lparr>sw_wroteHeader := True, sw_released := True\<rparr>, st\<lparr>ad_inflight := ad_inflight st - 1\<rparr>)
           else (w\<lparr>sw_wroteHeader := True\<rparr>, st))
        else (w, st))"

definition streamWrite ::
    "string \<Rightarrow> admissionStreamWriter \<times> admissionState \<Rightarrow> admissionStreamWriter \<times> admissionState" where
  "streamWrite ct ws = (if \<not> sw_wroteHeader (fst ws) then streamWriteHeader ct 200 ws else ws)"

text \<open>What the wrapped handler does with the writer.\<close>

datatype streamCall = CallWriteHeader string int | CallWrite string

fun streamCallStep ::
    "streamCall \<Rightarrow> admissionStreamWriter \<times> admissionState \<Rightarrow> admissionStreamWriter \<times> admissionState" where
  "streamCallStep (CallWriteHeader ct code) ws = streamWriteHeader ct code ws"
| "streamCallStep (CallWrite ct) ws = streamWrite ct ws"

definition admit :: "httpRequest \<Rightarrow> streamCall list \<Rightarrow> duration \<Rightarrow> admissionState \<Rightarrow> admissionState" where
  "admit r calls elapsed st =
     (if \<not> admissionStreamCandidate r then admissionDone elapsed st
      else
        (case fold streamCallStep calls
                (\<lparr>sw_connect = (rq_Method r = ''CONNECT''), sw_wroteHeader = False, sw_released = False\<rparr>, st) of
           (w, st') \<Rightarrow> if \<not> sw_released w then admissionDone elapsed st' else st'))"

section \<open>The WAF bridge\<close>

definition SkipWAF ::
    "overloadRuntime option \<Rightarrow> int \<Rightarrow> httpRequest \<Rightarrow> bool \<Rightarrow> admissionState \<Rightarrow> bool \<times> admissionState" where
  "SkipWAF rto level r staticOnly st =
     (if level < 1 then (False, st)
      else case rto of
        None \<Rightarrow> (False, st)
      | Some rt \<Rightarrow>
          if \<not> or_wafEnforce rt \<and> \<not> or_wafObserve rt then (False, st)
          else if staticOnly \<and> \<not> wafSkippableStatic r then (False, st)
          else
            (let c = ad_counts st
             in if or_wafObserve rt
                then (False, st\<lparr>ad_counts := c\<lparr>oc_wafWouldSkip := oc_wafWouldSkip c + 1\<rparr>\<rparr>)
                else if staticOnly
                then (True, st\<lparr>ad_counts := c\<lparr>oc_wafSkippedStatic := oc_wafSkippedStatic c + 1\<rparr>\<rparr>)
                else (True, st\<lparr>ad_counts := c\<lparr>oc_wafSkippedDetect := oc_wafSkippedDetect c + 1\<rparr>\<rparr>)))"

section \<open>Who is shed first\<close>

text \<open>Limits for which the int64 arithmetic does not wrap.\<close>

definition sane :: "int \<Rightarrow> bool" where
  "sane n = (- (2 ^ 60) \<le> n \<and> n \<le> 2 ^ 60)"

lemma sane_i64:
  assumes "sane n"
  shows "i64 (n * 2) = n * 2" "i64 (n * 3) = n * 3"
    "0 \<le> n \<Longrightarrow> i64 (n + n sdiv 4) = n + n div 4"
proof -
  show "i64 (n * 2) = n * 2" "i64 (n * 3) = n * 3"
    using assms by (auto intro!: i64_id simp: sane_def min_i64_def max_i64_def)
  assume n: "0 \<le> n"
  then have "n sdiv 4 = n div 4" by (cases "n = 0") (simp_all add: signed_divide_int_def)
  then show "i64 (n + n sdiv 4) = n + n div 4"
    using assms n by (auto intro!: i64_id simp: sane_def min_i64_def max_i64_def)
qed

lemma p0_never_shed: "admissionShouldShed AdmitP0 inflight level limit hardLimit = (False, False)"
  by (simp add: admissionShouldShed_def)

text \<open>Whatever sheds a navigation also sheds other requests, and those also static assets.\<close>

lemma shed_order:
  assumes "sane inflight" "sane limit" "sane hardLimit" "0 \<le> inflight" "0 \<le> hardLimit"
  shows "fst (admissionShouldShed AdmitP1 inflight level limit hardLimit) \<Longrightarrow>
           fst (admissionShouldShed AdmitP2 inflight level limit hardLimit)"
    and "fst (admissionShouldShed AdmitP2 inflight level limit hardLimit) \<Longrightarrow>
           fst (admissionShouldShed AdmitP3 inflight level limit hardLimit)"
  using assms sane_i64 [of inflight] sane_i64 [of limit] sane_i64 [of hardLimit]
  by (auto simp: admissionShouldShed_def Let_def split: if_splits)

section \<open>The in-flight count\<close>

text \<open>One admitted request gives its slot back exactly once, stream or not.\<close>

definition slotHeld :: "admissionStreamWriter \<Rightarrow> int" where
  "slotHeld w = (if sw_released w then 0 else 1)"

lemma streamCall_slot:
  assumes "streamCallStep c (w, st) = (w', st')" and "sw_released w \<longrightarrow> sw_wroteHeader w"
  shows "ad_inflight st' - slotHeld w' = ad_inflight st - slotHeld w \<and> (sw_released w' \<longrightarrow> sw_wroteHeader w')"
  using assms
  by (cases c) (auto simp: streamWriteHeader_def streamWrite_def slotHeld_def split: if_splits)

lemma streamCalls_slot:
  "fold streamCallStep calls (w, st) = (w', st') \<Longrightarrow> sw_released w \<longrightarrow> sw_wroteHeader w \<Longrightarrow>
   ad_inflight st' - slotHeld w' = ad_inflight st - slotHeld w"
proof (induction calls arbitrary: w st)
  case (Cons c calls)
  obtain w1 st1 where one: "streamCallStep c (w, st) = (w1, st1)" by fastforce
  from streamCall_slot [OF one Cons.prems(2)] Cons.IH [of w1 st1] Cons.prems(1) one show ?case by simp
qed simp

lemma admit_releases_once: "ad_inflight (admit r calls elapsed st) = ad_inflight st - 1"
proof (cases "admissionStreamCandidate r")
  case True
  obtain w st' where run: "fold streamCallStep calls
      (\<lparr>sw_connect = (rq_Method r = ''CONNECT''), sw_wroteHeader = False, sw_released = False\<rparr>, st) = (w, st')"
    by fastforce
  from streamCalls_slot [OF run] True run show ?thesis
    by (auto simp: admit_def admissionDone_def slotHeld_def)
qed (simp add: admit_def admissionDone_def)

text \<open>
  Requests in any interleaving: some have entered and not decided yet, some are being served.
\<close>

record admissionRun =
  ar_st :: admissionState
  ar_entered :: "(httpRequest \<times> int) list"
  ar_active :: nat

inductive admission_step :: "overloadRuntime \<Rightarrow> admissionRun \<Rightarrow> admissionRun \<Rightarrow> bool"
  for rt :: overloadRuntime where
  enters: "enterAdmission (ar_st s) = (n, st) \<Longrightarrow>
      admission_step rt s (s\<lparr>ar_st := st, ar_entered := ar_entered s @ [(r, n)]\<rparr>)"
| decides: "ar_entered s = xs @ (r, n) # ys \<Longrightarrow>
      decideAdmission rt level r n (ar_st s) = (out, st) \<Longrightarrow>
      admission_step rt s (s\<lparr>ar_st := st, ar_entered := xs @ ys,
        ar_active := (if out = Admitted then Suc (ar_active s) else ar_active s)\<rparr>)"
| serves: "0 < ar_active s \<Longrightarrow>
      admission_step rt s (s\<lparr>ar_st := admit r calls elapsed (ar_st s), ar_active := ar_active s - 1\<rparr>)"
| samples: "admission_step rt s (s\<lparr>ar_st := (ar_st s)\<lparr>ad_limitNow := l, ad_hardCapHit := False\<rparr>\<rparr>)"

inductive admission_reach :: "overloadRuntime \<Rightarrow> admissionRun \<Rightarrow> admissionRun \<Rightarrow> bool"
  for rt :: overloadRuntime and s0 :: admissionRun where
  admission_start: "admission_reach rt s0 s0"
| admission_more: "admission_reach rt s0 s \<Longrightarrow> admission_step rt s s' \<Longrightarrow> admission_reach rt s0 s'"

lemma decide_inflight:
  "decideAdmission rt level r n st = (out, st') \<Longrightarrow>
   out \<noteq> Bypass \<and> ad_inflight st' = ad_inflight st - (if out = Shed then 1 else 0)"
  by (auto simp: decideAdmission_def Let_def split: if_splits prod.splits)

definition inflight_inv :: "admissionRun \<Rightarrow> bool" where
  "inflight_inv s = (ad_inflight (ar_st s) = int (length (ar_entered s)) + int (ar_active s))"

lemma admission_step_inv: "admission_step rt s s' \<Longrightarrow> inflight_inv s \<Longrightarrow> inflight_inv s'"
proof (induction rule: admission_step.induct)
  case (decides s xs r n ys level out st)
  then show ?case using decide_inflight [OF decides(2)]
    by (cases out) (auto simp: inflight_inv_def)
qed (auto simp: inflight_inv_def enterAdmission_def admit_releases_once)

lemma admission_reach_inv: "admission_reach rt s0 s \<Longrightarrow> inflight_inv s0 \<Longrightarrow> inflight_inv s"
  by (induction rule: admission_reach.induct) (auto intro: admission_step_inv)

section \<open>When the WAF is skipped\<close>

lemma skip_requires:
  assumes "SkipWAF rto level r staticOnly st = (True, st')"
  shows "1 \<le> level \<and> (\<exists>rt. rto = Some rt \<and> or_wafEnforce rt) \<and> (staticOnly \<longrightarrow> wafSkippableStatic r)"
  using assms by (auto simp: SkipWAF_def Let_def split: if_splits option.splits)

text \<open>Each skip, and each skip that observe mode only reports, is counted once.\<close>

definition skipTotal :: "overloadCounts \<Rightarrow> u64" where
  "skipTotal c = oc_wafSkippedDetect c + oc_wafSkippedStatic c"

lemma skip_counted:
  assumes "SkipWAF rto level r staticOnly st = (b, st')"
  shows "skipTotal (ad_counts st') = skipTotal (ad_counts st) + (if b then 1 else 0)
    \<and> oc_shed (ad_counts st') = oc_shed (ad_counts st) \<and> ad_inflight st' = ad_inflight st"
  using assms
  by (auto simp: SkipWAF_def skipTotal_def Let_def split: if_splits option.splits)

end
