(* ===== verification/Sampler.thy ===== *)
theory Sampler
  imports Admission
begin

text \<open>
  The overload sampler (overload.go \<open>sampleOnce\<close>, overload\_burst.go, overload\_signals.go, and
  the rate and latency models of admission.go).  Float64 operations are real operations
  rounded by \<open>rnd\<close>; no operation here divides by zero or overflows, so no NaN arises.  The
  readings of procfs and of the Go runtime are the fields of \<open>overloadSignals\<close>.
\<close>

section \<open>Durations as floats\<close>

definition Seconds :: "(real \<Rightarrow> real) \<Rightarrow> duration \<Rightarrow> real" where
  "Seconds rnd d =
     rnd (rnd (of_int (d sdiv Second)) + rnd (rnd (of_int (d smod Second)) / 1000000000))"

text \<open>Conversion of a float to an integer type truncates.\<close>

definition truncReal :: "real \<Rightarrow> int" where
  "truncReal x = (if x \<ge> 0 then \<lfloor>x\<rfloor> else \<lceil>x\<rceil>)"

text \<open>\<open>math.Round\<close>: half away from zero.\<close>

definition roundReal :: "real \<Rightarrow> int" where
  "roundReal x = (if x \<ge> 0 then \<lfloor>x + 1 / 2\<rfloor> else \<lceil>x - 1 / 2\<rceil>)"

section \<open>Signals\<close>

definition userHZ :: real where "userHZ = 100"

record cpuTimes =
  ct_user :: u64
  ct_nice :: u64
  ct_system :: u64
  ct_idle :: u64
  ct_iowait :: u64
  ct_irq :: u64
  ct_softirq :: u64
  ct_steal :: u64

definition cpuTotal :: "cpuTimes \<Rightarrow> u64" where
  "cpuTotal c = ct_user c + ct_nice c + ct_system c + ct_idle c + ct_iowait c + ct_irq c
     + ct_softirq c + ct_steal c"

definition cpuBusy :: "cpuTimes \<Rightarrow> u64" where
  "cpuBusy c = ct_user c + ct_nice c + ct_system c + ct_irq c + ct_softirq c"

definition firstLine :: "string \<Rightarrow> string" where
  "firstLine s = (case indexByte s (CHR 0x0A) of None \<Rightarrow> s | Some i \<Rightarrow> take i s)"

text \<open>The eight numbers, or \<open>None\<close> when one does not parse.\<close>

fun parseAll :: "string list \<Rightarrow> u64 list option" where
  "parseAll [] = Some []"
| "parseAll (f # fs) =
     (case ParseUint 64 f of
        None \<Rightarrow> None
      | Some n \<Rightarrow> map_option (\<lambda>ns. of_nat n # ns) (parseAll fs))"

definition parseProcStat :: "string \<Rightarrow> cpuTimes option" where
  "parseProcStat s =
     (let f = Fields (firstLine s)
      in if length f < 9 \<or> f ! 0 \<noteq> ''cpu'' then None
         else case parseAll (take 8 (drop 1 f)) of
                None \<Rightarrow> None
              | Some v \<Rightarrow> Some \<lparr>ct_user = v ! 0, ct_nice = v ! 1, ct_system = v ! 2, ct_idle = v ! 3,
                             ct_iowait = v ! 4, ct_irq = v ! 5, ct_softirq = v ! 6, ct_steal = v ! 7\<rparr>)"

definition stealAndBusy :: "(real \<Rightarrow> real) \<Rightarrow> cpuTimes \<Rightarrow> cpuTimes \<Rightarrow> real \<Rightarrow> (int \<times> real) option" where
  "stealAndBusy rnd prev cur dt =
     (let dTotal = cpuTotal cur - cpuTotal prev
      in if cpuTotal cur < cpuTotal prev \<or> dTotal = 0 \<or> dt \<le> 0 then None
         else
           (let dSteal = (if ct_steal cur < ct_steal prev then 0 else ct_steal cur - ct_steal prev);
                dBusy = (if cpuBusy cur < cpuBusy prev then 0 else cpuBusy cur - cpuBusy prev)
            in Some (sint (dSteal * 1000 div dTotal),
                     rnd (rnd (rnd (real (unat dBusy)) / userHZ) / dt))))"

fun cgroupLines :: "string list \<Rightarrow> u64 option" where
  "cgroupLines [] = None"
| "cgroupLines (line # ls) =
     (let f = Fields line
      in if length f = 2 \<and> f ! 0 = ''throttled_usec'' then map_option of_nat (ParseUint 64 (f ! 1))
         else cgroupLines ls)"

definition parseCgroupThrottled :: "string \<Rightarrow> u64 option" where
  "parseCgroupThrottled s = cgroupLines (splitOn (CHR 0x0A) s)"

text \<open>
  The percentile scan.  \<open>delta\<close> is the per-bucket growth; \<open>+Inf\<close> as the last bound is any
  number above \<open>1e9\<close>, which is how the code recognises it.
\<close>

definition histDelta :: "u64 list \<Rightarrow> u64 list \<Rightarrow> u64 list" where
  "histDelta prev cur = map2 (\<lambda>p c. if c \<ge> p then c - p else 0) prev cur"

fun p99Scan :: "(real \<Rightarrow> real) \<Rightarrow> u64 \<Rightarrow> u64 \<Rightarrow> nat \<Rightarrow> u64 list \<Rightarrow> real list \<Rightarrow> duration" where
  "p99Scan rnd target seen i [] buckets = 0"
| "p99Scan rnd target seen i (d # ds) buckets =
     (if seen + d \<ge> target
      then (let upper = buckets ! (i + 1)
            in truncReal (rnd ((if upper > 1000000000 then buckets ! i else upper) * 1000000000)))
      else p99Scan rnd target (seen + d) (i + 1) ds buckets)"

definition schedP99 :: "(real \<Rightarrow> real) \<Rightarrow> u64 list \<Rightarrow> u64 list \<Rightarrow> real list \<Rightarrow> duration" where
  "schedP99 rnd prev cur buckets =
     (if length prev \<noteq> length cur \<or> length buckets \<noteq> length cur + 1 then 0
      else
        (let delta = histDelta prev cur; tot = sum_list delta
         in if tot = 0 then 0
            else p99Scan rnd ((tot * 99 + 99) div 100) 0 0 delta buckets))"

type_synonym schedWindow = "u64 list list"

definition schedPush :: "(real \<Rightarrow> real) \<Rightarrow> u64 list \<Rightarrow> real list \<Rightarrow> schedWindow \<Rightarrow> duration \<times> schedWindow" where
  "schedPush rnd counts buckets w =
     (let w1 = w @ [counts]; w2 = (if length w1 > 11 then tl w1 else w1)
      in if length w2 < 2 then (0, w2) else (schedP99 rnd (hd w2) counts buckets, w2))"

section \<open>The burst balance\<close>

datatype burstState = BurstUncalibrated | BurstCalibrated | BurstUnthrottled

fun burstString :: "burstState \<Rightarrow> string" where
  "burstString BurstCalibrated = ''calibrated''"
| "burstString BurstUnthrottled = ''unthrottled''"
| "burstString BurstUncalibrated = ''uncalibrated''"

definition burstInitialPerVCPU :: real where "burstInitialPerVCPU = 50"
definition burstMaxPerVCPU :: real where "burstMaxPerVCPU = 500"
definition burstFreshUptimeS :: real where "burstFreshUptimeS = 120"
definition burstMaxGapS :: real where "burstMaxGapS = 10"
definition burstOnsetPermille :: int where "burstOnsetPermille = 200"
definition burstOnsetSamples :: int where "burstOnsetSamples = 3"

record burstModel =
  bm_vcpus :: real
  bm_state :: burstState
  bm_b :: real
  bm_last :: gotime
  bm_onset :: int
  bm_drainNoSteal :: real

definition newBurstModel :: "(real \<Rightarrow> real) \<Rightarrow> real \<Rightarrow> real \<Rightarrow> gotime \<Rightarrow> burstModel" where
  "newBurstModel rnd vcpus uptimeS now =
     (let m = \<lparr>bm_vcpus = vcpus, bm_state = BurstUncalibrated, bm_b = 0, bm_last = now, bm_onset = 0,
               bm_drainNoSteal = 0\<rparr>
      in if uptimeS \<ge> 0 \<and> uptimeS < burstFreshUptimeS
         then m\<lparr>bm_state := BurstCalibrated, bm_b := rnd (burstInitialPerVCPU * vcpus)\<rparr>
         else m)"

definition baseline :: "(real \<Rightarrow> real) \<Rightarrow> burstModel \<Rightarrow> real" where
  "baseline rnd m = rnd (bm_vcpus m / 16)"

definition ceilingOf :: "(real \<Rightarrow> real) \<Rightarrow> burstModel \<Rightarrow> real" where
  "ceilingOf rnd m = rnd (burstMaxPerVCPU * bm_vcpus m)"

text \<open>The drain without steal, and whether it proves the node unthrottled.\<close>

definition drainStep :: "(real \<Rightarrow> real) \<Rightarrow> real \<Rightarrow> real \<Rightarrow> int \<Rightarrow> burstModel \<Rightarrow> burstModel" where
  "drainStep rnd dt busy stealPermille m =
     (if stealPermille > 0 then m\<lparr>bm_drainNoSteal := 0\<rparr>
      else
        (let d0 = rnd (bm_drainNoSteal m + rnd (rnd (busy - baseline rnd m) * dt));
             d = (if d0 < 0 then 0 else d0);
             m' = m\<lparr>bm_drainNoSteal := d\<rparr>
         in if d > ceilingOf rnd m then m'\<lparr>bm_state := BurstUnthrottled\<rparr> else m'))"

definition balanceStep :: "(real \<Rightarrow> real) \<Rightarrow> real \<Rightarrow> real \<Rightarrow> burstModel \<Rightarrow> burstModel" where
  "balanceStep rnd dt busy m =
     (if bm_state m = BurstCalibrated then
        (let b0 = rnd (bm_b m + rnd (rnd (baseline rnd m - busy) * dt));
             b1 = (if b0 < 0 then 0 else b0)
         in m\<lparr>bm_b := (if b1 > ceilingOf rnd m then ceilingOf rnd m else b1)\<rparr>)
      else m)"

definition burstStep :: "(real \<Rightarrow> real) \<Rightarrow> gotime \<Rightarrow> real \<Rightarrow> int \<Rightarrow> burstModel \<Rightarrow> burstModel" where
  "burstStep rnd now busy stealPermille m0 =
     (let dt = Seconds rnd (time_Sub now (bm_last m0)); m = m0\<lparr>bm_last := now\<rparr>
      in if dt > burstMaxGapS
         then m\<lparr>bm_state := BurstUncalibrated, bm_b := 0, bm_onset := 0, bm_drainNoSteal := 0\<rparr>
         else if dt \<le> 0 then m
         else
           (let onset = (if stealPermille \<ge> burstOnsetPermille \<and> busy \<ge> baseline rnd m
                         then bm_onset m + 1 else 0);
                m1 = m\<lparr>bm_onset := onset\<rparr>
            in if onset \<ge> burstOnsetSamples
               then m1\<lparr>bm_state := BurstCalibrated, bm_b := 0, bm_drainNoSteal := 0\<rparr>
               else balanceStep rnd dt busy (drainStep rnd dt busy stealPermille m1)))"

definition tte :: "(real \<Rightarrow> real) \<Rightarrow> real \<Rightarrow> burstModel \<Rightarrow> real" where
  "tte rnd busy m =
     (if bm_state m \<noteq> BurstCalibrated \<or> busy \<le> baseline rnd m then -1
      else rnd (bm_b m / rnd (busy - baseline rnd m)))"

definition maxBurstEstS :: int where "maxBurstEstS = 1000000"

definition burstEstSeconds :: "real \<Rightarrow> int" where
  "burstEstSeconds t =
     (if t < 0 then -1 else if t \<ge> of_int maxBurstEstS then maxBurstEstS else truncReal t)"

section \<open>Rate, latency and limit\<close>

definition adaptiveLimit :: "(real \<Rightarrow> real) \<Rightarrow> real \<Rightarrow> duration \<Rightarrow> int \<Rightarrow> int \<Rightarrow> int" where
  "adaptiveLimit rnd completionsPerS target minLimit hardLimit =
     (let l0 = \<lceil>rnd (completionsPerS * Seconds rnd target)\<rceil>;
          l1 = (if l0 < minLimit then minLimit else l0)
      in if l1 > hardLimit then hardLimit else l1)"

record completionRate =
  cr_last :: u64
  cr_ewma :: real
  cr_peak :: real
  cr_started :: bool

definition completionSample ::
    "(real \<Rightarrow> real) \<Rightarrow> u64 \<Rightarrow> duration \<Rightarrow> completionRate \<Rightarrow> real \<times> completionRate" where
  "completionSample rnd total_n dt c =
     (if \<not> cr_started c \<or> dt \<le> 0 \<or> dt > 10 * Second
      then (max (cr_ewma c) (cr_peak c), c\<lparr>cr_last := total_n, cr_started := True\<rparr>)
      else
        (let inst = rnd (rnd (real (unat (total_n - cr_last c))) / Seconds rnd dt);
             alpha = rnd (1 - rnd (exp (rnd (- Seconds rnd dt / 10))));
             ewma = rnd (cr_ewma c + rnd (alpha * rnd (inst - cr_ewma c)));
             peak = max ewma (rnd (cr_peak c * rnd (exp (rnd (- Seconds rnd dt / 60)))))
         in (peak, c\<lparr>cr_last := total_n, cr_ewma := ewma, cr_peak := peak\<rparr>)))"

definition minLatencyTarget :: duration where "minLatencyTarget = Second"
definition maxLatencyTarget :: duration where "maxLatencyTarget = 10 * Second"

record latencyTarget =
  la_lastN :: u64
  la_lastNs :: u64
  la_normal :: real
  la_started :: bool

definition latencySample ::
    "(real \<Rightarrow> real) \<Rightarrow> u64 \<Rightarrow> u64 \<Rightarrow> duration \<Rightarrow> bool \<Rightarrow> latencyTarget \<Rightarrow> duration \<times> latencyTarget" where
  "latencySample rnd completions latencyNs dt normal l =
     (let dn = completions - la_lastN l; dns = latencyNs - la_lastNs l;
          good = (la_started l \<and> dt > 0 \<and> dt \<le> 10 * Second);
          mean = rnd (rnd (rnd (real (unat dns)) / rnd (real (unat dn))) / 1000000000);
          nrm = (if good \<and> normal \<and> dn \<ge> 20
                 then (if la_normal l = 0 then mean
                       else rnd (la_normal l + rnd (rnd (1 - rnd (exp (rnd (- Seconds rnd dt / 300))))
                                                    * rnd (mean - la_normal l))))
                 else la_normal l);
          t = truncReal (rnd (rnd (2 * nrm) * 1000000000))
      in (min (max t minLatencyTarget) maxLatencyTarget,
          \<lparr>la_lastN = completions, la_lastNs = latencyNs, la_normal = nrm, la_started = True\<rparr>))"

section \<open>One sample\<close>

record samplerState =
  sa_last :: gotime
  sa_prevStat :: "cpuTimes option"
  sa_prevThr :: "u64 option"
  sa_ewma :: "real option"
  sa_sched :: schedWindow
  sa_burst :: "burstModel option"
  sa_level :: levelState
  sa_busy :: real
  sa_completions :: completionRate
  sa_latency :: latencyTarget

definition zeroSampler :: samplerState where
  "zeroSampler = \<lparr>sa_last = 0, sa_prevStat = None, sa_prevThr = None, sa_ewma = None, sa_sched = [],
     sa_burst = None, sa_level = zeroLevel, sa_busy = 0,
     sa_completions = \<lparr>cr_last = 0, cr_ewma = 0, cr_peak = 0, cr_started = False\<rparr>,
     sa_latency = \<lparr>la_lastN = 0, la_lastNs = 0, la_normal = 0, la_started = False\<rparr>\<rparr>"

record overloadSignals =
  sg_procStat :: "cpuTimes option"
  sg_throttled :: "u64 option"
  sg_uptime :: "real option"
  sg_sched :: "(u64 list \<times> real list) option"
  sg_numCPU :: nat
  sg_gomaxprocs :: int

text \<open>The steal reading: the permille of this second and the busy cores.\<close>

definition readStat ::
    "(real \<Rightarrow> real) \<Rightarrow> bool \<Rightarrow> real \<Rightarrow> cpuTimes option \<Rightarrow> samplerState \<Rightarrow> int \<times> samplerState" where
  "readStat rnd gap dt reading s =
     (case reading of
        None \<Rightarrow> (0, s)
      | Some st \<Rightarrow>
          (case (case sa_prevStat s of
                   Some prev \<Rightarrow> if gap then None else stealAndBusy rnd prev st dt
                 | None \<Rightarrow> None) of
             None \<Rightarrow> (0, s\<lparr>sa_prevStat := Some st\<rparr>)
           | Some (steal, busy) \<Rightarrow> (steal, s\<lparr>sa_busy := busy, sa_prevStat := Some st\<rparr>)))"

definition readThrottle ::
    "(real \<Rightarrow> real) \<Rightarrow> bool \<Rightarrow> real \<Rightarrow> u64 option \<Rightarrow> int \<times> samplerState \<Rightarrow> int \<times> samplerState" where
  "readThrottle rnd gap dt reading ps =
     (case ps of (inst, s) \<Rightarrow>
        case reading of
          None \<Rightarrow> (inst, s)
        | Some thr \<Rightarrow>
            (let inst' = (case sa_prevThr s of
                 Some prev \<Rightarrow>
                   if \<not> gap \<and> dt > 0 \<and> thr \<ge> prev
                   then (let p = truncReal (rnd (min 1 (rnd (rnd (real (unat (thr - prev))) / rnd (dt * 1000000))) * 1000))
                         in if p > inst then p else inst)
                   else inst
               | None \<Rightarrow> inst)
             in (inst', s\<lparr>sa_prevThr := Some thr\<rparr>)))"

definition smoothThrottle :: "(real \<Rightarrow> real) \<Rightarrow> bool \<Rightarrow> real \<Rightarrow> int \<Rightarrow> samplerState \<Rightarrow> samplerState" where
  "smoothThrottle rnd gap dt inst s =
     (case sa_ewma s of
        None \<Rightarrow> s\<lparr>sa_ewma := Some (rnd (of_int inst))\<rparr>
      | Some e \<Rightarrow>
          if gap then s\<lparr>sa_ewma := Some (rnd (of_int inst))\<rparr>
          else if dt > 0
          then s\<lparr>sa_ewma := Some (rnd (e + rnd (rnd (1 - rnd (exp (rnd (- dt / 10)))) * rnd (rnd (of_int inst) - e))))\<rparr>
          else s)"

text \<open>The signals of one sample: the seconds since the last one and the throttle permille.\<close>

definition readSignals ::
    "(real \<Rightarrow> real) \<Rightarrow> gotime \<Rightarrow> overloadSignals \<Rightarrow> samplerState \<Rightarrow> real \<times> int \<times> samplerState" where
  "readSignals rnd now sig s =
     (let dt = (if IsZero (sa_last s) then 0 else Seconds rnd (time_Sub now (sa_last s)));
          gap = (dt > 10)
      in case readThrottle rnd gap dt (sg_throttled sig)
                (readStat rnd gap dt (sg_procStat sig) (s\<lparr>sa_last := now\<rparr>)) of
           (inst, s1) \<Rightarrow> (dt, inst, smoothThrottle rnd gap dt inst s1))"

definition readSched :: "(real \<Rightarrow> real) \<Rightarrow> overloadSignals \<Rightarrow> samplerState \<Rightarrow> duration \<times> samplerState" where
  "readSched rnd sig s =
     (case sg_sched sig of
        None \<Rightarrow> (0, s)
      | Some (counts, buckets) \<Rightarrow>
          (case schedPush rnd counts buckets (sa_sched s) of (d, win) \<Rightarrow> (d, s\<lparr>sa_sched := win\<rparr>)))"

definition advanceBurst ::
    "(real \<Rightarrow> real) \<Rightarrow> gotime \<Rightarrow> overloadSignals \<Rightarrow> int \<Rightarrow> samplerState \<Rightarrow> burstModel" where
  "advanceBurst rnd now sig inst s =
     (case sa_burst s of
        None \<Rightarrow> newBurstModel rnd (rnd (real (sg_numCPU sig)))
                  (case sg_uptime sig of None \<Rightarrow> -1 | Some up \<Rightarrow> up) now
      | Some m \<Rightarrow> burstStep rnd now (sa_busy s) inst m)"

text \<open>The limit admission applies until the next sample.\<close>

definition sampleLimit ::
    "(real \<Rightarrow> real) \<Rightarrow> real \<Rightarrow> overloadRuntime \<Rightarrow> admissionState \<Rightarrow> samplerState \<Rightarrow> int \<times> samplerState" where
  "sampleLimit rnd dt rt ad s =
     (let sdt = truncReal (rnd (dt * 1000000000));
          level = st_level (sa_level s)
      in case completionSample rnd (ad_completions ad) sdt (sa_completions s) of
           (rate, cr) \<Rightarrow>
         (case latencySample rnd (ad_completions ad) (ad_latencyNs ad) sdt (level = 0) (sa_latency s) of
            (target, lat) \<Rightarrow>
              (if level \<ge> 2 \<and> or_admissionLive rt
               then adaptiveLimit rnd rate target (or_minLimit rt) (or_hardLimit rt) else 0,
               s\<lparr>sa_completions := cr, sa_latency := lat\<rparr>)))"

text \<open>The state the sample reads and publishes: level, admission atomics, node states.\<close>

record sampleWorld =
  wo_cfg :: "overloadRuntime option"
  wo_level :: int
  wo_admission :: admissionState
  wo_nodeStates :: nodeStateAccumulator

definition sampleOnce ::
    "(real \<Rightarrow> real) \<Rightarrow> gotime \<Rightarrow> u32 \<Rightarrow> overloadSignals \<Rightarrow> samplerState \<times> sampleWorld
     \<Rightarrow> samplerState \<times> sampleWorld" where
  "sampleOnce rnd now minute sig sw =
     (case sw of (s0, w) \<Rightarrow>
        case wo_cfg w of
          None \<Rightarrow> (zeroSampler, w\<lparr>wo_level := 0, wo_nodeStates := resetNodeStates (wo_nodeStates w)\<rparr>)
        | Some rt \<Rightarrow>
            (let ad = wo_admission w;
                 (dt, inst, s1) = readSignals rnd now sig s0;
                 (sched, s2) = readSched rnd sig s1;
                 burst = advanceBurst rnd now sig inst s2;
                 t = tte rnd (sa_busy s2) burst;
                 lev = nextLevel (sa_level s2)
                   \<lparr>ls_throttlePermille = roundReal (the (sa_ewma s2)), ls_schedP99 = sched, ls_tte = t,
                    ls_hardCap = ad_hardCapHit ad\<rparr> now (or_thresholds rt);
                 (limit, s3) = sampleLimit rnd dt rt ad (s2\<lparr>sa_burst := Some burst, sa_level := lev\<rparr>);
                 sample = \<lparr>ss_level = st_level lev, ss_reasons = st_reasons lev, ss_schedUs = sched sdiv 1000,
                    ss_burstEstS = burstEstSeconds t, ss_burstModel = burstString (bm_state burst),
                    ss_inflight = ad_inflight ad, ss_admissionLimit = limit, ss_gomaxprocs = sg_gomaxprocs sig\<rparr>
             in (s3,
                 w\<lparr>wo_level := st_level lev, wo_admission := ad\<lparr>ad_hardCapHit := False, ad_limitNow := limit\<rparr>,
                   wo_nodeStates := observe minute (snapshotOverloadCounts (ad_counts ad)) sample
                      (wo_nodeStates w)\<rparr>)))"

end
