(* ===== verification/Sampler_Props.thy ===== *)
theory Sampler_Props
  imports Sampler Overload_Props
begin

text \<open>
  Correctness of the sampler: the burst balance stays between empty and full, the reported
  estimates and targets stay in range, the scheduling percentile is the least bucket that
  covers 99 percent, and a sample publishes a valid level and a limit within its bounds.
\<close>

section \<open>The burst balance\<close>

definition burst_ok :: "(real \<Rightarrow> real) \<Rightarrow> burstModel \<Rightarrow> bool" where
  "burst_ok rnd m = (0 \<le> bm_vcpus m \<and> 0 \<le> bm_b m \<and> bm_b m \<le> ceilingOf rnd m \<and> 0 \<le> bm_drainNoSteal m)"

lemma rounds_mono: "rounds rnd \<Longrightarrow> x \<le> y \<Longrightarrow> rnd x \<le> rnd y"
  by (simp add: rounds_def)

lemma rounds_nonneg: "rounds rnd \<Longrightarrow> 0 \<le> x \<Longrightarrow> 0 \<le> rnd x"
  using rounds_mono [of rnd 0 x] by (simp add: rounds_def)

lemma ceilingOf_update [simp]:
  "ceilingOf rnd (m\<lparr>bm_last := t\<rparr>) = ceilingOf rnd m" "ceilingOf rnd (m\<lparr>bm_onset := n\<rparr>) = ceilingOf rnd m"
  "ceilingOf rnd (m\<lparr>bm_b := b\<rparr>) = ceilingOf rnd m" "ceilingOf rnd (m\<lparr>bm_state := st\<rparr>) = ceilingOf rnd m"
  "ceilingOf rnd (m\<lparr>bm_drainNoSteal := d\<rparr>) = ceilingOf rnd m"
  by (simp_all add: ceilingOf_def)

lemma ceilingOf_nonneg: "rounds rnd \<Longrightarrow> 0 \<le> bm_vcpus m \<Longrightarrow> 0 \<le> ceilingOf rnd m"
  unfolding ceilingOf_def burstMaxPerVCPU_def by (erule rounds_nonneg) simp

lemma newBurstModel_ok:
  assumes "rounds rnd" and "0 \<le> vcpus"
  shows "burst_ok rnd (newBurstModel rnd vcpus uptime now)"
proof -
  have "50 * vcpus \<le> 500 * vcpus" "0 \<le> 50 * vcpus" "0 \<le> 500 * vcpus" using assms(2) by simp_all
  then have "rnd (50 * vcpus) \<le> rnd (500 * vcpus)" "0 \<le> rnd (50 * vcpus)" "0 \<le> rnd (500 * vcpus)"
    using rounds_mono [OF assms(1)] rounds_nonneg [OF assms(1)] by blast+
  then show ?thesis using assms(2)
    by (simp add: newBurstModel_def burst_ok_def ceilingOf_def burstInitialPerVCPU_def
        burstMaxPerVCPU_def Let_def)
qed

lemma drainStep_ok: "burst_ok rnd m \<Longrightarrow> burst_ok rnd (drainStep rnd dt busy steal m)"
  by (simp add: drainStep_def burst_ok_def Let_def)

lemma balanceStep_ok: "rounds rnd \<Longrightarrow> burst_ok rnd m \<Longrightarrow> burst_ok rnd (balanceStep rnd dt busy m)"
  using ceilingOf_nonneg [of rnd m] by (auto simp: balanceStep_def burst_ok_def Let_def)

lemma burstStep_ok:
  assumes "rounds rnd" and "burst_ok rnd m"
  shows "burst_ok rnd (burstStep rnd now busy steal m)"
proof -
  have upd: "burst_ok rnd (m\<lparr>bm_last := now, bm_onset := n\<rparr>)" "burst_ok rnd (m\<lparr>bm_last := now\<rparr>)" for n
    using assms(2) by (simp_all add: burst_ok_def)
  have "0 \<le> bm_vcpus m" using assms(2) by (simp add: burst_ok_def)
  then have "0 \<le> ceilingOf rnd m" by (rule ceilingOf_nonneg [OF assms(1)])
  with upd show ?thesis using assms(2) balanceStep_ok [OF assms(1) drainStep_ok [OF upd(1)]]
    by (simp add: burstStep_def Let_def burst_ok_def)
qed

lemma tte_range:
  assumes "rounds rnd" and "burst_ok rnd m"
  shows "tte rnd busy m = -1 \<or> 0 \<le> tte rnd busy m"
proof (cases "bm_state m \<noteq> BurstCalibrated \<or> busy \<le> baseline rnd m")
  case False
  then have "0 \<le> busy - baseline rnd m" by simp
  then have "0 \<le> rnd (busy - baseline rnd m)" by (rule rounds_nonneg [OF assms(1)])
  then have "0 \<le> bm_b m / rnd (busy - baseline rnd m)" using assms(2) by (simp add: burst_ok_def)
  from rounds_nonneg [OF assms(1) this] False show ?thesis by (simp add: tte_def)
qed (simp add: tte_def)

lemma burstEst_range: "burstEstSeconds t = -1 \<or> 0 \<le> burstEstSeconds t \<and> burstEstSeconds t \<le> maxBurstEstS"
proof (cases "t < 0 \<or> t \<ge> of_int maxBurstEstS")
  case False
  then have "0 \<le> \<lfloor>t\<rfloor>" "\<lfloor>t\<rfloor> \<le> maxBurstEstS" by linarith+
  then show ?thesis using False by (simp add: burstEstSeconds_def truncReal_def)
qed (auto simp: burstEstSeconds_def maxBurstEstS_def)

section \<open>Targets and limits\<close>

lemma clamp_target:
  "minLatencyTarget \<le> min (max t minLatencyTarget) maxLatencyTarget
   \<and> min (max t minLatencyTarget) maxLatencyTarget \<le> maxLatencyTarget"
  by (simp add: minLatencyTarget_def maxLatencyTarget_def)

lemma latencySample_range:
  "latencySample rnd n ns dt normal l = (t, l') \<Longrightarrow> minLatencyTarget \<le> t \<and> t \<le> maxLatencyTarget"
  unfolding latencySample_def Let_def prod.inject by (elim conjE, erule subst) (rule clamp_target)

lemma adaptiveLimit_range:
  "minL \<le> hardL \<Longrightarrow> minL \<le> adaptiveLimit rnd rate t minL hardL \<and> adaptiveLimit rnd rate t minL hardL \<le> hardL"
  by (simp add: adaptiveLimit_def Let_def)

section \<open>The scheduling percentile\<close>

definition upTo :: "nat \<Rightarrow> u64 list \<Rightarrow> nat" where
  "upTo k ds = sum_list (map unat (take k ds))"

lemma upTo_simps [simp]: "upTo 0 ds = 0" "upTo (Suc k) (d # ds) = unat d + upTo k ds"
  by (simp_all add: upTo_def)

definition bucketTime :: "(real \<Rightarrow> real) \<Rightarrow> real list \<Rightarrow> nat \<Rightarrow> duration" where
  "bucketTime rnd buckets k =
     truncReal (rnd ((if buckets ! (k + 1) > 1000000000 then buckets ! k else buckets ! (k + 1)) * 1000000000))"

lemma p99Scan_first:
  assumes "unat seen + upTo (length ds) ds < 2 ^ 64" and "unat target \<le> unat seen + upTo (length ds) ds"
    and "unat seen < unat target"
  shows "\<exists>k < length ds. unat target \<le> unat seen + upTo (Suc k) ds
    \<and> (\<forall>j < k. unat seen + upTo (Suc j) ds < unat target)
    \<and> p99Scan rnd target seen i ds buckets = bucketTime rnd buckets (i + k)"
  using assms
proof (induction ds arbitrary: seen i)
  case Nil
  then show ?case by simp
next
  case (Cons d ds)
  have add: "unat (seen + d) = unat seen + unat d" using Cons.prems(1) by (simp add: unat_word_ariths)
  show ?case
  proof (cases "seen + d \<ge> target")
    case True
    then have "unat target \<le> unat seen + unat d" by (simp add: word_le_nat_alt add)
    then show ?thesis using True by (intro exI [of _ 0]) (simp add: bucketTime_def Let_def)
  next
    case False
    then have lt: "unat (seen + d) < unat target" by (simp add: word_le_nat_alt)
    have "\<exists>k < length ds. unat target \<le> unat (seen + d) + upTo (Suc k) ds
        \<and> (\<forall>j < k. unat (seen + d) + upTo (Suc j) ds < unat target)
        \<and> p99Scan rnd target (seen + d) (i + 1) ds buckets = bucketTime rnd buckets (i + 1 + k)"
      using Cons.prems lt by (intro Cons.IH) (simp_all add: add)
    then obtain k where k: "k < length ds" "unat target \<le> unat (seen + d) + upTo (Suc k) ds"
      "\<forall>j < k. unat (seen + d) + upTo (Suc j) ds < unat target"
      "p99Scan rnd target (seen + d) (i + 1) ds buckets = bucketTime rnd buckets (i + 1 + k)" by blast
    have "\<forall>j < Suc k. unat seen + upTo (Suc j) (d # ds) < unat target"
      using k(3) lt by (auto simp: add less_Suc_eq_0_disj)
    then show ?thesis using k(1,2,4) False by (intro exI [of _ "Suc k"]) (simp add: add)
  qed
qed

lemma unat_sum_list:
  "upTo (length ds) ds < 2 ^ 64 \<Longrightarrow> unat (sum_list ds) = upTo (length ds) ds"
  by (induction ds) (simp_all add: upTo_def unat_word_ariths)

theorem schedP99_least:
  assumes "length prev = length cur" and "length buckets = length cur + 1"
    and "0 < upTo (length cur) (histDelta prev cur)" and "upTo (length cur) (histDelta prev cur) < 2 ^ 57"
  shows "\<exists>k < length cur. schedP99 rnd prev cur buckets = bucketTime rnd buckets k
    \<and> 99 * upTo (length cur) (histDelta prev cur) \<le> 100 * upTo (Suc k) (histDelta prev cur)
    \<and> (\<forall>j < k. 100 * upTo (Suc j) (histDelta prev cur) < 99 * upTo (length cur) (histDelta prev cur))"
proof -
  define ds where "ds = histDelta prev cur"
  define T where "T = upTo (length cur) ds"
  have len: "length ds = length cur" using assms(1) by (simp add: ds_def histDelta_def)
  have T: "0 < T" "T < 2 ^ 57" using assms(3,4) by (simp_all add: T_def ds_def)
  have tot: "unat (sum_list ds) = T" using unat_sum_list [of ds] T len by (simp add: T_def)
  then have nz: "sum_list ds \<noteq> 0" using T(1) by auto
  define tgt where "tgt = (sum_list ds * 99 + 99) div 100"
  have "unat (sum_list ds * 99 + 99) = T * 99 + 99"
    using T(2) by (simp add: unat_word_ariths tot)
  then have tgt: "unat tgt = (T * 99 + 99) div 100" by (simp add: tgt_def unat_div)
  have "\<exists>k < length ds. unat tgt \<le> unat (0 :: u64) + upTo (Suc k) ds
      \<and> (\<forall>j < k. unat (0 :: u64) + upTo (Suc j) ds < unat tgt)
      \<and> p99Scan rnd tgt 0 0 ds buckets = bucketTime rnd buckets (0 + k)"
    using T by (intro p99Scan_first) (simp_all add: len tgt T_def [symmetric])
  moreover have "schedP99 rnd prev cur buckets = p99Scan rnd tgt 0 0 ds buckets"
    using assms(1,2) nz by (simp add: schedP99_def ds_def [symmetric] tgt_def Let_def)
  moreover have "unat tgt \<le> n \<longleftrightarrow> 99 * T \<le> 100 * n" for n unfolding tgt by auto
  ultimately show ?thesis unfolding ds_def [symmetric] T_def [symmetric] len
    by (metis not_le add.left_neutral unat_0)
qed

lemma schedPush_window:
  "length w \<le> 11 \<Longrightarrow> schedPush rnd counts buckets w = (d, w') \<Longrightarrow> length w' \<le> 11 \<and> last w' = counts"
  by (cases w) (auto simp: schedPush_def Let_def split: if_splits)

section \<open>One sample\<close>

definition sampler_ok :: "(real \<Rightarrow> real) \<Rightarrow> samplerState \<Rightarrow> bool" where
  "sampler_ok rnd s =
     (st_level (sa_level s) \<in> {0, 1, 2} \<and> length (sa_sched s) \<le> 11
      \<and> (case sa_burst s of None \<Rightarrow> True | Some m \<Rightarrow> burst_ok rnd m))"

definition published_ok :: "sampleWorld \<Rightarrow> bool" where
  "published_ok w =
     (wo_level w \<in> {0, 1, 2}
      \<and> (ad_limitNow (wo_admission w) = 0
         \<or> (\<exists>rt. wo_cfg w = Some rt \<and> wo_level w = 2 \<and> or_admissionLive rt
              \<and> or_minLimit rt \<le> ad_limitNow (wo_admission w)
              \<and> ad_limitNow (wo_admission w) \<le> or_hardLimit rt)))"

lemma readStat_frame:
  "readStat rnd gap dt reading s = (p, s') \<Longrightarrow>
   sa_sched s' = sa_sched s \<and> sa_burst s' = sa_burst s \<and> sa_level s' = sa_level s"
  by (auto simp: readStat_def split: option.splits prod.splits if_splits)

lemma readThrottle_frame:
  "readThrottle rnd gap dt reading (p, s) = (p', s') \<Longrightarrow>
   sa_sched s' = sa_sched s \<and> sa_burst s' = sa_burst s \<and> sa_level s' = sa_level s"
  by (auto simp: readThrottle_def Let_def split: option.splits)

lemma smoothThrottle_frame [simp]:
  "sa_sched (smoothThrottle rnd gap dt p s) = sa_sched s"
  "sa_burst (smoothThrottle rnd gap dt p s) = sa_burst s"
  "sa_level (smoothThrottle rnd gap dt p s) = sa_level s"
  by (simp_all add: smoothThrottle_def split: option.split)

lemma nextLevel_range: "st_level st \<in> {0, 1, 2} \<Longrightarrow> st_level (nextLevel st s now th) \<in> {0, 1, 2}"
  by (cases rule: nextLevel_level [of st s now th]) auto

lemma readSignals_frame:
  assumes "readSignals rnd now sig s = (dt, inst, s')"
  shows "sa_sched s' = sa_sched s \<and> sa_burst s' = sa_burst s \<and> sa_level s' = sa_level s"
proof -
  define dt0 where "dt0 = (if IsZero (sa_last s) then 0 else Seconds rnd (time_Sub now (sa_last s)))"
  define gap where "gap = (dt0 > 10)"
  obtain p0 s0 where r0: "readStat rnd gap dt0 (sg_procStat sig) (s\<lparr>sa_last := now\<rparr>) = (p0, s0)"
    by fastforce
  obtain p1 s1 where r1: "readThrottle rnd gap dt0 (sg_throttled sig) (p0, s0) = (p1, s1)" by fastforce
  have "s' = smoothThrottle rnd gap dt0 p1 s1"
    using assms unfolding readSignals_def Let_def dt0_def [symmetric] gap_def [symmetric] r0 r1
    by auto
  then show ?thesis using readStat_frame [OF r0] readThrottle_frame [OF r1] by simp
qed

lemma readSched_ok:
  assumes "length (sa_sched s) \<le> 11" and "readSched rnd sig s = (d, s')"
  shows "length (sa_sched s') \<le> 11 \<and> sa_burst s' = sa_burst s \<and> sa_level s' = sa_level s"
  using assms schedPush_window [OF assms(1)]
  by (auto simp: readSched_def split: option.splits prod.splits)

lemma advanceBurst_ok:
  assumes "rounds rnd" and "case sa_burst s of None \<Rightarrow> True | Some m \<Rightarrow> burst_ok rnd m"
  shows "burst_ok rnd (advanceBurst rnd now sig inst s)"
proof (cases "sa_burst s")
  case None
  have "0 \<le> rnd (real (sg_numCPU sig))" by (rule rounds_nonneg [OF assms(1)]) simp
  from newBurstModel_ok [OF assms(1) this] show ?thesis by (simp add: advanceBurst_def None)
next
  case (Some m)
  with burstStep_ok [OF assms(1)] assms(2) show ?thesis by (simp add: advanceBurst_def)
qed

lemma sampleLimit_ok:
  assumes "or_minLimit rt \<le> or_hardLimit rt" and "sampleLimit rnd dt rt ad s = (limit, s')"
  shows "(limit = 0 \<or> 2 \<le> st_level (sa_level s) \<and> or_admissionLive rt
           \<and> or_minLimit rt \<le> limit \<and> limit \<le> or_hardLimit rt)
    \<and> sa_sched s' = sa_sched s \<and> sa_burst s' = sa_burst s \<and> sa_level s' = sa_level s"
  using assms(2) adaptiveLimit_range [OF assms(1)]
  by (auto simp: sampleLimit_def Let_def split: prod.splits if_splits)

lemma sampleOnce_disabled:
  assumes "wo_cfg w = None"
  shows "sampleOnce rnd now minute sig (s, w) =
    (zeroSampler, w\<lparr>wo_level := 0, wo_nodeStates := resetNodeStates (wo_nodeStates w)\<rparr>)"
  using assms by (simp add: sampleOnce_def)

theorem sampleOnce_ok:
  assumes "rounds rnd" and "sampler_ok rnd s" and "wo_cfg w = Some rt"
    and "or_minLimit rt \<le> or_hardLimit rt" and "sampleOnce rnd now minute sig (s, w) = (s', w')"
  shows "sampler_ok rnd s' \<and> published_ok w' \<and> wo_level w' = st_level (sa_level s')
    \<and> \<not> ad_hardCapHit (wo_admission w') \<and> wo_cfg w' = wo_cfg w"
proof -
  obtain dt inst s1 where r: "readSignals rnd now sig s = (dt, inst, s1)" by (cases "readSignals rnd now sig s")
  obtain sched s2 where rs: "readSched rnd sig s1 = (sched, s2)" by fastforce
  define burst where "burst = advanceBurst rnd now sig inst s2"
  define lev where "lev = nextLevel (sa_level s2)
     \<lparr>ls_throttlePermille = roundReal (the (sa_ewma s2)), ls_schedP99 = sched,
      ls_tte = tte rnd (sa_busy s2) burst, ls_hardCap = ad_hardCapHit (wo_admission w)\<rparr> now (or_thresholds rt)"
  obtain limit s3 where sl: "sampleLimit rnd dt rt (wo_admission w)
      (s2\<lparr>sa_burst := Some burst, sa_level := lev\<rparr>) = (limit, s3)" by fastforce
  have s1: "length (sa_sched s1) \<le> 11" "sa_level s1 = sa_level s" "sa_burst s1 = sa_burst s"
    using readSignals_frame [OF r] assms(2) by (simp_all add: sampler_ok_def)
  note s2 = readSched_ok [OF s1(1) rs]
  have bok: "burst_ok rnd burst" unfolding burst_def
    using advanceBurst_ok [OF assms(1)] assms(2) s1 s2 by (simp add: sampler_ok_def)
  have lev: "st_level lev \<in> {0, 1, 2}"
    using assms(2) s1 s2 unfolding lev_def by (intro nextLevel_range) (simp add: sampler_ok_def)
  note s3 = sampleLimit_ok [OF assms(4) sl]
  have w': "s' = s3" "wo_level w' = st_level lev" "wo_cfg w' = Some rt"
      "wo_admission w' = (wo_admission w)\<lparr>ad_hardCapHit := False, ad_limitNow := limit\<rparr>"
    using assms(3,5) by (auto simp: sampleOnce_def r rs sl Let_def burst_def [symmetric] lev_def [symmetric])
  have "published_ok w'" using lev s3 by (auto simp: published_ok_def w')
  then show ?thesis using bok lev s2 s3 assms(3) by (simp add: sampler_ok_def w')
qed

end
