(* ===== verification/Sampler_Life.thy ===== *)
theory Sampler_Life
  imports Sampler_Props
begin

text \<open>
  The sampler goroutines across starts and stops of apps (overload.go: \<open>overloadRetain\<close>,
  \<open>overloadRelease\<close>, \<open>sampleLoop\<close>, \<open>samplerRunning\<close>).  Owners come and go under the controller's
  mutex; a first owner waits for the previous sampler with the mutex held, while that sampler
  still takes its steps.  A sample loads the configuration in one step and publishes in a later
  one, so a release can fall in between.
\<close>

section \<open>State\<close>

text \<open>
  Where a sampler is: not launched, before it resets \<open>c.sampler\<close>, at the start of a sample, inside
  a sample that has loaded a configuration, in the \<open>select\<close>, returned.
\<close>

datatype samplerPC =
    Unborn | Launched | AtSample | Sampling "overloadRuntime option" | Selecting | Gone

text \<open>
  \<open>sr_launched\<close> counts the samplers so far; the channels \<open>c.stop\<close> and \<open>c.done\<close> are those of the
  newest one.  \<open>sr_stopped\<close> is which \<open>stop\<close> channels are closed, \<open>sr_waiting\<close> a first owner inside
  \<open>overloadRetain\<close>.
\<close>

record samplerRun =
  sr_ctl :: overloadController
  sr_state :: samplerState
  sr_admission :: admissionState
  sr_nodeStates :: nodeStateAccumulator
  sr_launched :: nat
  sr_pc :: "nat \<Rightarrow> samplerPC"
  sr_stopped :: "nat \<Rightarrow> bool"
  sr_waiting :: bool

definition initSamplerRun :: "admissionState \<Rightarrow> samplerRun" where
  "initSamplerRun ad =
     \<lparr>sr_ctl = initController, sr_state = zeroSampler, sr_admission = ad,
      sr_nodeStates = \<lparr>ns_cur = None, ns_base = [], ns_ready = []\<rparr>, sr_launched = 0,
      sr_pc = (\<lambda>_. Unborn), sr_stopped = (\<lambda>_. False), sr_waiting = False\<rparr>"

section \<open>Actions\<close>

text \<open>\<open>overloadRetain\<close> up to the test of \<open>c.done\<close>; a first owner goes on with \<open>launchSampler\<close>.\<close>

definition retainOwner ::
    "(real \<Rightarrow> real) \<Rightarrow> u64 \<Rightarrow> OverloadConfig option \<Rightarrow> samplerRun \<Rightarrow> samplerRun" where
  "retainOwner rnd mem cfg s =
     s\<lparr>sr_ctl := snd (overloadRetain rnd mem cfg (sr_ctl s)), sr_waiting := (oc_owners (sr_ctl s) = [])\<rparr>"

text \<open>Whether \<open>c.done\<close> is nil or closed, so that \<open><-c.done\<close> does not block.\<close>

definition samplerDone :: "samplerRun \<Rightarrow> bool" where
  "samplerDone s = (sr_launched s = 0 \<or> sr_pc s (sr_launched s - 1) = Gone)"

definition launchSampler :: "samplerRun \<Rightarrow> samplerRun" where
  "launchSampler s =
     s\<lparr>sr_pc := (sr_pc s)(sr_launched s := Launched), sr_launched := Suc (sr_launched s), sr_waiting := False\<rparr>"

definition releaseOwner :: "(real \<Rightarrow> real) \<Rightarrow> u64 \<Rightarrow> overloadOwner \<Rightarrow> samplerRun \<Rightarrow> samplerRun" where
  "releaseOwner rnd mem own s =
     (let c = overloadRelease rnd mem own (sr_ctl s)
      in s\<lparr>sr_ctl := c,
           sr_stopped := (if oc_owners (sr_ctl s) \<noteq> [] \<and> oc_owners c = []
                          then (sr_stopped s)(sr_launched s - 1 := True) else sr_stopped s)\<rparr>)"

definition samplerRunning :: "samplerRun \<Rightarrow> bool" where
  "samplerRunning s = (oc_owners (sr_ctl s) \<noteq> [] \<and> sr_launched s \<noteq> 0 \<and> sr_pc s (sr_launched s - 1) \<noteq> Gone)"

text \<open>The rest of a sample, with the configuration it loaded.\<close>

definition publishSample ::
    "(real \<Rightarrow> real) \<Rightarrow> gotime \<Rightarrow> u32 \<Rightarrow> overloadSignals \<Rightarrow> overloadRuntime option \<Rightarrow> samplerRun \<Rightarrow> samplerRun" where
  "publishSample rnd now minute sig cfg s =
     (case sampleOnce rnd now minute sig
             (sr_state s, \<lparr>wo_cfg = cfg, wo_level = oc_level (sr_ctl s), wo_admission = sr_admission s,
                           wo_nodeStates = sr_nodeStates s\<rparr>) of
        (st, w) \<Rightarrow> s\<lparr>sr_state := st, sr_ctl := (sr_ctl s)\<lparr>oc_level := wo_level w\<rparr>,
                     sr_admission := wo_admission w, sr_nodeStates := wo_nodeStates w\<rparr>)"

section \<open>Steps\<close>

inductive sampler_step :: "(real \<Rightarrow> real) \<Rightarrow> u64 \<Rightarrow> samplerRun \<Rightarrow> samplerRun \<Rightarrow> bool"
  for rnd :: "real \<Rightarrow> real" and mem :: u64 where
  retain: "\<not> sr_waiting s \<Longrightarrow> sampler_step rnd mem s (retainOwner rnd mem cfg s)"
| launch: "sr_waiting s \<Longrightarrow> samplerDone s \<Longrightarrow> sampler_step rnd mem s (launchSampler s)"
| release_owner: "\<not> sr_waiting s \<Longrightarrow> sampler_step rnd mem s (releaseOwner rnd mem own s)"
| reset_state: "sr_pc s k = Launched \<Longrightarrow>
      sampler_step rnd mem s (s\<lparr>sr_state := zeroSampler, sr_pc := (sr_pc s)(k := AtSample)\<rparr>)"
| load_cfg: "sr_pc s k = AtSample \<Longrightarrow>
      sampler_step rnd mem s (s\<lparr>sr_pc := (sr_pc s)(k := Sampling (oc_cfg (sr_ctl s)))\<rparr>)"
| publish: "sr_pc s k = Sampling cfg \<Longrightarrow>
      sampler_step rnd mem s
        ((publishSample rnd now minute sig cfg s)\<lparr>sr_pc := (sr_pc s)(k := Selecting)\<rparr>)"
| ticked: "sr_pc s k = Selecting \<Longrightarrow> sampler_step rnd mem s (s\<lparr>sr_pc := (sr_pc s)(k := AtSample)\<rparr>)"
| stop_seen: "sr_pc s k = Selecting \<Longrightarrow> sr_stopped s k \<Longrightarrow>
      sampler_step rnd mem s (s\<lparr>sr_pc := (sr_pc s)(k := Gone)\<rparr>)"
| admission: "ad_limitNow ad = ad_limitNow (sr_admission s) \<Longrightarrow>
      sampler_step rnd mem s (s\<lparr>sr_admission := ad\<rparr>)"

inductive sampler_reach :: "(real \<Rightarrow> real) \<Rightarrow> u64 \<Rightarrow> samplerRun \<Rightarrow> samplerRun \<Rightarrow> bool"
  for rnd :: "real \<Rightarrow> real" and mem :: u64 and s0 :: samplerRun where
  sampler_start: "sampler_reach rnd mem s0 s0"
| sampler_more: "sampler_reach rnd mem s0 s \<Longrightarrow> sampler_step rnd mem s s' \<Longrightarrow> sampler_reach rnd mem s0 s'"

inductive_cases sampler_stepE: "sampler_step rnd mem s s'"

section \<open>The invariant\<close>

definition quiet :: "overloadController \<Rightarrow> overloadController" where
  "quiet c = c\<lparr>oc_level := 0\<rparr>"

text \<open>The level apart, the registry is not affected by the samplers.\<close>

lemma quiet_retain: "overloadRetain rnd mem cfg (quiet c) = apsnd quiet (overloadRetain rnd mem cfg c)"
  by (simp add: overloadRetain_def applyOverloadConfig_def quiet_def Let_def split: option.splits)

lemma quiet_release: "overloadRelease rnd mem own (quiet c) = quiet (overloadRelease rnd mem own c)"
  by (simp add: overloadRelease_def applyOverloadConfig_def quiet_def Let_def split: option.splits)

lemma quiet_fields [simp]:
  "oc_owners (quiet c) = oc_owners c" "oc_cfg (quiet c) = oc_cfg c" "quiet (c\<lparr>oc_level := l\<rparr>) = quiet c"
  by (simp_all add: quiet_def)

definition newestStopped :: "samplerRun \<Rightarrow> bool" where
  "newestStopped s = (sr_launched s = 0 \<or> sr_stopped s (sr_launched s - 1))"

definition goroutines_ok :: "samplerRun \<Rightarrow> bool" where
  "goroutines_ok s =
     ((\<forall>k. sr_launched s \<le> k \<longrightarrow> sr_pc s k = Unborn \<and> \<not> sr_stopped s k)
      \<and> (\<forall>k < sr_launched s. sr_pc s k \<noteq> Unborn)
      \<and> (\<forall>k. Suc k < sr_launched s \<longrightarrow> sr_pc s k = Gone)
      \<and> (\<forall>k. sr_pc s k = Gone \<longrightarrow> sr_stopped s k)
      \<and> (newestStopped s \<longleftrightarrow> sr_waiting s \<or> oc_owners (sr_ctl s) = [])
      \<and> (sr_waiting s \<longrightarrow> oc_owners (sr_ctl s) \<noteq> []))"

definition configured :: "(real \<Rightarrow> real) \<Rightarrow> u64 \<Rightarrow> overloadRuntime option \<Rightarrow> bool" where
  "configured rnd mem cfg = (\<exists>c. cfg = resolveOverloadConfig rnd c mem)"

definition samples_ok :: "(real \<Rightarrow> real) \<Rightarrow> u64 \<Rightarrow> samplerRun \<Rightarrow> bool" where
  "samples_ok rnd mem s =
     (sampler_ok rnd (sr_state s) \<and> oc_level (sr_ctl s) \<in> {0, 1, 2}
      \<and> registry_ok rnd mem (quiet (sr_ctl s))
      \<and> (\<forall>k cfg. sr_pc s k = Sampling cfg \<longrightarrow> configured rnd mem cfg))"

lemma resolve_None [simp]: "resolveOverloadConfig rnd None mem = None"
  by (simp add: resolveOverloadConfig_def)

lemma configured_None: "configured rnd mem None"
  unfolding configured_def by (rule exI [of _ None]) simp

lemma registry_configured: "registry_ok rnd mem (quiet c) \<Longrightarrow> configured rnd mem (oc_cfg c)"
  using configured_None by (auto simp: registry_ok_def configured_def split: if_splits)

lemma zeroSampler_ok: "sampler_ok rnd zeroSampler"
  by (simp add: sampler_ok_def zeroSampler_def zeroLevel_def)

lemma sampleOnce_configured:
  assumes "rounds rnd" and "sampler_ok rnd st" and "configured rnd mem (wo_cfg w)"
    and "sampleOnce rnd now minute sig (st, w) = (st', w')"
  shows "sampler_ok rnd st' \<and> wo_level w' \<in> {0, 1, 2}"
proof (cases "wo_cfg w")
  case None
  with assms(4) show ?thesis by (auto simp: sampleOnce_disabled zeroSampler_ok)
next
  case (Some rt)
  with assms(3) obtain c where "resolveOverloadConfig rnd (Some c) mem = Some rt"
    unfolding configured_def by (metis option.exhaust option.distinct(1) resolve_None)
  with sampleOnce_ok [OF assms(1,2) Some _ assms(4)] resolveOverload_limits show ?thesis
    by (auto simp: published_ok_def)
qed

lemma apply_level: "oc_level (applyOverloadConfig rnd mem cfg c) \<in> {0, oc_level c}"
  by (simp add: applyOverloadConfig_def split: option.split)

lemma retain_level: "oc_level (snd (overloadRetain rnd mem cfg c)) \<in> {0, oc_level c}"
  using apply_level [of rnd mem cfg "c\<lparr>oc_owners := x, oc_next := y\<rparr>" for x y] by (simp add: overloadRetain_def Let_def)

lemma release_level: "oc_level (overloadRelease rnd mem own c) \<in> {0, oc_level c}"
proof -
  have "oc_level (applyOverloadConfig rnd mem cfg (c\<lparr>oc_owners := xs\<rparr>)) \<in> {0, oc_level c}" for cfg xs
    using apply_level [of rnd mem cfg "c\<lparr>oc_owners := xs\<rparr>"] by simp
  then show ?thesis by (simp add: overloadRelease_def Let_def split: option.split)
qed

lemma retain_owners: "oc_owners (snd (overloadRetain rnd mem cfg c)) = oc_owners c @ [fst (overloadRetain rnd mem cfg c)]"
  by (simp add: overloadRetain_def Let_def)

lemma registry_quiet_retain:
  assumes "registry_ok rnd mem (quiet c)"
  shows "registry_ok rnd mem (quiet (snd (overloadRetain rnd mem cfg c)))"
proof -
  obtain own c' where r: "overloadRetain rnd mem cfg c = (own, c')" by (cases "overloadRetain rnd mem cfg c")
  then have "overloadRetain rnd mem cfg (quiet c) = (own, quiet c')" by (simp add: quiet_retain)
  from registry_retain [OF assms this] show ?thesis by (simp add: r)
qed

lemma registry_quiet_release:
  "registry_ok rnd mem (quiet c) \<Longrightarrow> registry_ok rnd mem (quiet (overloadRelease rnd mem own c))"
  using registry_release [of rnd mem "quiet c" own] by (simp add: quiet_release)

lemma release_empty: "oc_owners c = [] \<Longrightarrow> overloadRelease rnd mem own c = c"
  by (simp add: overloadRelease_def)

lemma publish_frame [simp]:
  "sr_pc (publishSample rnd now minute sig cfg s) = sr_pc s"
  "sr_stopped (publishSample rnd now minute sig cfg s) = sr_stopped s"
  "sr_launched (publishSample rnd now minute sig cfg s) = sr_launched s"
  "sr_waiting (publishSample rnd now minute sig cfg s) = sr_waiting s"
  "oc_owners (sr_ctl (publishSample rnd now minute sig cfg s)) = oc_owners (sr_ctl s)"
  "oc_cfg (sr_ctl (publishSample rnd now minute sig cfg s)) = oc_cfg (sr_ctl s)"
  "quiet (sr_ctl (publishSample rnd now minute sig cfg s)) = quiet (sr_ctl s)"
  by (simp_all add: publishSample_def split: prod.splits)

lemma samples_step:
  assumes "rounds rnd" and "samples_ok rnd mem s" and "sampler_step rnd mem s s'"
  shows "samples_ok rnd mem s'"
  using assms(3)
proof (cases rule: sampler_step.cases)
  case (retain cfg)
  with assms(2) registry_quiet_retain retain_level [of rnd mem cfg "sr_ctl s"] show ?thesis
    by (auto simp: samples_ok_def retainOwner_def)
next
  case (release_owner own)
  with assms(2) registry_quiet_release release_level [of rnd mem own "sr_ctl s"] show ?thesis
    by (auto simp: samples_ok_def releaseOwner_def Let_def)
next
  case (publish k cfg now minute sig)
  then have "configured rnd mem cfg" "sampler_ok rnd (sr_state s)" using assms(2) by (auto simp: samples_ok_def)
  moreover obtain st w where run: "sampleOnce rnd now minute sig
      (sr_state s, \<lparr>wo_cfg = cfg, wo_level = oc_level (sr_ctl s), wo_admission = sr_admission s,
                    wo_nodeStates = sr_nodeStates s\<rparr>) = (st, w)" by fastforce
  ultimately have "sampler_ok rnd st \<and> wo_level w \<in> {0, 1, 2}"
    using sampleOnce_configured [OF assms(1) _ _ run] by simp
  then have "sampler_ok rnd (sr_state (publishSample rnd now minute sig cfg s))
      \<and> oc_level (sr_ctl (publishSample rnd now minute sig cfg s)) \<in> {0, 1, 2}"
    by (simp add: publishSample_def run)
  with publish assms(2) show ?thesis by (auto simp: samples_ok_def)
next
  case (load_cfg k)
  with assms(2) registry_configured show ?thesis by (auto simp: samples_ok_def)
qed (use assms(2) zeroSampler_ok in \<open>auto simp: samples_ok_def launchSampler_def\<close>)

text \<open>A sampler that moves is the newest one.\<close>

lemma live_newest:
  assumes "goroutines_ok s" and "sr_pc s k \<noteq> Gone" and "sr_pc s k \<noteq> Unborn"
  shows "Suc k = sr_launched s"
proof -
  have "k < sr_launched s" using assms unfolding goroutines_ok_def by (meson not_less)
  moreover have "\<not> Suc k < sr_launched s" using assms unfolding goroutines_ok_def by blast
  ultimately show ?thesis by simp
qed

lemma goroutines_move:
  assumes "goroutines_ok s" and "sr_pc s k \<noteq> Gone" and "sr_pc s k \<noteq> Unborn" and "pc \<noteq> Unborn"
    and "pc = Gone \<longrightarrow> sr_stopped s k"
  shows "goroutines_ok (s\<lparr>sr_pc := (sr_pc s)(k := pc)\<rparr>)"
  using assms live_newest [OF assms(1-3)] by (auto simp: goroutines_ok_def newestStopped_def)

lemma goroutines_launch:
  assumes "goroutines_ok s" and "sr_waiting s" and "samplerDone s"
  shows "goroutines_ok (launchSampler s)"
proof -
  have "sr_pc s k = Gone" if "k < sr_launched s" for k
    using that assms(1,3) unfolding goroutines_ok_def samplerDone_def
    by (metis Suc_lessI diff_Suc_1 not_less_zero)
  with assms(1,2) show ?thesis
    by (auto simp: goroutines_ok_def launchSampler_def newestStopped_def less_Suc_eq)
qed

lemma goroutines_release:
  assumes "goroutines_ok s" and "\<not> sr_waiting s"
  shows "goroutines_ok (releaseOwner rnd mem own s)"
proof (cases "oc_owners (sr_ctl s) = []")
  case True
  then show ?thesis using assms release_empty by (simp add: releaseOwner_def Let_def)
next
  case False
  then have "\<not> newestStopped s" using assms by (simp add: goroutines_ok_def)
  then have "0 < sr_launched s" by (simp add: newestStopped_def)
  with assms False \<open>\<not> newestStopped s\<close> show ?thesis
    by (auto simp: goroutines_ok_def releaseOwner_def Let_def newestStopped_def)
qed

lemma goroutines_frame:
  assumes "goroutines_ok s" and "sr_pc s' = sr_pc s" and "sr_stopped s' = sr_stopped s"
    and "sr_launched s' = sr_launched s" and "sr_waiting s' = sr_waiting s"
    and "oc_owners (sr_ctl s') = oc_owners (sr_ctl s)"
  shows "goroutines_ok s'"
  using assms by (simp add: goroutines_ok_def newestStopped_def)

lemma goroutines_step:
  assumes "goroutines_ok s" and "sampler_step rnd mem s s'"
  shows "goroutines_ok s'"
  using assms(2)
proof (cases rule: sampler_step.cases)
  case (retain cfg)
  with assms(1) show ?thesis
    by (auto simp: goroutines_ok_def newestStopped_def retainOwner_def retain_owners)
next
  case launch
  with assms(1) goroutines_launch show ?thesis by blast
next
  case (release_owner own)
  with assms(1) goroutines_release show ?thesis by blast
next
  case (reset_state k)
  have "goroutines_ok (s\<lparr>sr_pc := (sr_pc s)(k := AtSample)\<rparr>)"
    using reset_state by (intro goroutines_move assms(1)) simp_all
  then show ?thesis by (rule goroutines_frame) (simp_all add: reset_state)
next
  case (publish k cfg now minute sig)
  have "goroutines_ok (s\<lparr>sr_pc := (sr_pc s)(k := Selecting)\<rparr>)"
    using publish by (intro goroutines_move assms(1)) simp_all
  then show ?thesis by (rule goroutines_frame) (simp_all add: publish)
next
  case (admission ad)
  show ?thesis by (rule goroutines_frame [OF assms(1)]) (simp_all add: admission)
qed (simp_all add: goroutines_move assms(1))

lemma sampler_reach_inv:
  assumes "rounds rnd" and "sampler_reach rnd mem (initSamplerRun ad) s"
  shows "samples_ok rnd mem s \<and> goroutines_ok s"
  using assms(2)
proof (induction rule: sampler_reach.induct)
  case sampler_start
  have "registry_ok rnd mem (quiet initController)" using registry_init by (simp add: quiet_def initController_def)
  then show ?case
    by (simp add: samples_ok_def goroutines_ok_def newestStopped_def initSamplerRun_def zeroSampler_ok initController_def)
next
  case (sampler_more s s')
  with samples_step [OF assms(1)] goroutines_step show ?case by blast
qed

section \<open>A first owner is never blocked for good\<close>

text \<open>Steps that the closed channel leaves to the old sampler, until it is gone.\<close>

definition stepsLeft :: "samplerPC \<Rightarrow> nat" where
  "stepsLeft pc =
     (case pc of Launched \<Rightarrow> 4 | AtSample \<Rightarrow> 3 | Sampling cfg \<Rightarrow> 2 | Selecting \<Rightarrow> 1 | _ \<Rightarrow> 0)"

lemma waiting_advances:
  assumes "goroutines_ok s" and "sr_waiting s" and "\<not> samplerDone s"
  shows "\<exists>s'. sampler_step rnd mem s s' \<and> sr_waiting s' \<and> sr_launched s' = sr_launched s
    \<and> stepsLeft (sr_pc s' (sr_launched s - 1)) < stepsLeft (sr_pc s (sr_launched s - 1))"
proof -
  let ?k = "sr_launched s - 1"
  have pos: "0 < sr_launched s" and gone: "sr_pc s ?k \<noteq> Gone" using assms(3) by (auto simp: samplerDone_def)
  have unborn: "sr_pc s ?k \<noteq> Unborn" using assms(1) pos by (auto simp: goroutines_ok_def)
  have stopped: "sr_stopped s ?k" using assms(1,2) pos by (simp add: goroutines_ok_def newestStopped_def)
  show ?thesis
  proof (cases "sr_pc s ?k")
    case Launched
    from sampler_step.reset_state [OF this] Launched assms(2) show ?thesis
      by (intro exI conjI) (assumption, simp_all add: stepsLeft_def)
  next
    case AtSample
    from sampler_step.load_cfg [OF this] AtSample assms(2) show ?thesis
      by (intro exI conjI) (assumption, simp_all add: stepsLeft_def)
  next
    case (Sampling cfg)
    from sampler_step.publish [OF this] Sampling assms(2) show ?thesis
      by (intro exI conjI) (assumption, simp_all add: stepsLeft_def)
  next
    case Selecting
    from sampler_step.stop_seen [OF this stopped] Selecting assms(2) show ?thesis
      by (intro exI conjI) (assumption, simp_all add: stepsLeft_def)
  qed (use gone unborn in simp_all)
qed

lemma retain_completes:
  assumes "goroutines_ok s" and "sr_waiting s"
  shows "\<exists>s'. sampler_reach rnd mem s s' \<and> \<not> sr_waiting s' \<and> samplerRunning s'
    \<and> sr_launched s' = Suc (sr_launched s)"
  using assms
proof (induction "stepsLeft (sr_pc s (sr_launched s - 1))" arbitrary: s rule: less_induct)
  case less
  show ?case
  proof (cases "samplerDone s")
    case True
    from sampler_step.launch [OF less.prems(2) True] have "sampler_reach rnd mem s (launchSampler s)"
      by (meson sampler_reach.intros)
    with less.prems show ?thesis
      by (intro exI [of _ "launchSampler s"]) (auto simp: launchSampler_def samplerRunning_def goroutines_ok_def)
  next
    case False
    from waiting_advances [OF less.prems False] obtain s1 where
      s1: "sampler_step rnd mem s s1" "sr_waiting s1" "sr_launched s1 = sr_launched s"
        "stepsLeft (sr_pc s1 (sr_launched s1 - 1)) < stepsLeft (sr_pc s (sr_launched s - 1))" by metis
    from less.hyps [OF s1(4) goroutines_step [OF less.prems(1) s1(1)] s1(2)] s1(3) obtain s' where
      s': "sampler_reach rnd mem s1 s'" "\<not> sr_waiting s'" "samplerRunning s'" "sr_launched s' = Suc (sr_launched s)"
      by auto
    have "sampler_reach rnd mem s s'"
      using s'(1) by induction (meson s1(1) sampler_reach.intros)+
    with s' show ?thesis by blast
  qed
qed

section \<open>A sample that outlives the last owner\<close>

text \<open>
  A sampler that loaded its configuration before the last release still publishes its level
  after it, and the next first owner keeps that level until the new sampler has sampled.
\<close>

lemma stale_level:
  assumes "sr_pc s k = Sampling cfg" and "\<not> sr_waiting s" and "oc_owners (sr_ctl s) = []"
    and "resolveOverloadConfig rnd c mem \<noteq> None"
    and "s1 = (publishSample rnd now minute sig cfg s)\<lparr>sr_pc := (sr_pc s)(k := Selecting)\<rparr>"
  shows "sampler_step rnd mem s s1 \<and> sampler_step rnd mem s1 (retainOwner rnd mem c s1)
    \<and> sr_waiting (retainOwner rnd mem c s1) \<and> Level (sr_ctl (retainOwner rnd mem c s1)) = oc_level (sr_ctl s1)"
proof (intro conjI)
  show "sampler_step rnd mem s s1" unfolding assms(5) by (rule sampler_step.publish [OF assms(1)])
  show "sampler_step rnd mem s1 (retainOwner rnd mem c s1)" by (rule sampler_step.retain) (simp add: assms(2,5))
  show "sr_waiting (retainOwner rnd mem c s1)" by (simp add: retainOwner_def assms(3,5))
  show "Level (sr_ctl (retainOwner rnd mem c s1)) = oc_level (sr_ctl s1)"
    using assms(4) by (auto simp: retainOwner_def Level_def overloadRetain_def applyOverloadConfig_def Let_def)
qed

end
