(* ===== verification/Signals.thy ===== *)
theory Signals
  imports Sampler_Life
begin

text \<open>
  Where the readings come from (overload\_signals\_linux.go, overload\_signals\_other.go,
  overload\_signals.go, mem\_budget\_linux.go, mem\_budget\_other.go): the files of /proc and /sys as a
  function from paths to contents, and the governor's refresh loop.  \<open>strconv.ParseFloat\<close> and
  the runtime's histogram are parameters.
\<close>

section \<open>Readings\<close>

type_synonym fileSystem = "string \<Rightarrow> string option"

definition procStat :: "fileSystem \<Rightarrow> cpuTimes option" where
  "procStat fs = Option.bind (fs ''/proc/stat'') parseProcStat"

definition cgroupThrottledUsec :: "fileSystem \<Rightarrow> u64 option" where
  "cgroupThrottledUsec fs = Option.bind (fs ''/sys/fs/cgroup/cpu.stat'') parseCgroupThrottled"

definition parseUptime :: "(string \<Rightarrow> real option) \<Rightarrow> string \<Rightarrow> real option" where
  "parseUptime parseFloat data = (case Fields data of [] \<Rightarrow> None | f # _ \<Rightarrow> parseFloat f)"

definition uptimeReading :: "(string \<Rightarrow> real option) \<Rightarrow> fileSystem \<Rightarrow> real option" where
  "uptimeReading parseFloat fs = Option.bind (fs ''/proc/uptime'') (parseUptime parseFloat)"

text \<open>A sample of a runtime metric: a histogram, or a value of another kind.\<close>

datatype metricSample = Float64Histogram "u64 list" "real list" | OtherSample

definition schedHistogram :: "metricSample \<Rightarrow> (u64 list \<times> real list) option" where
  "schedHistogram m = (case m of Float64Histogram counts buckets \<Rightarrow> Some (counts, buckets) | OtherSample \<Rightarrow> None)"

definition procSignals ::
    "(string \<Rightarrow> real option) \<Rightarrow> fileSystem \<Rightarrow> metricSample \<Rightarrow> nat \<Rightarrow> int \<Rightarrow> overloadSignals" where
  "procSignals parseFloat fs m cpus procs =
     \<lparr>sg_procStat = procStat fs, sg_throttled = cgroupThrottledUsec fs, sg_uptime = uptimeReading parseFloat fs,
      sg_sched = schedHistogram m, sg_numCPU = cpus, sg_gomaxprocs = procs\<rparr>"

text \<open>On other systems only the runtime's histogram is read.\<close>

definition otherSignals :: "metricSample \<Rightarrow> nat \<Rightarrow> int \<Rightarrow> overloadSignals" where
  "otherSignals m cpus procs =
     \<lparr>sg_procStat = None, sg_throttled = None, sg_uptime = None,
      sg_sched = schedHistogram m, sg_numCPU = cpus, sg_gomaxprocs = procs\<rparr>"

definition readProcessRSS :: "fileSystem \<Rightarrow> int \<Rightarrow> u64 \<times> bool" where
  "readProcessRSS fs pageSize =
     (case fs ''/proc/self/statm'' of None \<Rightarrow> (0, False) | Some data \<Rightarrow> parseStatmRSS data pageSize)"

definition otherProcessRSS :: "u64 \<times> bool" where "otherProcessRSS = (0, False)"

definition otherTotalRAM :: "u64 \<times> bool" where "otherTotalRAM = (0, False)"

lemma other_is_empty: "otherSignals m cpus procs = procSignals pf (\<lambda>_. None) m cpus procs"
  by (simp add: otherSignals_def procSignals_def procStat_def cgroupThrottledUsec_def uptimeReading_def)

lemma rss_without_proc: "readProcessRSS (\<lambda>_. None) pageSize = otherProcessRSS"
  by (simp add: readProcessRSS_def otherProcessRSS_def)

text \<open>Without readings a sample shows no throttling.\<close>

lemma readStat_None [simp]: "readStat rnd gap dt None s = (0, s)"
  by (simp add: readStat_def)

lemma readThrottle_None [simp]: "readThrottle rnd gap dt None (p, s) = (p, s)"
  by (simp add: readThrottle_def)

section \<open>The refresh loop\<close>

text \<open>
  The loop of \<open>refreshLoop\<close> over the readings it gets until \<open>stop\<close> is closed: the waits between
  them, the one before the first included, and the governor after.
\<close>

fun refreshLoop ::
    "(real \<Rightarrow> real) \<Rightarrow> (u64 \<times> bool) option list \<Rightarrow> memGovernor \<Rightarrow> duration list \<times> memGovernor" where
  "refreshLoop rnd [] g = ([nextRefreshInterval rnd g], g)"
| "refreshLoop rnd (r # rs) g =
     (case refreshLoop rnd rs (refreshRSS r g) of (ws, g') \<Rightarrow> (nextRefreshInterval rnd g # ws, g'))"

lemma refreshRSS_frame [simp]:
  "shareBudget (refreshRSS r g) = shareBudget g" "bufferBytes (refreshRSS r g) = bufferBytes g"
  "rssCeiling (refreshRSS r g) = rssCeiling g" "baselineRSS (refreshRSS r g) = baselineRSS g"
  by (simp_all add: refreshRSS_def split: option.splits prod.splits bool.splits)

lemma refreshLoop_keeps:
  assumes "refreshLoop rnd rs g = (ws, g')"
  shows "bufferBytes g' = bufferBytes g \<and> budgetOf g' = budgetOf g \<and> length ws = Suc (length rs)
    \<and> set ws \<subseteq> {rssRefreshInterval, rssRefreshPressureInterval}
    \<and> (rs \<noteq> [] \<longrightarrow> cachedRSS g' = (case last rs of Some (rss, True) \<Rightarrow> rss | _ \<Rightarrow> 0))"
  using assms
proof (induction rs arbitrary: g ws)
  case Nil
  then show ?case by (auto simp: nextRefreshInterval_def)
next
  case (Cons r rs)
  then obtain ws' where ws: "refreshLoop rnd rs (refreshRSS r g) = (ws', g')" "ws = nextRefreshInterval rnd g # ws'"
    by (auto split: prod.splits)
  note IH = Cons.IH [OF ws(1)]
  have "cachedRSS g' = (case r of Some (rss, True) \<Rightarrow> rss | _ \<Rightarrow> 0)" if "rs = []"
    using that ws(1) by (auto simp: refreshRSS_def split: option.splits prod.splits bool.splits)
  with IH ws(2) show ?case by (auto simp: nextRefreshInterval_def budgetOf_def)
qed

end
