(* ===== verification/Ship_Loop.thy ===== *)
theory Ship_Loop
  imports Shipping
begin

text \<open>
  The flush loop, the shipper and Stop of one app generation as interleaved steps
  (\<open>flushLoop\<close>, \<open>shipLoop\<close>, \<open>enqueueShip\<close>, \<open>dropQueued\<close>, \<open>beginShutdownShipping\<close>).  A step is
  what runs between two points where another goroutine can be seen: a locked section, a
  context check, a channel operation.  Other generations take and return the process-wide
  retired slots at will.
\<close>

section \<open>State\<close>

text \<open>
  Where the flush loop is: serving ticks, after \<open>tickCancel\<close>, after \<open>beginShutdownShipping\<close>,
  after the final enqueue, returned.
\<close>

datatype flushPC = Ticking | Cancelled | Draining | Closing | FlushDone

text \<open>
  Where the shipper is: in \<open>pop\<close>, blocked on the signal, holding a popped job, sending it, in
  \<open>dropQueued\<close>, blocked there, returned.
\<close>

datatype shipPC = AtPop | Blocked | Popped shipJob | Sending shipJob | DropPop | DropBlocked | Exited

text \<open>
  \<open>sh_owed\<close> counts the pushes whose \<open>signal\<close> call has not run yet; \<open>sh_produced\<close>,
  \<open>sh_delivered\<close> and \<open>sh_leased\<close> are ghosts that count the rows handed to the queue, the rows
  delivered, and the health records leased to queued jobs.
\<close>

record shipState =
  sh_queue :: shipQueue
  sh_notify :: bool
  sh_owed :: nat
  sh_tickDone :: bool
  sh_ready :: bool
  sh_deadline :: bool
  sh_flush :: flushPC
  sh_pc :: shipPC
  sh_slot :: bool
  sh_otherSlots :: nat
  sh_dropped :: u64
  sh_health :: healthState
  sh_produced :: int
  sh_delivered :: int
  sh_leased :: int

definition retiredShipSlots :: nat where "retiredShipSlots = 2"

abbreviation slotsUsed :: "shipState \<Rightarrow> nat" where
  "slotsUsed s \<equiv> sh_otherSlots s + (if sh_slot s then 1 else 0)"

definition leaseRecords :: "domainHealthLease option \<Rightarrow> int" where
  "leaseRecords lo = (case lo of None \<Rightarrow> 0 | Some l \<Rightarrow> l_records l)"

definition startShipper :: "nat \<Rightarrow> u64 \<Rightarrow> healthState \<Rightarrow> shipState" where
  "startShipper others d h =
     \<lparr>sh_queue = newShipQueue, sh_notify = False, sh_owed = 0, sh_tickDone = False, sh_ready = False,
      sh_deadline = False, sh_flush = Ticking, sh_pc = AtPop, sh_slot = False, sh_otherSlots = others,
      sh_dropped = d, sh_health = h, sh_produced = 0, sh_delivered = 0, sh_leased = 0\<rparr>"

section \<open>Actions\<close>

text \<open>A job that will not ship: its lease is dropped and its rows are counted.\<close>

definition dropJob :: "domainHealthDropReason \<Rightarrow> shipJob \<Rightarrow> shipState \<Rightarrow> shipState" where
  "dropJob reason j s =
     s\<lparr>sh_health := snd (leaseDrop reason (j_health j) (sh_health s)),
       sh_dropped := sh_dropped s + of_int (j_rows j)\<rparr>"

definition enqueueShip :: "shipJob \<Rightarrow> shipState \<Rightarrow> shipState" where
  "enqueueShip j s =
     (case push j (sh_queue s) of
        (d, q) \<Rightarrow>
          (let s' = s\<lparr>sh_queue := q, sh_owed := Suc (sh_owed s), sh_produced := sh_produced s + j_rows j,
                      sh_leased := sh_leased s + leaseRecords (j_health j)\<rparr>
           in case d of None \<Rightarrow> s' | Some old \<Rightarrow> dropJob DropQueue old s'))"

text \<open>The job as the shipper sends it once Stop has run.\<close>

definition promoteJob :: "ingestRuntime \<Rightarrow> shipJob \<Rightarrow> shipJob" where
  "promoteJob cfg j =
     (if j_shutdown j then j else j\<lparr>j_shutdown := True, j_retries := shutdownMaxRetries cfg\<rparr>)"

text \<open>The switch after the attempts: delivered, put back, or dropped.\<close>

definition settleJob :: "shipError option \<Rightarrow> shipJob \<Rightarrow> shipState \<Rightarrow> shipState" where
  "settleJob err j s =
     (case err of
        None \<Rightarrow> s\<lparr>sh_pc := AtPop, sh_health := snd (snd (leaseRelease (j_health j) (sh_health s))),
                  sh_delivered := sh_delivered s + j_rows j\<rparr>
      | Some e \<Rightarrow>
          if \<not> j_shutdown j \<and> \<not> isPermanent e \<and> sh_tickDone s
          then s\<lparr>sh_pc := AtPop, sh_queue := pushFront j (sh_queue s), sh_notify := True\<rparr>
          else (dropJob DropDelivery j s)\<lparr>sh_pc := AtPop\<rparr>)"

text \<open>
  The attempts of a shutdown job run under the shutdown deadline; those of a tick job end
  early when the tick context is cancelled, or are cut by the deadline.
\<close>

definition contextsAllow :: "shipError option \<Rightarrow> shipJob \<Rightarrow> shipState \<Rightarrow> bool" where
  "contextsAllow err j s =
     ((err = Some CtxErr \<longrightarrow> sh_deadline s)
      \<and> (err = Some WaitErr \<longrightarrow> (if j_shutdown j then sh_deadline s else sh_tickDone s)))"

text \<open>A batch as the flush loop queues it: a fresh lease, a row count that is not negative.\<close>

definition freshJob :: "bool \<Rightarrow> int \<Rightarrow> shipJob \<Rightarrow> bool" where
  "freshJob down retries j =
     (j_shutdown j = down \<and> j_retries j = retries \<and> 0 \<le> j_rows j
      \<and> (case j_health j of None \<Rightarrow> True | Some l \<Rightarrow> \<not> l_released l \<and> 0 \<le> l_records l))"

section \<open>Steps\<close>

inductive env_step :: "ingestRuntime \<Rightarrow> shipState \<Rightarrow> shipState \<Rightarrow> bool" for cfg :: ingestRuntime where
  tick: "sh_flush s = Ticking \<Longrightarrow> freshJob False (maxRetries cfg) j \<Longrightarrow>
      env_step cfg s (enqueueShip j s)"
| stop: "sh_flush s = Ticking \<Longrightarrow> env_step cfg s (s\<lparr>sh_tickDone := True, sh_flush := Cancelled\<rparr>)"
| begin_shutdown: "sh_flush s = Cancelled \<Longrightarrow>
      env_step cfg s (s\<lparr>sh_ready := True, sh_flush := Draining\<rparr>)"
| final_batch: "sh_flush s = Draining \<Longrightarrow> freshJob True (shutdownMaxRetries cfg) j \<Longrightarrow>
      env_step cfg s ((enqueueShip j s)\<lparr>sh_flush := Closing\<rparr>)"
| final_empty: "sh_flush s = Draining \<Longrightarrow> env_step cfg s (s\<lparr>sh_flush := Closing\<rparr>)"
| close_queue: "sh_flush s = Closing \<Longrightarrow>
      env_step cfg s (s\<lparr>sh_queue := closeQueue (sh_queue s), sh_owed := Suc (sh_owed s),
                        sh_flush := FlushDone\<rparr>)"
| deadline: "sh_ready s \<Longrightarrow> env_step cfg s (s\<lparr>sh_deadline := True\<rparr>)"
| other_acquire: "slotsUsed s < retiredShipSlots \<Longrightarrow>
      env_step cfg s (s\<lparr>sh_otherSlots := Suc (sh_otherSlots s)\<rparr>)"
| other_release: "0 < sh_otherSlots s \<Longrightarrow>
      env_step cfg s (s\<lparr>sh_otherSlots := sh_otherSlots s - 1\<rparr>)"

inductive ship_step :: "ingestRuntime \<Rightarrow> shipState \<Rightarrow> shipState \<Rightarrow> bool" for cfg :: ingestRuntime where
  signal: "0 < sh_owed s \<Longrightarrow> ship_step cfg s (s\<lparr>sh_owed := sh_owed s - 1, sh_notify := True\<rparr>)"
| pop_job: "sh_pc s = AtPop \<Longrightarrow> popTurn (sh_queue s) = (Job j, q) \<Longrightarrow>
      ship_step cfg s (s\<lparr>sh_queue := q, sh_pc := Popped j\<rparr>)"
| pop_end: "sh_pc s = AtPop \<Longrightarrow> popTurn (sh_queue s) = (Ended, q) \<Longrightarrow>
      ship_step cfg s (s\<lparr>sh_pc := Exited, sh_slot := False\<rparr>)"
| pop_wait: "sh_pc s = AtPop \<Longrightarrow> popTurn (sh_queue s) = (WaitSignal, q) \<Longrightarrow>
      ship_step cfg s (s\<lparr>sh_pc := Blocked\<rparr>)"
| woken: "sh_pc s = Blocked \<Longrightarrow> sh_notify s \<Longrightarrow>
      ship_step cfg s (s\<lparr>sh_pc := AtPop, sh_notify := False\<rparr>)"
| send_tick: "sh_pc s = Popped j \<Longrightarrow> \<not> j_shutdown j \<Longrightarrow> \<not> sh_tickDone s \<Longrightarrow>
      ship_step cfg s (s\<lparr>sh_pc := Sending j\<rparr>)"
| send_retired: "sh_pc s = Popped j \<Longrightarrow> j_shutdown j \<or> sh_tickDone s \<Longrightarrow> sh_ready s \<Longrightarrow>
      sh_slot s \<or> slotsUsed s < retiredShipSlots \<Longrightarrow>
      ship_step cfg s (s\<lparr>sh_pc := Sending (promoteJob cfg j), sh_slot := True\<rparr>)"
| no_slot: "sh_pc s = Popped j \<Longrightarrow> j_shutdown j \<or> sh_tickDone s \<Longrightarrow> sh_ready s \<Longrightarrow>
      \<not> sh_slot s \<Longrightarrow> retiredShipSlots \<le> slotsUsed s \<Longrightarrow>
      ship_step cfg s ((dropJob DropDelivery (promoteJob cfg j) s)\<lparr>sh_pc := DropPop\<rparr>)"
| sent: "sh_pc s = Sending j \<Longrightarrow> shipWithRetryWait env (j_retries j) = (posts, err) \<Longrightarrow>
      contextsAllow err j s \<Longrightarrow> ship_step cfg s (settleJob err j s)"
| drop_job: "sh_pc s = DropPop \<Longrightarrow> popTurn (sh_queue s) = (Job j, q) \<Longrightarrow>
      ship_step cfg s (dropJob DropDelivery j (s\<lparr>sh_queue := q\<rparr>))"
| drop_end: "sh_pc s = DropPop \<Longrightarrow> popTurn (sh_queue s) = (Ended, q) \<Longrightarrow>
      ship_step cfg s (s\<lparr>sh_pc := Exited, sh_slot := False\<rparr>)"
| drop_wait: "sh_pc s = DropPop \<Longrightarrow> popTurn (sh_queue s) = (WaitSignal, q) \<Longrightarrow>
      ship_step cfg s (s\<lparr>sh_pc := DropBlocked\<rparr>)"
| drop_woken: "sh_pc s = DropBlocked \<Longrightarrow> sh_notify s \<Longrightarrow>
      ship_step cfg s (s\<lparr>sh_pc := DropPop, sh_notify := False\<rparr>)"

inductive ship_reach :: "ingestRuntime \<Rightarrow> shipState \<Rightarrow> shipState \<Rightarrow> bool"
  for cfg :: ingestRuntime and s0 :: shipState where
  reach_start: "ship_reach cfg s0 s0"
| reach_env: "ship_reach cfg s0 s \<Longrightarrow> env_step cfg s s' \<Longrightarrow> ship_reach cfg s0 s'"
| reach_ship: "ship_reach cfg s0 s \<Longrightarrow> ship_step cfg s s' \<Longrightarrow> ship_reach cfg s0 s'"

inductive_cases env_stepE: "env_step cfg s s'"
inductive_cases ship_stepE: "ship_step cfg s s'"

end
