(* ===== verification/Ship_Props.thy ===== *)
theory Ship_Props
  imports Ship_Loop "HOL-Library.Multiset"
begin

text \<open>
  Correctness of delivery over every interleaving of \<open>Ship_Loop\<close>: each row handed to the
  queue is delivered, dropped and counted, or still pending; each health lease is settled
  once; the bodies held and the retired slots are bounded; no wakeup is lost; and after Stop
  the shipper ends, with nothing left in the queue.
\<close>

section \<open>What is pending\<close>

fun handJobs :: "shipPC \<Rightarrow> shipJob list" where
  "handJobs (Popped j) = [j]"
| "handJobs (Sending j) = [j]"
| "handJobs _ = []"

definition pendingJobs :: "shipState \<Rightarrow> shipJob list" where
  "pendingJobs s = handJobs (sh_pc s) @ q_jobs (sh_queue s)"

abbreviation openLease :: "shipJob \<Rightarrow> bool" where
  "openLease j \<equiv> (case j_health j of None \<Rightarrow> True | Some l \<Rightarrow> \<not> l_released l \<and> 0 \<le> l_records l)"

lemma popTurn_jobs:
  "popTurn q = (Job j, q') \<Longrightarrow> q_jobs q = j # q_jobs q' \<and> q_closed q' = q_closed q"
  "popTurn q = (Ended, q') \<Longrightarrow> q_jobs q = [] \<and> q_closed q"
  "popTurn q = (WaitSignal, q') \<Longrightarrow> q_jobs q = [] \<and> \<not> q_closed q"
  by (auto simp: popTurn_def shiftLocked_def split: if_splits)

lemma popTurn_total: "\<exists>r q'. popTurn q = (r, q')"
  by fastforce

lemma lease_credits:
  assumes "openLease j"
  shows "domainHealthCredits (snd (leaseDrop reason (j_health j) h))
           = domainHealthCredits h - leaseRecords (j_health j)"
    "domainHealthCredits (snd (snd (leaseRelease (j_health j) h)))
           = domainHealthCredits h - leaseRecords (j_health j)"
  using assms
  by (auto simp: leaseDrop_def leaseRelease_def leaseRecords_def countDomainHealthDrop_def
      split: option.splits)

lemma promoteJob_simps [simp]:
  "j_rows (promoteJob cfg j) = j_rows j" "j_health (promoteJob cfg j) = j_health j"
  "j_shutdown (promoteJob cfg j)"
  by (simp_all add: promoteJob_def)

lemma push_closed [simp]: "push j q = (d, q') \<Longrightarrow> q_closed q' = q_closed q"
  by (auto simp: push_def shiftLocked_def split: if_splits)

lemma queue_simps [simp]:
  "q_jobs (pushFront j q) = j # q_jobs q" "q_closed (pushFront j q) = q_closed q"
  "q_jobs (closeQueue q) = q_jobs q" "q_closed (closeQueue q)"
  by (simp_all add: pushFront_def closeQueue_def)

section \<open>Rows and leases\<close>

text \<open>The accounts of a state whose pending jobs are \<open>js\<close>.\<close>

definition accounts :: "u64 \<Rightarrow> int \<Rightarrow> shipJob list \<Rightarrow> shipState \<Rightarrow> bool" where
  "accounts d0 c0 js s =
     (sh_dropped s = d0 + of_int (sh_produced s - sh_delivered s - sum_list (map j_rows js))
      \<and> domainHealthCredits (sh_health s)
          = c0 - (sh_leased s - sum_list (map (leaseRecords \<circ> j_health) js))
      \<and> (\<forall>j \<in> set js. openLease j))"

abbreviation account_inv :: "u64 \<Rightarrow> int \<Rightarrow> shipState \<Rightarrow> bool" where
  "account_inv d0 c0 s \<equiv> accounts d0 c0 (pendingJobs s) s"

lemma accounts_mset:
  assumes "mset js = mset js'" and "accounts d0 c0 js s"
  shows "accounts d0 c0 js' s"
proof -
  have "sum_list (map f js) = sum_list (map f js')" for f :: "shipJob \<Rightarrow> int"
    using assms(1) by (metis mset_map sum_mset_sum_list)
  then show ?thesis using assms(2) mset_eq_setD [OF assms(1)] by (simp add: accounts_def)
qed

lemma accounts_frame:
  assumes "accounts d0 c0 js s"
    and "sh_dropped s' = sh_dropped s" "sh_produced s' = sh_produced s"
    "sh_delivered s' = sh_delivered s" "sh_health s' = sh_health s" "sh_leased s' = sh_leased s"
  shows "accounts d0 c0 js s'"
  using assms by (simp add: accounts_def)

lemma accounts_drop:
  assumes "accounts d0 c0 (j # js) s"
  shows "accounts d0 c0 js (dropJob reason j s)"
proof -
  have "openLease j" using assms by (simp add: accounts_def)
  then have "domainHealthCredits (sh_health (dropJob reason j s))
      = domainHealthCredits (sh_health s) - leaseRecords (j_health j)"
    using lease_credits(1) by (simp add: dropJob_def)
  moreover have "sh_dropped (dropJob reason j s) = sh_dropped s + of_int (j_rows j)"
    by (simp add: dropJob_def)
  ultimately show ?thesis using assms by (simp add: accounts_def) (simp add: dropJob_def)
qed

lemma accounts_deliver:
  assumes "accounts d0 c0 (j # js) s"
  shows "accounts d0 c0 js (s\<lparr>sh_pc := pc, sh_health := snd (snd (leaseRelease (j_health j) (sh_health s))),
           sh_delivered := sh_delivered s + j_rows j\<rparr>)"
proof -
  have "openLease j" using assms by (simp add: accounts_def)
  then show ?thesis using assms lease_credits(2) [of j "sh_health s"] by (simp add: accounts_def)
qed

lemma accounts_produce:
  assumes "accounts d0 c0 js s" and "openLease j"
  shows "accounts d0 c0 (j # js) (s\<lparr>sh_queue := q, sh_owed := n, sh_produced := sh_produced s + j_rows j,
           sh_leased := sh_leased s + leaseRecords (j_health j)\<rparr>)"
  using assms by (simp add: accounts_def)

lemma account_enqueue:
  assumes inv: "account_inv d0 c0 s" and "openLease j"
  shows "account_inv d0 c0 (enqueueShip j s)"
proof -
  obtain d q where p: "push j (sh_queue s) = (d, q)" by fastforce
  define s1 where "s1 = s\<lparr>sh_queue := q, sh_owed := Suc (sh_owed s), sh_produced := sh_produced s + j_rows j,
    sh_leased := sh_leased s + leaseRecords (j_health j)\<rparr>"
  have acc: "accounts d0 c0 (j # pendingJobs s) s1"
    unfolding s1_def by (rule accounts_produce [OF assms])
  from p show ?thesis
  proof (cases rule: shipq.put_cases)
    case appended
    then have "pendingJobs s1 = pendingJobs s @ [j]" by (simp add: s1_def pendingJobs_def)
    then show ?thesis using appended(1) p accounts_mset [OF _ acc, of "pendingJobs s1"]
      by (simp add: enqueueShip_def s1_def)
  next
    case (evicted x)
    have "mset (x # pendingJobs s1) = mset (handJobs (sh_pc s)) + mset (x # q_jobs q)"
      by (simp add: s1_def pendingJobs_def)
    also have "\<dots> = mset (j # pendingJobs s)"
      unfolding evicted(2) [symmetric] by (simp add: pendingJobs_def)
    finally have "accounts d0 c0 (x # pendingJobs s1) s1" using acc accounts_mset by metis
    from accounts_drop [OF this, of DropQueue] show ?thesis
      using evicted(1) p by (simp add: enqueueShip_def s1_def dropJob_def pendingJobs_def)
  qed
qed

lemma env_account: "env_step cfg s s' \<Longrightarrow> account_inv d0 c0 s \<Longrightarrow> account_inv d0 c0 s'"
proof (induction rule: env_step.induct)
  case (tick s j)
  then show ?case by (intro account_enqueue) (simp_all add: freshJob_def)
next
  case (final_batch s j)
  then have "account_inv d0 c0 (enqueueShip j s)"
    by (intro account_enqueue) (simp_all add: freshJob_def)
  then show ?case by (simp add: accounts_def pendingJobs_def)
qed (simp_all add: accounts_def pendingJobs_def closeQueue_def)

lemma account_settle:
  assumes "account_inv d0 c0 s" and "sh_pc s = Sending j"
  shows "account_inv d0 c0 (settleJob err j s)"
proof -
  have acc: "accounts d0 c0 (j # q_jobs (sh_queue s)) s" using assms by (simp add: pendingJobs_def)
  show ?thesis
  proof (cases err)
    case None
    then show ?thesis using accounts_deliver [OF acc] by (simp add: settleJob_def pendingJobs_def)
  next
    case (Some e)
    have "accounts d0 c0 (q_jobs (sh_queue s)) ((dropJob DropDelivery j s)\<lparr>sh_pc := AtPop\<rparr>)"
      by (rule accounts_frame [OF accounts_drop [OF acc]]) simp_all
    moreover have "accounts d0 c0 (j # q_jobs (sh_queue s))
        (s\<lparr>sh_pc := AtPop, sh_queue := pushFront j (sh_queue s), sh_notify := True\<rparr>)"
      by (rule accounts_frame [OF acc]) simp_all
    ultimately show ?thesis
      by (simp add: Some settleJob_def pendingJobs_def) (simp add: dropJob_def)
  qed
qed

lemma ship_account: "ship_step cfg s s' \<Longrightarrow> account_inv d0 c0 s \<Longrightarrow> account_inv d0 c0 s'"
proof (induction rule: ship_step.induct)
  case (no_slot s j)
  then have "accounts d0 c0 (promoteJob cfg j # q_jobs (sh_queue s)) s"
    by (simp add: accounts_def pendingJobs_def)
  from accounts_drop [OF this] show ?case by (simp add: accounts_def dropJob_def pendingJobs_def)
next
  case (sent s j env posts err)
  then show ?case by (intro account_settle)
next
  case (drop_job s j q)
  then have "accounts d0 c0 (j # q_jobs q) (s\<lparr>sh_queue := q\<rparr>)"
    using popTurn_jobs(1) [OF drop_job(2)] by (simp add: accounts_def pendingJobs_def)
  from accounts_drop [OF this] drop_job(1) show ?case
    by (simp add: accounts_def dropJob_def pendingJobs_def)
qed (auto simp: accounts_def pendingJobs_def dest!: popTurn_jobs)

section \<open>Bounds\<close>

definition bound_inv :: "shipState \<Rightarrow> bool" where
  "bound_inv s = (length (pendingJobs s) \<le> shipQueueCap + 1 \<and> slotsUsed s \<le> retiredShipSlots)"

lemma handJobs_length: "length (handJobs pc) \<le> 1"
  by (cases pc) simp_all

lemma enqueue_frame:
  "sh_pc (enqueueShip j s) = sh_pc s" "sh_slot (enqueueShip j s) = sh_slot s"
  "sh_otherSlots (enqueueShip j s) = sh_otherSlots s" "sh_notify (enqueueShip j s) = sh_notify s"
  "sh_owed (enqueueShip j s) = Suc (sh_owed s)" "sh_tickDone (enqueueShip j s) = sh_tickDone s"
  "sh_ready (enqueueShip j s) = sh_ready s" "sh_deadline (enqueueShip j s) = sh_deadline s"
  "sh_flush (enqueueShip j s) = sh_flush s"
  "q_closed (sh_queue (enqueueShip j s)) = q_closed (sh_queue s)"
  "sh_queue (enqueueShip j s) = snd (push j (sh_queue s))"
  by (simp_all add: enqueueShip_def dropJob_def Let_def split: prod.split option.split)

lemma bound_enqueue:
  assumes "length (pendingJobs s) \<le> shipQueueCap + 1"
  shows "length (pendingJobs (enqueueShip j s)) \<le> shipQueueCap + 1"
proof -
  obtain d q where p: "push j (sh_queue s) = (d, q)" by fastforce
  then have "length (handJobs (sh_pc s)) + length (q_jobs q) \<le> shipQueueCap + 1"
  proof (cases rule: shipq.put_cases)
    case appended
    then show ?thesis using handJobs_length [of "sh_pc s"] by simp
  next
    case (evicted x)
    then have "Suc (length (q_jobs (sh_queue s))) = Suc (length (q_jobs q))"
      by (metis length_Cons length_append_singleton)
    then show ?thesis using assms by (simp add: pendingJobs_def)
  qed
  then show ?thesis by (simp add: pendingJobs_def enqueue_frame p)
qed

lemma env_bound: "env_step cfg s s' \<Longrightarrow> bound_inv s \<Longrightarrow> bound_inv s'"
proof (induction rule: env_step.induct)
  case (tick s j)
  then show ?case using bound_enqueue [of s j] by (simp add: bound_inv_def enqueue_frame)
next
  case (final_batch s j)
  then show ?case using bound_enqueue [of s j] by (simp add: bound_inv_def enqueue_frame pendingJobs_def)
qed (auto simp: bound_inv_def pendingJobs_def)

lemma ship_bound: "ship_step cfg s s' \<Longrightarrow> bound_inv s \<Longrightarrow> bound_inv s'"
proof (induction rule: ship_step.induct)
  case (sent s j env posts err)
  then show ?case
    by (auto simp: bound_inv_def pendingJobs_def settleJob_def dropJob_def split: option.split)
qed (auto simp: bound_inv_def pendingJobs_def dropJob_def dest!: popTurn_jobs split: if_splits)

section \<open>Control\<close>

text \<open>
  The phases of the flush loop, when the shipper may have returned, and that a blocked
  shipper with work to do has a signal on its way.
\<close>

definition ctl_inv :: "shipState \<Rightarrow> bool" where
  "ctl_inv s =
     ((q_closed (sh_queue s) \<longleftrightarrow> sh_flush s = FlushDone)
      \<and> (sh_tickDone s \<longleftrightarrow> sh_flush s \<noteq> Ticking)
      \<and> (sh_ready s \<longleftrightarrow> sh_flush s \<in> {Draining, Closing, FlushDone})
      \<and> (sh_deadline s \<longrightarrow> sh_ready s)
      \<and> (sh_pc s = Exited \<longrightarrow> q_closed (sh_queue s) \<and> q_jobs (sh_queue s) = [])
      \<and> (sh_pc s \<in> {Blocked, DropBlocked} \<and> (q_jobs (sh_queue s) \<noteq> [] \<or> q_closed (sh_queue s))
           \<longrightarrow> sh_notify s \<or> 0 < sh_owed s))"

lemma env_ctl: "env_step cfg s s' \<Longrightarrow> ctl_inv s \<Longrightarrow> ctl_inv s'"
proof (induction rule: env_step.induct)
  case (tick s j)
  then show ?case by (auto simp: ctl_inv_def enqueue_frame(1-10))
next
  case (final_batch s j)
  then show ?case by (auto simp: ctl_inv_def enqueue_frame(1-10))
qed (auto simp: ctl_inv_def)

lemma ship_ctl: "ship_step cfg s s' \<Longrightarrow> ctl_inv s \<Longrightarrow> ctl_inv s'"
proof (induction rule: ship_step.induct)
  case (sent s j env posts err)
  then show ?case by (auto simp: ctl_inv_def settleJob_def dropJob_def split: option.split)
qed (auto simp: ctl_inv_def dropJob_def dest!: popTurn_jobs)

lemma reach_all:
  assumes "ship_reach cfg (startShipper others d h) s" and "others \<le> retiredShipSlots"
  shows "account_inv d (domainHealthCredits h) s \<and> bound_inv s \<and> ctl_inv s"
  using assms(1)
proof induction
  case reach_start
  show ?case using assms(2)
    by (simp add: startShipper_def accounts_def pendingJobs_def bound_inv_def ctl_inv_def newShipQueue_def
        shipQueueCap_def)
qed (blast intro: env_account env_bound env_ctl ship_account ship_bound ship_ctl)+

section \<open>The shipper ends\<close>

fun pcWeight :: "shipPC \<Rightarrow> nat" where
  "pcWeight (Sending j) = (if j_shutdown j then 2 else 7)"
| "pcWeight (Popped j) = 3"
| "pcWeight AtPop = 1"
| "pcWeight DropPop = 1"
| "pcWeight Blocked = 2"
| "pcWeight DropBlocked = 2"
| "pcWeight Exited = 0"

definition shipWork :: "shipState \<Rightarrow> nat" where
  "shipWork s = 5 * length (q_jobs (sh_queue s)) + pcWeight (sh_pc s) + sh_owed s"

text \<open>Once the flush loop has returned, every step of the shipper leaves less to do.\<close>

lemma shipWork_decreases:
  "ship_step cfg s s' \<Longrightarrow> ctl_inv s \<Longrightarrow> sh_flush s = FlushDone \<Longrightarrow> shipWork s' < shipWork s"
proof (induction rule: ship_step.induct)
  case (sent s j env posts err)
  then show ?case by (auto simp: shipWork_def settleJob_def dropJob_def split: option.split)
qed (auto simp: shipWork_def ctl_inv_def dropJob_def dest!: popTurn_jobs)

text \<open>And the shipper can always take a step until it has returned.\<close>

lemma sendable: "\<exists>env posts. shipWithRetryWait env n = (posts, None)"
proof -
  define env :: "nat \<Rightarrow> attemptEnv" where
    "env = (\<lambda>_. \<lparr>ae_wake = TimerFired, ae_waitErr = False, ae_post = StatusCode 200, ae_ctxErr = False\<rparr>)"
  have "snd (shipAttempts env 0 m None) = None" for m
    by (cases m) (simp_all add: env_def shipOnce_def)
  then show ?thesis unfolding shipWithRetryWait_def by (metis prod.collapse)
qed

lemma ship_progress:
  assumes "ctl_inv s" and "sh_flush s = FlushDone" and "sh_pc s \<noteq> Exited"
  shows "\<exists>s'. ship_step cfg s s'"
proof -
  obtain r q where pt: "popTurn (sh_queue s) = (r, q)" by fastforce
  have ready: "sh_ready s" "sh_tickDone s" "q_closed (sh_queue s)"
    using assms by (auto simp: ctl_inv_def)
  have wake: "sh_pc s \<in> {Blocked, DropBlocked} \<Longrightarrow> \<not> 0 < sh_owed s \<Longrightarrow> sh_notify s"
    using assms(1) ready(3) by (auto simp: ctl_inv_def)
  show ?thesis
  proof (cases "sh_pc s")
    case AtPop
    with pt show ?thesis by (cases r) (blast intro: ship_step.intros)+
  next
    case DropPop
    with pt show ?thesis by (cases r) (blast intro: ship_step.intros)+
  next
    case (Popped j)
    then show ?thesis using ready by (meson ship_step.send_retired ship_step.no_slot not_le)
  next
    case (Sending j)
    then show ?thesis using sendable [of "j_retries j"] ship_step.sent [OF Sending]
      by (metis contextsAllow_def option.distinct(1))
  next
    case Blocked
    then show ?thesis using wake by (cases "0 < sh_owed s") (blast intro: ship_step.intros)+
  next
    case DropBlocked
    then show ?thesis using wake by (cases "0 < sh_owed s") (blast intro: ship_step.intros)+
  qed (use assms(3) in simp)
qed

lemma ship_flush_stays: "ship_step cfg s s' \<Longrightarrow> sh_flush s' = sh_flush s"
  by (induction rule: ship_step.induct) (auto simp: settleJob_def dropJob_def split: option.split)

text \<open>Every run of the shipper alone from there is finite, and its end is \<open>Exited\<close>.\<close>

lemma shipper_ends:
  assumes "ctl_inv s" and "sh_flush s = FlushDone"
  shows "\<exists>s'. (ship_step cfg)\<^sup>*\<^sup>* s s' \<and> sh_pc s' = Exited"
  using assms
proof (induction "shipWork s" arbitrary: s rule: less_induct)
  case less
  show ?case
  proof (cases "sh_pc s = Exited")
    case False
    then obtain t where t: "ship_step cfg s t" using ship_progress less.prems by blast
    from less.hyps [OF shipWork_decreases [OF t less.prems] ship_ctl [OF t less.prems(1)]]
    show ?thesis using t less.prems(2) ship_flush_stays [OF t]
      by (metis converse_rtranclp_into_rtranclp)
  qed auto
qed

lemma exited_settled:
  assumes "ctl_inv s" and "sh_pc s = Exited"
  shows "pendingJobs s = []"
  using assms by (simp add: ctl_inv_def pendingJobs_def)

text \<open>A batch whose attempts Stop cut short is put back at the head, not dropped.\<close>

lemma cut_short_requeued:
  assumes "ctl_inv s" and "\<not> j_shutdown j" and "contextsAllow (Some e) j s" and "e \<in> {CtxErr, WaitErr}"
  shows "q_jobs (sh_queue (settleJob (Some e) j s)) = j # q_jobs (sh_queue s)
    \<and> sh_dropped (settleJob (Some e) j s) = sh_dropped s"
  using assms by (auto simp: settleJob_def contextsAllow_def ctl_inv_def isPermanent_def)

end
