(* ===== verification/Shutdown.thy ===== *)
theory Shutdown
  imports Ship_Props Batch_Props
begin

text \<open>
  What \<open>Stop\<close> waits for (ship\_queue.go: \<open>awaitShipper\<close>, the retired slots) and the flush that
  ships in place (app.go: \<open>flushBatch\<close>, \<open>flushOnce\<close>, \<open>shipWithRetryN\<close>).
\<close>

section \<open>Waiting for the shipper\<close>

definition stopLimit :: "ingestRuntime \<Rightarrow> bool \<Rightarrow> duration" where
  "stopLimit cfg exiting = (if exiting then shutdownDeadlineOrDefault cfg else stopWaitOrDefault cfg)"

text \<open>When the timer fires that is set at \<open>now\<close>; a duration that is not positive fires at once.\<close>

definition timerFires :: "ingestRuntime \<Rightarrow> bool \<Rightarrow> gotime \<Rightarrow> gotime \<Rightarrow> gotime" where
  "timerFires cfg exiting start now = now + max 0 (i64 (stopLimit cfg exiting - time_Sub now start))"

text \<open>
  The outcomes of the \<open>select\<close>: the time it returns and whether the shipper was done.  \<open>doneAt\<close> is
  when \<open>shipDone\<close> is closed, if ever; when both channels are ready, either is taken.
\<close>

inductive awaitShipper ::
    "ingestRuntime \<Rightarrow> bool \<Rightarrow> gotime \<Rightarrow> gotime \<Rightarrow> gotime option \<Rightarrow> gotime \<times> bool \<Rightarrow> bool"
  for cfg :: ingestRuntime and exiting :: bool and start :: gotime and now :: gotime and doneAt :: "gotime option" where
  shipped: "doneAt = Some d \<Longrightarrow> d \<le> timerFires cfg exiting start now \<Longrightarrow>
      awaitShipper cfg exiting start now doneAt (max now d, True)"
| timed_out: "(\<And>d. doneAt = Some d \<Longrightarrow> timerFires cfg exiting start now \<le> max now d) \<Longrightarrow>
      awaitShipper cfg exiting start now doneAt (timerFires cfg exiting start now, False)"

inductive_cases awaitShipperE: "awaitShipper cfg exiting start now doneAt r"

lemma stopLimit_pos: "0 < stopLimit cfg exiting"
  using shutdown_waits_pos by (simp add: stopLimit_def)

lemma timerFires_eq:
  assumes "start \<le> now" and "stopLimit cfg exiting \<le> max_i64"
  shows "timerFires cfg exiting start now = max now (start + stopLimit cfg exiting)"
proof -
  have l: "0 < stopLimit cfg exiting" by (rule stopLimit_pos)
  have "min_i64 \<le> stopLimit cfg exiting - time_Sub now start" "stopLimit cfg exiting - time_Sub now start \<le> max_i64"
    using assms l by (auto simp: time_Sub_def min_i64_def max_i64_def)
  then have "i64 (stopLimit cfg exiting - time_Sub now start) = stopLimit cfg exiting - time_Sub now start"
    by (rule i64_id)
  then show ?thesis using assms l by (auto simp: timerFires_def time_Sub_def min_i64_def max_i64_def)
qed

text \<open>
  \<open>Stop\<close> always gets past the wait; it leaves when the shipper is done, or at the limit counted
  from its start, and it reports the shipper as unfinished only when it was not done before that.
\<close>

theorem awaitShipper_bounded:
  assumes "start \<le> now" and "stopLimit cfg exiting \<le> max_i64"
  shows "(\<exists>r. awaitShipper cfg exiting start now doneAt r)
    \<and> (\<forall>t ok. awaitShipper cfg exiting start now doneAt (t, ok) \<longrightarrow>
         now \<le> t \<and> t \<le> max now (start + stopLimit cfg exiting)
         \<and> (ok \<longrightarrow> (\<exists>d. doneAt = Some d \<and> t = max now d))
         \<and> (\<not> ok \<longrightarrow> (\<forall>d. doneAt = Some d \<longrightarrow> start + stopLimit cfg exiting \<le> max now d)))"
proof -
  note fires = timerFires_eq [OF assms]
  have "\<exists>r. awaitShipper cfg exiting start now doneAt r"
  proof (cases "\<exists>d. doneAt = Some d \<and> d \<le> timerFires cfg exiting start now")
    case True
    then show ?thesis by (auto intro: awaitShipper.shipped)
  next
    case False
    then have "timerFires cfg exiting start now \<le> max now d" if "doneAt = Some d" for d using that by auto
    then show ?thesis by (auto intro: awaitShipper.timed_out)
  qed
  then show ?thesis by (auto elim!: awaitShipperE simp: fires)
qed

section \<open>The retired slots\<close>

definition acquireRetiredSlot :: "nat \<Rightarrow> bool \<times> nat" where
  "acquireRetiredSlot used = (if used < retiredShipSlots then (True, Suc used) else (False, used))"

definition releaseRetiredSlot :: "nat \<Rightarrow> nat" where "releaseRetiredSlot used = used - 1"

lemma retired_slots:
  "used \<le> retiredShipSlots \<Longrightarrow> snd (acquireRetiredSlot used) \<le> retiredShipSlots"
  "acquireRetiredSlot used = (True, n) \<Longrightarrow> releaseRetiredSlot n = used"
  by (auto simp: acquireRetiredSlot_def releaseRetiredSlot_def split: if_splits)

section \<open>A flush that ships in place\<close>

definition shipWithRetryN :: "(nat \<Rightarrow> attemptEnv) \<Rightarrow> int \<Rightarrow> shipError option" where
  "shipWithRetryN env retries = snd (shipWithRetryWait env retries)"

definition shipWithRetry :: "ingestRuntime \<Rightarrow> (nat \<Rightarrow> attemptEnv) \<Rightarrow> shipError option" where
  "shipWithRetry cfg env = shipWithRetryN env (maxRetries cfg)"

definition flushBatch ::
    "('t \<Rightarrow> (string \<times> u32) list) \<Rightarrow> ('t \<Rightarrow> 't) \<Rightarrow> (nat \<Rightarrow> bool) \<Rightarrow> bool \<Rightarrow> bool \<Rightarrow> u32 \<Rightarrow> (nat \<Rightarrow> attemptEnv)
     \<Rightarrow> int \<Rightarrow> bool \<Rightarrow> 't statsApp \<Rightarrow> 't statsApp" where
  "flushBatch srt rst ret retW encodeOk ts env retries httpOnly a =
     (case drainAndEncode srt rst ret retW encodeOk httpOnly ts a of
        (None, a1) \<Rightarrow> a1
      | (Some (body, rows, health), a1) \<Rightarrow>
          (case shipWithRetryN env retries of
             Some err \<Rightarrow> dropRows rows (a1\<lparr>app_health := snd (leaseDrop DropDelivery health (app_health a1))\<rparr>)
           | None \<Rightarrow> a1\<lparr>app_health := snd (snd (leaseRelease health (app_health a1)))\<rparr>))"

definition flushOnce ::
    "('t \<Rightarrow> (string \<times> u32) list) \<Rightarrow> ('t \<Rightarrow> 't) \<Rightarrow> (nat \<Rightarrow> bool) \<Rightarrow> bool \<Rightarrow> bool \<Rightarrow> u32 \<Rightarrow> (nat \<Rightarrow> attemptEnv)
     \<Rightarrow> int \<Rightarrow> 't statsApp \<Rightarrow> 't statsApp" where
  "flushOnce srt rst ret retW encodeOk ts env retries a = flushBatch srt rst ret retW encodeOk ts env retries False a"

text \<open>An accepted batch is counted as dropped exactly when it could not be delivered.\<close>

lemma flushBatch_dropped:
  assumes "drainAndEncode srt rst ret retW encodeOk httpOnly ts a = (Some (body, n, lease), a1)"
  shows "app_dropped (flushBatch srt rst ret retW encodeOk ts env retries httpOnly a)
    = app_dropped a1 + (if shipWithRetryN env retries = None then 0 else of_int n)"
  using assms by (simp add: flushBatch_def dropRows_def split: option.split)

end
