(* ===== verification/L4_Handlers.thy ===== *)
theory L4_Handlers
  imports Batch Load_Balancer
begin

text \<open>
  The layer-4 handlers (l4\_handler.go, fingerprint\_handler.go): what they read of a connection
  and the recorders they call before the next handler.  A panic of the address parser is \<open>None\<close>.
\<close>

section \<open>Connections\<close>

text \<open>The connection's replacer, its variables that are strings, and the text of its address.\<close>

record l4Connection =
  cx_replacer :: "replacer option"
  cx_vars :: "(string, string) gomap"
  cx_RemoteAddr :: "string option"

definition L4SniReplacerKey :: string where "L4SniReplacerKey = ''l4.tls.server_name''"

definition TLSJA3Var :: string where "TLSJA3Var = ''tls_ja3''"

definition TLSJA4Var :: string where "TLSJA4Var = ''tls_ja4''"

definition readSNIFromCx :: "l4Connection \<Rightarrow> string" where
  "readSNIFromCx cx =
     (case cx_replacer cx of
        None \<Rightarrow> []
      | Some repl \<Rightarrow> (case rp_getString repl L4SniReplacerKey of None \<Rightarrow> [] | Some v \<Rightarrow> v))"

definition readClientIPFromCx :: "l4Connection \<Rightarrow> string option" where
  "readClientIPFromCx cx =
     (case cx_RemoteAddr cx of
        None \<Rightarrow> Some []
      | Some s \<Rightarrow>
          if s = [] then Some []
          else case canonicalIPAndPrefix s of
                 IpPanic \<Rightarrow> None
               | IpBad \<Rightarrow> Some []
               | IpOk canonical _ _ \<Rightarrow> Some canonical)"

definition cxVarString :: "l4Connection \<Rightarrow> string \<Rightarrow> string" where
  "cxVarString cx name = (case map_of (cx_vars cx) name of None \<Rightarrow> [] | Some s \<Rightarrow> s)"

section \<open>The handlers\<close>

definition l4Handle ::
    "(string \<Rightarrow> 't \<Rightarrow> 't) \<Rightarrow> u32 \<Rightarrow> l4Connection \<Rightarrow> 't statsApp \<Rightarrow> 't statsApp option" where
  "l4Handle incr now cx a =
     (let sni = readSNIFromCx cx;
          a1 = a\<lparr>app_sni := RecordL4Sni (app_cfg a) now sni (app_sni a)\<rparr>
      in map_option (\<lambda>ip. a1\<lparr>app_ip := RecordL4Ip incr (app_cfg a) ip sni (app_ip a)\<rparr>) (readClientIPFromCx cx))"

definition fingerprintHandle :: "u32 \<Rightarrow> l4Connection \<Rightarrow> 't statsApp \<Rightarrow> 't statsApp option" where
  "fingerprintHandle now cx a =
     (let ja3 = cxVarString cx TLSJA3Var; ja4 = cxVarString cx TLSJA4Var
      in if ja3 = [] \<or> ja4 = [] then Some a
         else map_option (\<lambda>ip. a\<lparr>app_fp := RecordFingerprint (app_cfg a)
                  \<lparr>fo_TsMin = now, fo_ja3 = ja3, fo_ja4 = ja4, fo_ip = ip\<rparr> (app_fp a)\<rparr>) (readClientIPFromCx cx))"

section \<open>The address of an IPv4 peer\<close>

lemma FormatUint_lacks: "\<not> is_digit c \<Longrightarrow> c \<notin> set (FormatUint n)"
  using FormatUint_digits by blast

lemma octetOf_FormatUint: "n < 256 \<Longrightarrow> octetOf (FormatUint n) = Some n"
proof -
  assume n: "n < 256"
  have "\<not> (hd (FormatUint n) = CHR ''0'' \<and> length (FormatUint n) > 1)"
    using FormatUint_hd [of n] by (cases "n = 0") (auto simp: FormatUint.simps)
  with n show ?thesis by (simp add: octetOf_def digits_val_FormatUint)
qed

lemma v4Text_join:
  "v4Text a = joinWith (CHR ''.'') (map FormatUint
     [unat a div 16777216, unat a div 65536 mod 256, unat a div 256 mod 256, unat a mod 256])"
  by (simp add: v4Text_def Let_def)

lemma v4_digits: "c \<in> set (v4Text a) \<Longrightarrow> is_digit c \<or> c = CHR ''.''"
  using FormatUint_digits by (auto simp: v4Text_def Let_def)

lemma parseIPv4_v4Text:
  "parseIPv4Fields (v4Text a) =
     Some (unat a div 16777216, unat a div 65536 mod 256, unat a div 256 mod 256, unat a mod 256)"
proof -
  have "\<forall>x \<in> set (map FormatUint [unat a div 16777216, unat a div 65536 mod 256, unat a div 256 mod 256, unat a mod 256]).
      CHR ''.'' \<notin> set x"
    using FormatUint_lacks [of "CHR ''.''"] by (simp add: is_digit_def)
  from split_join [OF _ this] have
    "splitOn (CHR ''.'') (v4Text a) =
       map FormatUint [unat a div 16777216, unat a div 65536 mod 256, unat a div 256 mod 256, unat a mod 256]"
    by (simp add: v4Text_join)
  moreover have "unat a div 16777216 < 256" using unsigned_less [of a, where ?'a = nat] by simp
  ultimately show ?thesis by (simp add: parseIPv4Fields_def octetOf_FormatUint)
qed

lemma word_unat_eq: "(of_nat (unat w) :: 'a::len word) = w"
  by simp

lemma v4_bytes: "v4OfBytes (unat a div 16777216, unat a div 65536 mod 256, unat a div 256 mod 256, unat a mod 256) = a"
proof -
  have "((n div 16777216 * 256 + n div 65536 mod 256) * 256 + n div 256 mod 256) * 256 + n mod 256 = n" for n :: nat
  proof -
    have "n div 65536 = n div 256 div 256" "n div 16777216 = n div 256 div 256 div 256"
      by (simp_all add: div_mult2_eq [symmetric])
    moreover have "m div 256 * 256 + m mod 256 = m" for m :: nat by (rule div_mult_mod_eq)
    ultimately show ?thesis by simp
  qed
  from this [of "unat a"] show ?thesis unfolding v4OfBytes_def prod.case by (simp only: word_unat_eq)
qed

lemma ParseAddr_v4Text: "ParseAddr (v4Text a) = Some (V4 a)"
proof -
  obtain n s where v: "v4Text a = FormatUint n @ CHR ''.'' # s" by (auto simp: v4Text_def Let_def)
  have "\<forall>c \<in> set (FormatUint n). c \<noteq> CHR ''.'' \<and> c \<noteq> CHR '':'' \<and> c \<noteq> CHR ''%''"
    using FormatUint_lacks by (auto simp: is_digit_def)
  then have "dropWhile (\<lambda>c. c \<noteq> CHR ''.'' \<and> c \<noteq> CHR '':'' \<and> c \<noteq> CHR ''%'') (v4Text a) = CHR ''.'' # s"
    unfolding v by (subst dropWhile_append2) auto
  then show ?thesis by (simp add: ParseAddr_def parseIPv4_v4Text v4_bytes)
qed

lemma stripPort_v4:
  "stripPort (v4Text a) = Some (v4Text a)" "stripPort (v4Text a @ '':'' @ FormatUint port) = Some (v4Text a)"
proof -
  have lacks: "c \<notin> set (v4Text a)" if "c = CHR '']'' \<or> c = CHR '':''" for c
    using that v4_digits [of c a] by (auto simp: is_digit_def)
  have port: "c \<notin> set (FormatUint port)" if "c = CHR '']'' \<or> c = CHR '':''" for c
    using that FormatUint_lacks by (auto simp: is_digit_def)
  have no: "LastIndexByte (v4Text a) c = None" if "c = CHR '']'' \<or> c = CHR '':''" for c
    using lacks [OF that] by simp
  show "stripPort (v4Text a) = Some (v4Text a)" by (simp add: stripPort_def no del: LastIndexByte_None)
  have "LastIndexByte (v4Text a @ CHR '':'' # FormatUint port) (CHR '']'') = None"
    using lacks port by simp
  moreover have "LastIndexByte (v4Text a @ CHR '':'' # FormatUint port) (CHR '':'') = Some (length (v4Text a))"
    using port by (intro LastIndexByte_append_hit) simp
  moreover have "filter (\<lambda>c. c = CHR '':'') (v4Text a) = []" "filter (\<lambda>c. c = CHR '':'') (FormatUint port) = []"
    using lacks port by (auto simp: filter_empty_conv)
  ultimately show "stripPort (v4Text a @ '':'' @ FormatUint port) = Some (v4Text a)"
    by (simp add: stripPort_def del: LastIndexByte_None)
qed

theorem canonical_v4:
  "canonicalIPAndPrefix (v4Text a) = IpOk (v4Text a) (v4Text (of_nat (unat a div 256 * 256))) 24"
  "canonicalIPAndPrefix (v4Text a @ '':'' @ FormatUint port) = IpOk (v4Text a) (v4Text (of_nat (unat a div 256 * 256))) 24"
  unfolding canonicalIPAndPrefix_def stripPort_v4 by (simp_all add: ParseAddr_v4Text v4PrefixLen_def)

section \<open>What a connection adds\<close>

text \<open>Every accepted connection is one ClientHello, whatever its name and address.\<close>

lemma l4Handle_counts:
  assumes "l4Handle incr now cx a = Some a'" and "0 < l4SniMaxKeys (app_cfg a)" and "distinct_keys (l4SniMap (app_sni a))"
  shows "tally (l4SniMap (app_sni a')) = tally (l4SniMap (app_sni a)) + 1"
  using assms RecordL4Sni_tally by (auto simp: l4Handle_def Let_def)

lemma l4Handle_v4:
  assumes "cx_RemoteAddr cx = Some (v4Text v @ '':'' @ FormatUint port)"
  shows "readClientIPFromCx cx = Some (v4Text v)"
  using assms canonical_v4(2) [of v port] by (simp add: readClientIPFromCx_def)

end
