(* ===== verification/Handler_Setup.thy ===== *)
theory Handler_Setup
  imports L4_Handlers L4_Props Handler_Props Defense_Props
begin

text \<open>
  How the handlers get ready (the \<open>Provision\<close> and \<open>Validate\<close> methods of handler.go, l4\_handler.go,
  fingerprint\_handler.go, l4\_block.go, admission.go and defense\_evidence.go), the block handler, and
  server push through wrapped writers.  \<open>ctx.App\<close> is a parameter.
\<close>

section \<open>Looking up the app\<close>

text \<open>What \<open>ctx.App\<close> returns: an error, the stats app, or an app of another type.\<close>

datatype appLookup = LookupFailed string | FoundStatsApp | FoundOther string

datatype setupError = RequiresApp string | UnexpectedType string | BadReason | PlanFailed compileError

text \<open>\<open>present\<close> is whether \<open>h.app\<close> is already set, the result whether it is afterwards.\<close>

definition lookupApp :: "bool \<Rightarrow> appLookup \<Rightarrow> setupError + bool" where
  "lookupApp present found =
     (if present then Inr True
      else case found of
             LookupFailed e \<Rightarrow> Inl (RequiresApp e)
           | FoundStatsApp \<Rightarrow> Inr True
           | FoundOther t \<Rightarrow> Inl (UnexpectedType t))"

definition provisionStatsHandler :: "bool \<Rightarrow> bool \<Rightarrow> appLookup \<Rightarrow> setupError + bool" where
  "provisionStatsHandler holderOnly present found = (if holderOnly then Inr present else lookupApp present found)"

definition provisionL4Handler :: "bool \<Rightarrow> appLookup \<Rightarrow> setupError + bool" where
  "provisionL4Handler present found = lookupApp present found"

definition provisionFingerprintHandler :: "bool \<Rightarrow> appLookup \<Rightarrow> setupError + bool" where
  "provisionFingerprintHandler present found = lookupApp present found"

definition validateBlock :: "string \<Rightarrow> setupError option" where
  "validateBlock reason = (if validL4BlockReason reason then None else Some BadReason)"

definition provisionBlockHandler :: "string \<Rightarrow> bool \<Rightarrow> appLookup \<Rightarrow> setupError + bool" where
  "provisionBlockHandler reason present found =
     (case validateBlock reason of Some e \<Rightarrow> Inl e | None \<Rightarrow> lookupApp present found)"

definition provisionAdmission :: "appLookup \<Rightarrow> setupError option" where
  "provisionAdmission found = (case found of LookupFailed e \<Rightarrow> Some (RequiresApp e) | _ \<Rightarrow> None)"

text \<open>The plan is compiled once; the ids it does not know are logged, 64 at most.\<close>

definition provisionDefense :: "(string \<Rightarrow> string) \<Rightarrow> defenseEvidenceHandler \<Rightarrow> setupError + u32 list" where
  "provisionDefense unesc h =
     (case compilePlan unesc h of Inl e \<Rightarrow> Inl (PlanFailed e) | Inr plan \<Rightarrow> Inr (take 64 (pl_unknown plan)))"

definition validateDefense :: "(string \<Rightarrow> string) \<Rightarrow> defenseEvidenceHandler \<Rightarrow> setupError option" where
  "validateDefense unesc h = (case compilePlan unesc h of Inl e \<Rightarrow> Some (PlanFailed e) | Inr _ \<Rightarrow> None)"

text \<open>A handler that was provisioned has the app it calls; a holder-only handler never calls it.\<close>

lemma lookupApp_present: "lookupApp present found = Inr b \<Longrightarrow> b"
  by (auto simp: lookupApp_def split: if_splits appLookup.splits)

lemma provisioned_has_app:
  "provisionStatsHandler holderOnly present found = Inr b \<Longrightarrow> holderOnly \<or> b"
  "provisionL4Handler present found = Inr b \<Longrightarrow> b"
  "provisionFingerprintHandler present found = Inr b \<Longrightarrow> b"
  "provisionBlockHandler reason present found = Inr b \<Longrightarrow> b \<and> validL4BlockReason reason"
  using lookupApp_present
  by (auto simp: provisionStatsHandler_def provisionL4Handler_def provisionFingerprintHandler_def
      provisionBlockHandler_def validateBlock_def split: if_splits)

lemma holderOnly_silent: "serveStats True app r q calls evs st = st"
  by (simp add: serveStats_def)

lemma validate_iff_provision: "validateDefense unesc h = None \<longleftrightarrow> (\<exists>ids. provisionDefense unesc h = Inr ids)"
  by (simp add: validateDefense_def provisionDefense_def split: sum.split)

section \<open>Blocked connections\<close>

definition blockHandle :: "string \<Rightarrow> u32 \<Rightarrow> l4Connection \<Rightarrow> l4BlockTrack \<Rightarrow> l4BlockTrack option" where
  "blockHandle reason now cx a = map_option (\<lambda>ip. recordL4BlockAt (ip, reason, now) a) (readClientIPFromCx cx)"

fun blockAll :: "string \<Rightarrow> (u32 \<times> l4Connection) list \<Rightarrow> l4BlockTrack \<Rightarrow> l4BlockTrack option" where
  "blockAll reason [] a = Some a"
| "blockAll reason ((now, cx) # cxs) a = Option.bind (blockHandle reason now cx a) (blockAll reason cxs)"

definition v4Peer :: "l4Connection \<Rightarrow> bool" where
  "v4Peer cx = (\<exists>v port. cx_RemoteAddr cx = Some (v4Text v @ '':'' @ FormatUint port))"

lemma blockKeyOf_v4:
  assumes "validL4BlockReason reason"
  shows "blockKeyOf (v4Text v, reason, now) = Some \<lparr>bk_Minute = now, bk_IP = v4Text v, bk_Reason = reason\<rparr>"
  using assms by (simp add: blockKeyOf_def canonical_v4(1) ParseAddr_v4Text)

text \<open>No connection of an IPv4 peer panics the handler, and the rows of the snapshot count them all.\<close>

lemma blockAll_events:
  assumes "validL4BlockReason reason" and "\<forall>(now, cx) \<in> set cxs. v4Peer cx"
  shows "\<exists>es. blockAll reason cxs a = Some (fold recordL4BlockAt es a) \<and> length es = length cxs
    \<and> (\<forall>e \<in> set es. blockKeyOf e \<noteq> None)"
  using assms(2)
proof (induction cxs arbitrary: a)
  case Nil
  then show ?case by (intro exI [of _ "[]"]) simp
next
  case (Cons x cxs)
  obtain now cx where x: "x = (now, cx)" by (cases x)
  with Cons.prems obtain v port where "cx_RemoteAddr cx = Some (v4Text v @ '':'' @ FormatUint port)"
    by (auto simp: v4Peer_def)
  from l4Handle_v4 [OF this] have ip: "readClientIPFromCx cx = Some (v4Text v)" .
  from Cons.IH [of "recordL4BlockAt (v4Text v, reason, now) a"] Cons.prems obtain es where
    "blockAll reason cxs (recordL4BlockAt (v4Text v, reason, now) a)
       = Some (fold recordL4BlockAt es (recordL4BlockAt (v4Text v, reason, now) a))"
    "length es = length cxs" "\<forall>e \<in> set es. blockKeyOf e \<noteq> None" by auto
  then show ?case
    by (intro exI [of _ "(v4Text v, reason, now) # es"]) (simp add: x blockHandle_def ip blockKeyOf_v4 [OF assms(1)])
qed

section \<open>Server push\<close>

text \<open>A writer that can push, one that wraps another, or neither.\<close>

datatype writerStack = Pusher "string \<Rightarrow> string option" | Wraps writerStack | PlainWriter

text \<open>\<open>None\<close> is success; the last case is \<open>http.ErrNotSupported\<close>.\<close>

primrec pushTo :: "writerStack \<Rightarrow> string \<Rightarrow> string option" where
  "pushTo (Pusher f) target = f target"
| "pushTo (Wraps w) target = pushTo w target"
| "pushTo PlainWriter target = Some ''feature not supported''"

primrec innermost :: "writerStack \<Rightarrow> writerStack" where
  "innermost (Pusher f) = Pusher f"
| "innermost (Wraps w) = innermost w"
| "innermost PlainWriter = PlainWriter"

lemma pushTo_innermost: "pushTo w target = pushTo (innermost w) target"
  by (induction w) simp_all

end
