(* ===== verification/Spec2Isabelle.thy ===== *)
theory Spec2Isabelle
  imports Retired_Delivery Coraza_Props L7_Recorder Metrics Signals Shutdown Handler_Setup
begin

text \<open>
  A model of the Caddy plugin \<open>apx_stats\<close> (Go package \<open>apxstats\<close>, directory src) and of its
  correctness.

  \<^bold>\<open>The program.\<close>  The plugin runs inside a reverse proxy.  Handlers (handler.go, l4\_handler.go,
  fingerprint\_handler.go, coraza\_writer.go) turn requests, connections and WAF findings into calls
  on the app (app.go), which keeps bounded buffers: sharded HTTP counters and client hashes,
  domain health, layer-4 tracks, attempt tracks, WAF detections and sampled request rows, the
  last two within the byte budget of a memory governor.  A flush drains the buffers into one
  newline-separated JSON body; a queue and a shipper post it with retries, and a deliverer takes
  over for requests that outlive a configuration.  Beside this, an overload controller samples
  the machine, sheds requests by priority and lets the WAF be skipped for plain static files;
  managed-Header privacy keeps configured secret values out of all telemetry; defense evidence
  carries the classification of a request through the WAF; and a latency registry selects
  upstreams.

  \<^bold>\<open>Foundations.\<close>  \<open>Prelude\<close> has the machine integers (Go's unsigned types are words, \<open>int\<close> and
  \<open>int64\<close> integers with the wrap-around written out), Go maps as association lists with distinct
  keys, and the shared lemma collections.  \<open>Go_Text\<close>, \<open>Netip\<close>, \<open>Http_Request\<close>, \<open>Bitset\<close> and
  \<open>Timestamps\<close> model what the code uses of Go's standard library; \<open>Hashing\<close> the FNV mixers, the
  client hash and the histogram; \<open>Settings\<close> the configuration and its defaults; \<open>Rows\<close> the
  structs of the wire.

  \<^bold>\<open>Buffers and rows.\<close>  \<open>Http_Counters\<close> and \<open>Http_Props\<close> (app.go): the sixteen shards refine one
  abstract map.  \<open>Mem_Governor\<close> (mem\_budget.go): reservations, also as interleaved
  compare-and-swap loops.  \<open>Request_Recorder\<close> and \<open>Recorder_Props\<close> (request\_event\_recorder.go):
  sampling, caps and byte accounting.  \<open>Domain_Health\<close> and \<open>Health_Props\<close> (domain\_health.go,
  domain\_health\_budget.go): credits, leases and frames.  \<open>Capped_Counter\<close>, \<open>Attempts\<close>, \<open>L4_Tracks\<close>
  and \<open>L4_Props\<close>: the capped maps.  \<open>L7_Recorder\<close> (l7\_recorders.go) and \<open>Node_State\<close>
  (node\_state.go).  \<open>Json\<close>, \<open>Json_Object\<close> and \<open>Wire\<close>: every row encoder writes one object that a
  reader recovers; \<open>Batch\<close> and \<open>Batch_Props\<close>: the flush as a whole.

  \<^bold>\<open>Delivery.\<close>  \<open>Shipping\<close> (one POST, the retry loop, the drop-oldest queue), \<open>Ship_Loop\<close> (the flush
  loop, the shipper and Stop as interleaved steps), \<open>Ship_Props\<close> (nothing is lost without being
  counted, and the shipper ends), \<open>Retired_Delivery\<close> (the deliverer of a stopped generation),
  \<open>Shutdown\<close> (the wait of Stop for the shipper, the slots of retired ships, the synchronous flush).

  \<^bold>\<open>Overload control.\<close>  \<open>Overload\<close> and \<open>Overload_Props\<close> (overload.go), \<open>Sampler\<close> and \<open>Sampler_Props\<close>
  (overload\_burst.go, overload\_signals.go), \<open>Sampler_Life\<close> (the sampler goroutines and the owners that
  start and stop them), \<open>Signals\<close> (overload\_signals\_linux.go, overload\_signals\_other.go,
  mem\_budget\_linux.go, mem\_budget\_other.go: the readings, and the governor's refresh loop), \<open>Admission\<close> (admission.go, overload\_bridge.go),
  \<open>Static_Asset\<close> (static\_asset.go), \<open>Free_Memory\<close> (free\_os\_memory.go).

  \<^bold>\<open>Requests.\<close>  \<open>Request_Dimensions\<close> (l7\_dimensions.go, request\_event\_dimensions.go),
  \<open>Upstream_Failure\<close> (upstream\_failure.go), \<open>Stats_Handler\<close> and \<open>Handler_Props\<close> (handler.go),
  \<open>App_Interface\<close> (the app as the handler sees it), \<open>L4_Handlers\<close>, \<open>Load_Balancer\<close> (lb\_registry.go,
  lb\_selector.go, lb\_recorder.go), \<open>Lifecycle\<close> (Provision, Start, Stop, Cleanup and a reload),
  \<open>Handler_Setup\<close> (Provision and Validate of the handlers, the block handler of l4\_block.go, server
  push), \<open>Metrics\<close> (metrics.go: the collectors, and the series of the request metric).

  \<^bold>\<open>Composition.\<close>  \<open>End_To_End\<close> joins Provision, the HTTP handler and the flush: what the handler
  counted for the requests it served is what the counter rows of the shipped body report.

  \<^bold>\<open>Privacy and evidence.\<close>  \<open>Fold_Matcher\<close>, \<open>Managed_Header\<close>, \<open>Managed_Redact\<close>, \<open>Managed_Registry\<close>
  and \<open>Managed_Props\<close> (managed\_header\_privacy.go): the optimised tests equal membership and
  containment up to ASCII case, redaction removes what they find, and the registry never mixes
  transactions.  \<open>Defense_Catalog\<close>, \<open>Defense_Plan\<close>, \<open>Defense_Marker\<close>, \<open>Defense_Handler\<close> and
  \<open>Defense_Props\<close> (defense\_evidence.go).  \<open>Coraza_Writer\<close> and \<open>Coraza_Props\<close> (coraza\_writer.go).

  \<^bold>\<open>Interfaces.\<close>  Contracts between components are locales, each interpreted on the model's own
  operations: \<open>capped_counter\<close> (five aggregating recorders), \<open>byte_budget\<close> (the governor),
  \<open>row_encoder\<close> (every encoder), \<open>drop_oldest_queue\<close> (the ship queue) and \<open>counting_app\<close> (what the
  HTTP handler relies on of the app, interpreted on the counters alone and on the app with all the
  invariants that a flush needs).

  \<^bold>\<open>Concurrency.\<close>  An operation that runs under one mutex is one function on the state.  Where the
  code interleaves (the governor's atomics, the ship loop and Stop, retired delivery, admission,
  the privacy registry, the memory timer, the overload samplers and their owners) there is a
  step relation whose steps are the atomic sections of the code, and the properties are
  invariants of every reachable state.

  \<^bold>\<open>Bounds.\<close>  All recursive functions terminate.  The retry and decoding loops recurse on the attempt
  or round counter of the code itself; only the JSON reader of the specification has fuel, the
  length of its text, and each field takes a byte of it.  Counters that
  identify generations or connections are 64-bit words; the properties about them assume fewer
  than \<open>2 ^ 64\<close> events.  Floating-point code is real arithmetic with a rounding function after each
  operation.

  \<^bold>\<open>Parameters.\<close>  Code that is not in the repository is an argument: Caddy's replacer and request
  variables, \<open>ctx.App\<close>, the network, contexts and clocks, the contents of files, the histogram of the
  Go runtime, \<open>strconv.ParseFloat\<close>, \<open>html.UnescapeString\<close>, lower-casing of text that is not ASCII, the
  hash seed, and the heavy-hitter sketch, of which it is only assumed that a fresh
  one is empty and that an increment adds at most its item.

  \<^bold>\<open>Not modelled.\<close>  The log lines and the increments of Prometheus counters that follow a modelled
  field, which nothing reads back; module registration and Caddyfile glue (module.go and the
  \<open>CaddyModule\<close> methods); the adapters of coraza\_writer.go that wrap Coraza's audit log in the narrow
  views, field by field; the pool of HTTP connections; gzip, which is the identity on the text here.
\<close>

section \<open>The flush\<close>

text \<open>
  C4: whatever a flush hands to the shipper is read back by a JSON reader line by line; the
  row count that the shipper accounts for is the number of lines and is positive; and every
  HTTP counter that was in a shard is one of the lines, field by field.
\<close>

theorem flush_reads_back:
  assumes "app_parts_ok a"
    and "drainAndEncode srt rst ret retW encodeOk httpOnly ts a = (Some (body, n, health), a')"
  shows "\<exists>rows. readBatch body = Some rows \<and> n = int (length rows) \<and> 0 < n
    \<and> (\<forall>k c. counterFor (app_http a) k = Some c
          \<longrightarrow> cleanFields (counterFields (app_ps a) k c) \<in> set rows)"
  using assms by (rule drainAndEncode_rows)

definition exampleIngest :: IngestConfig where
  "exampleIngest = \<lparr>ic_URL = ''u'', ic_AuthToken = ''t'', ic_AuthEnvVar = [], ic_AuthHeader = [],
     ic_FlushIntervalMs = 0, ic_MaxBufferRows = 0, ic_MaxUniqueHashes = 0, ic_TimeoutMs = 0,
     ic_MaxRetries = 0, ic_ShutdownMaxRetries = 0, ic_StopWaitMs = 0, ic_ShutdownDeadlineMs = 0,
     ic_L4SniMaxKeys = 2, ic_FingerprintMaxKeys = 2, ic_FingerprintIpMaxKeys = 2,
     ic_CorazaMaxEvents = 0, ic_RequestEvents = None\<rparr>"

abbreviation exampleCfg :: ingestRuntime where
  "exampleCfg \<equiv> resolveIngest exampleIngest"

definition exampleChallenge :: challengeAttemptKey where
  "exampleChallenge = \<lparr>ck_vhost = ''a'', ck_ip = ''1.2.3.4'', ck_outcome = ''passed''\<rparr>"

definition emptyHealth :: healthState where
  "emptyHealth = \<lparr>healthShards = replicate 16 [], domainHealthKeys = 0, domainHealthRetired = False,
     memGov = None, domainHealthCredits = 0, domainHealthEncoding = False, drops = (\<lambda>_. 0)\<rparr>"

definition exampleApp :: "unit statsApp" where
  "exampleApp = \<lparr>app_cfg = exampleCfg, app_ps = 7, app_machineID = [], app_http = newHttpState,
     app_sni = \<lparr>l4SniMap = [], l4SniOverflow = 0\<rparr>,
     app_ip = \<lparr>l4IpTopk = None, l4IpSampled = [], l4IpPrefix = [], l4IpSni = [], l4IpSniPerIp = []\<rparr>,
     app_fp = \<lparr>fpMap = [], fpIpMap = [], fpOverflow = 0, fpIpOverflow = 0\<rparr>,
     app_coraza = \<lparr>corazaEvents = [], corazaOverflow = 0, corazaReservedBytes = 0\<rparr>,
     app_block = \<lparr>l4Blocks = [], l4BlockOverflow = 0, l4BlockReputationOverflow = 0\<rparr>,
     app_challenge = \<lparr>challengeMap = Some [(exampleChallenge, 3)], challengeOverflow = 0\<rparr>,
     app_edgeVerify = \<lparr>edgeVerifyMap = Some [], edgeVerifyOverflow = 0\<rparr>,
     app_health = emptyHealth, app_reqEvents = None,
     app_nodeStates = \<lparr>ns_cur = None, ns_base = [], ns_ready = []\<rparr>, app_dropped = 0\<rparr>"

lemma newHttpState_uniques: "all_uniques_ok cfg newHttpState"
  by (simp add: all_uniques_ok_def uniques_ok_def newHttpState_def emptyShard_def)

lemma exampleApp_ok: "app_parts_ok exampleApp"
  by (simp add: app_parts_ok_def exampleApp_def newHttpState_ok newHttpState_uniques ipKeys_ok_def
      health_parts_def emptyHealth_def)

lemma exampleApp_flush:
  "\<exists>body a'. drainAndEncode (\<lambda>_. []) (\<lambda>t. t) (\<lambda>_. False) False True True 0 exampleApp
     = (Some (body, 1, None), a')"
  using drainShards_eq [OF newHttpState_ok newHttpState_uniques]
  by (simp add: drainAndEncode_def drainTracks_def exampleApp_def newHttpState_def emptyShard_def
      challengeSnapshot_def edgeVerifySnapshot_def orEmpty_def drainHealth_def drainDomainHealth_def
      detachDomainHealth_def healthTotal_def emptyHealth_def prepareDomainHealth_def
      drainReqEvents_def encodeDrained_def frameRecords_def rowCountOf_def noRows_def emptyIpSnap_def
      encodeBatchWith_def frameWriteTo_def Let_def sum_list_replicate map_replicate_const)

theorem flush_reads_back_witness:
  "\<exists>body a'. drainAndEncode (\<lambda>_. []) (\<lambda>t. t) (\<lambda>_. False) False True True 0 exampleApp
       = (Some (body, 1, None), a') \<and> (\<exists>rows. readBatch body = Some rows \<and> length rows = 1)"
proof -
  obtain body a' where d: "drainAndEncode (\<lambda>_. []) (\<lambda>t. t) (\<lambda>_. False) False True True 0 exampleApp
      = (Some (body, 1, None), a')" using exampleApp_flush by blast
  from flush_reads_back [OF exampleApp_ok d] d show ?thesis by fastforce
qed

section \<open>HTTP counters\<close>

definition exampleKey :: Key where
  "exampleKey = \<lparr>k_TsUnixMin = 28000000, k_VhostID = 5, k_Method = ''GET'', k_Status = 200,
     k_Origin = ''upstream'', k_Country = ''DE'', k_ASN = 64500, k_DefenseExempt = False\<rparr>"

definition exampleDelta :: CounterDelta where
  "exampleDelta = \<lparr>d_BytesIn = 10, d_BytesOut = 20, d_DurationUs = 1500, d_LatBucket = 1\<rparr>"

text \<open>
  C5: recording a request is, on the abstract map from keys to counters, adding
  the request to its key; a key that is new while its shard is full leaves the map as it is.
  No other key is touched, however the keys hash to shards.
\<close>

theorem record_refines_map:
  assumes "http_ok cfg a"
  shows "counterFor (Record cfg k d a) = specRecord (shardFull cfg a k) k d (counterFor a)"
  using assms by (rule Record_refines)

theorem record_refines_map_witness:
  "counterFor (Record exampleCfg exampleKey exampleDelta newHttpState)
   = specRecord (shardFull exampleCfg newHttpState exampleKey) exampleKey exampleDelta
       (counterFor newHttpState)"
  by (rule record_refines_map [OF newHttpState_ok])

section \<open>Text on the wire\<close>


section \<open>Memory\<close>




section \<open>Request events\<close>

definition exampleRow :: requestEventRow where
  "exampleRow = \<lparr>re_TsUnixSec = 0, re_VhostID = 5, re_ClientIP = ''1.2.3.4'', re_ForwardedIP = [],
     re_FrontProxy = [], re_Method = ''GET'', re_Path = ''/'', re_PathBucket = ''/'', re_Status = 200,
     re_HTTPVersion = [], re_UA = [], re_Origin = [], re_BytesIn = 0, re_BytesOut = 0,
     re_DurationUs = 0, re_SampleRate = 0, re_DefenseExempt = False, re_TsUnixMs = 0,
     re_MachineID = [], re_MachineSeq = 0, re_Disposition = dispServed, re_Host = [],
     re_RequestID = [], re_UpstreamFailureReason = [], re_V2 = False\<rparr>"

definition exampleGov :: memGovernor where
  "exampleGov = \<lparr>totalRAM = 10000, shareBudget = 4000, rssCeiling = 8000, baselineRSS = 0,
     bufferBytes = 100, cachedRSS = 0\<rparr>"

lemma exampleGov_budget: "budgetOf exampleGov = 4000"
  by (simp add: budgetOf_def exampleGov_def i64_id min_i64_def max_i64_def)

text \<open>
  C22: recording a request event keeps the row cap and keeps the governor's
  tally equal to the bytes of the buffered rows plus what other buffers hold; a later drain
  hands over all rows in order and gives back exactly their bytes.
\<close>

theorem request_events_accounted:
  assumes "recorder_ok others (r, Some g)" and "fits (Some g) row"
    and "recordRow rnd row (r, Some g) = (r1, Some g1)"
  shows "recorder_ok others (r1, Some g1)
    \<and> (\<exists>r2 g2. drainRows (r1, Some g1) = (r_rows r1, r_overflow r1, r2, Some g2)
          \<and> bufferBytes g2 = others \<and> r_rows r2 = [])"
proof -
  have ok: "recorder_ok others (r1, Some g1)"
    using recordRow_ok [OF assms(1,2), of rnd] assms(3) by simp
  with drainRows_spec [OF ok] show ?thesis by blast
qed

lemma exampleRecorded:
  "recordRow (\<lambda>x. x) exampleRow (newRequestEventRecorder 5 2, Some exampleGov)
   = ((newRequestEventRecorder 5 2)\<lparr>r_seen := 1, r_reservedBytes := requestEventRowBytes exampleRow,
        r_rows := [exampleRow\<lparr>re_SampleRate := 1\<rparr>]\<rparr>,
      Some (exampleGov\<lparr>bufferBytes := 100 + requestEventRowBytes exampleRow\<rparr>))"
proof -
  have n: "requestEventRowBytes exampleRow = 370"
    by (simp add: requestEventRowBytes_def requestEventRowFixedBytes_def exampleRow_def dispServed_def)
  have "tryReserve 370 exampleGov = (True, exampleGov\<lparr>bufferBytes := 470\<rparr>)"
    by (simp add: tryReserve_def exampleGov_budget) (simp add: exampleGov_def i64_id min_i64_def max_i64_def)
  moreover have "pressure (\<lambda>x. x) exampleGov \<le> 7 / 10"
    by (simp add: pressure_def exampleGov_def)
  ultimately show ?thesis
    by (simp add: recordRow_def newRequestEventRecorder_def withFloor_def loadFactor_def
        sampleDecision_def appendLocked_def n Let_def pressureSampleFloor_def pressureSampleStart_def)
qed

theorem request_events_accounted_witness:
  "\<exists>r2 g2. drainRows (recordRow (\<lambda>x. x) exampleRow (newRequestEventRecorder 5 2, Some exampleGov))
     = ([exampleRow\<lparr>re_SampleRate := 1\<rparr>], 0, r2, Some g2) \<and> bufferBytes g2 = 100"
proof -
  have "recorder_ok 100 (newRequestEventRecorder 5 2, Some exampleGov)"
    by (simp add: recorder_ok_def newRequestEventRecorder_def rowsBytes_def gov_ok_def
        exampleGov_budget) (simp add: exampleGov_def)
  moreover have "fits (Some exampleGov) exampleRow"
    by (simp add: fits_def exampleGov_budget requestEventRowBytes_def requestEventRowFixedBytes_def
        exampleRow_def dispServed_def max_i64_def)
  ultimately obtain r2 g2 where "drainRows (recordRow (\<lambda>x. x) exampleRow
        (newRequestEventRecorder 5 2, Some exampleGov))
      = ([exampleRow\<lparr>re_SampleRate := 1\<rparr>], r_overflow (newRequestEventRecorder 5 2), r2, Some g2)"
    "bufferBytes g2 = 100"
    using request_events_accounted [OF _ _ exampleRecorded] unfolding exampleRecorded by fastforce
  then show ?thesis by (simp add: newRequestEventRecorder_def)
qed



section \<open>Domain health\<close>

definition exampleHealthKey :: domainHealthKey where
  "exampleHealthKey = \<lparr>dk_TsUnixMin = 1, dk_VhostID = 3, dk_ConfigurationKey = replicate 64 (CHR ''a'')\<rparr>"

definition exampleHealthDelta :: domainHealthCounter where
  "exampleHealthDelta = zeroHealth\<lparr>dc_RequestCount := 1\<rparr>"

lemma emptyHealth_ok: "health_ok exampleCfg 0 0 emptyHealth"
  by (simp add: health_ok_def emptyHealth_def healthTotal_def govHealth_def sum_list_replicate
      map_replicate_const domainHealthResidentRecords_def)

lemma exampleHealthKey_ok: "dk_VhostID exampleHealthKey \<noteq> 0"
  "validDomainHealthKey (dk_ConfigurationKey exampleHealthKey)"
  by (simp_all add: exampleHealthKey_def validDomainHealthKey_def list_all_iff less_eq_char_def)

text \<open>
  C12: a valid domain-health event is added to its key and nothing else
  changes, or it is counted as dropped, which happens only when the runtime is retired or the
  key is new; and the key count, the process-wide credits and the governor bytes stay equal
  to what the maps hold, within their limits.
\<close>

theorem health_recorded_or_counted:
  assumes "health_ok cfg outs others a" and "dk_VhostID key \<noteq> 0"
    and "validDomainHealthKey (dk_ConfigurationKey key)" and "0 < maxBuffer cfg"
  shows "health_ok cfg outs others (RecordDomainHealth cfg key delta a)
    \<and> (healthFor (RecordDomainHealth cfg key delta a)
           = (healthFor a)(key \<mapsto> addHealth delta (case healthFor a key of Some c \<Rightarrow> c | None \<Rightarrow> zeroHealth))
         \<and> dropTotal (RecordDomainHealth cfg key delta a) = dropTotal a
       \<or> healthFor (RecordDomainHealth cfg key delta a) = healthFor a
         \<and> dropTotal (RecordDomainHealth cfg key delta a) = dropTotal a + 1
         \<and> (domainHealthRetired a \<or> healthFor a key = None))"
  by (rule conjI [OF RecordDomainHealth_ok [OF assms(1)] RecordDomainHealth_effect [OF assms]])

theorem health_recorded_or_counted_witness:
  "health_ok exampleCfg 0 0 (RecordDomainHealth exampleCfg exampleHealthKey exampleHealthDelta emptyHealth)"
  using health_recorded_or_counted [OF emptyHealth_ok exampleHealthKey_ok resolveIngest_limits(1)]
  by blast



section \<open>Layer-4 and attempt tracks\<close>

text \<open>
  C34: a block handler that was provisioned never panics on the connections of IPv4 peers, its
  map keeps its cap, and the rows of the snapshot, its two overflow rows included, account for
  every one of them.
\<close>

theorem blocked_connections_counted:
  assumes "provisionBlockHandler reason present found = Inr b" and "\<forall>(now, cx) \<in> set cxs. v4Peer cx"
    and "l4Blocks a = []" and "blockLost a = 0"
  shows "\<exists>a'. blockAll reason cxs a = Some a' \<and> length (l4Blocks a') \<le> l4BlockMaxKeys
    \<and> tally (fst (l4BlockSnapshot m a')) = of_nat (length cxs)"
proof -
  have "validL4BlockReason reason" using provisioned_has_app(4) [OF assms(1)] by simp
  from blockAll_events [OF this assms(2), of a] obtain es where
    es: "blockAll reason cxs a = Some (fold recordL4BlockAt es a)" "length es = length cxs"
      "\<forall>e \<in> set es. blockKeyOf e \<noteq> None" by blast
  have "keyed blockKeyOf es = length cxs" using es(2,3) by (simp add: keyed_def)
  with block_rows [of a es m] es(1) assms(3,4) show ?thesis by (simp add: blocks_ok_def)
qed

theorem blocked_connections_counted_witness:
  "\<exists>a'. blockAll ''ip'' [(5, \<lparr>cx_replacer = None, cx_vars = [],
        cx_RemoteAddr = Some (v4Text 7 @ '':'' @ FormatUint 80)\<rparr>)] (app_block exampleApp) = Some a'
     \<and> tally (fst (l4BlockSnapshot 5 a')) = 1"
proof -
  have "provisionBlockHandler ''ip'' False FoundStatsApp = Inr True"
    by (simp add: provisionBlockHandler_def validateBlock_def validL4BlockReason_def lookupApp_def)
  from blocked_connections_counted [OF this, of "[(5, \<lparr>cx_replacer = None, cx_vars = [],
      cx_RemoteAddr = Some (v4Text 7 @ '':'' @ FormatUint 80)\<rparr>)]" "app_block exampleApp" 5]
  show ?thesis by (auto simp: v4Peer_def exampleApp_def blockLost_def)
qed

text \<open>
  C38: \<open>canonicalIPAndPrefix\<close> panics, instead of reporting a bad address, on exactly
  the texts that begin with a closing bracket and a colon and have no second closing bracket.
\<close>

theorem remote_address_panic:
  "canonicalIPAndPrefix s = IpPanic \<longleftrightarrow> prefix '']:'' s \<and> CHR '']'' \<notin> set (tl s)"
  by (rule canonicalIPAndPrefix_panic)



section \<open>Node state\<close>





section \<open>Delivery\<close>





text \<open>
  C1: in every interleaving of the flush loop, the shipper and Stop, each row handed
  to the ship queue is delivered, counted as dropped, or still pending; every health lease of
  a batch is settled exactly when the batch is; at most three encoded bodies are held, and
  retired generations hold at most two slots.
\<close>

theorem rows_shipped_or_counted:
  assumes "ship_reach cfg (startShipper others d h) s" and "others \<le> retiredShipSlots"
  shows "sh_dropped s
           = d + of_int (sh_produced s - sh_delivered s - sum_list (map j_rows (pendingJobs s)))
    \<and> domainHealthCredits (sh_health s) = domainHealthCredits h
           - (sh_leased s - sum_list (map (leaseRecords \<circ> j_health) (pendingJobs s)))
    \<and> length (pendingJobs s) \<le> shipQueueCap + 1 \<and> slotsUsed s \<le> retiredShipSlots"
  using reach_all [OF assms] by (simp add: accounts_def bound_inv_def)

definition exampleJob :: shipJob where
  "exampleJob = \<lparr>j_body = ''x'', j_rows = 7, j_retries = maxRetries exampleCfg, j_shutdown = False,
     j_health = None\<rparr>"

lemma exampleShip:
  "ship_reach exampleCfg (startShipper 0 0 emptyHealth) (enqueueShip exampleJob (startShipper 0 0 emptyHealth))"
proof -
  have "env_step exampleCfg (startShipper 0 0 emptyHealth)
      (enqueueShip exampleJob (startShipper 0 0 emptyHealth))"
    by (rule env_step.tick) (simp_all add: startShipper_def freshJob_def exampleJob_def)
  then show ?thesis by (rule reach_env [OF reach_start])
qed

theorem rows_shipped_or_counted_witness:
  "sh_dropped (enqueueShip exampleJob (startShipper 0 0 emptyHealth)) = 0"
  using rows_shipped_or_counted [OF exampleShip]
  by (simp add: enqueueShip_def startShipper_def newShipQueue_def push_def shipQueueCap_def
      pendingJobs_def exampleJob_def)

text \<open>
  C6: once the flush loop has queued its last batch and closed the queue, the shipper
  always has a step to take, each step leaves less to do, and so it returns, with nothing
  pending: no wakeup is lost and no batch is forgotten.
\<close>

theorem shipper_exits:
  assumes "ship_reach cfg (startShipper others d h) s" and "others \<le> retiredShipSlots"
    and "sh_flush s = FlushDone"
  shows "(sh_pc s \<noteq> Exited \<longrightarrow> (\<exists>s'. ship_step cfg s s'))
    \<and> (\<forall>s'. ship_step cfg s s' \<longrightarrow> shipWork s' < shipWork s)
    \<and> (\<exists>s'. (ship_step cfg)\<^sup>*\<^sup>* s s' \<and> sh_pc s' = Exited \<and> pendingJobs s' = [])"
proof -
  have ctl: "ctl_inv s" using reach_all [OF assms(1,2)] by simp
  obtain s' where run: "(ship_step cfg)\<^sup>*\<^sup>* s s'" "sh_pc s' = Exited"
    using shipper_ends [OF ctl assms(3)] by blast
  from run(1) have "ctl_inv s'" using ctl by (induction rule: rtranclp_induct) (auto intro: ship_ctl)
  with run exited_settled show ?thesis
    using ship_progress [OF ctl assms(3)] shipWork_decreases [OF _ ctl assms(3)] by blast
qed

lemma exampleStopped:
  "\<exists>s. ship_reach exampleCfg (startShipper 0 0 emptyHealth) s \<and> sh_flush s = FlushDone \<and> sh_pc s \<noteq> Exited"
proof -
  let ?s0 = "startShipper 0 0 emptyHealth"
  have 0: "sh_flush ?s0 = Ticking" "sh_pc ?s0 = AtPop" by (simp_all add: startShipper_def)
  obtain s1 where 1: "ship_reach exampleCfg ?s0 s1" "sh_flush s1 = Cancelled" "sh_pc s1 = AtPop"
    using reach_env [OF reach_start env_step.stop [OF 0(1)]] 0 by fastforce
  obtain s2 where 2: "ship_reach exampleCfg ?s0 s2" "sh_flush s2 = Draining" "sh_pc s2 = AtPop"
    using reach_env [OF 1(1) env_step.begin_shutdown [OF 1(2)]] 1 by fastforce
  obtain s3 where 3: "ship_reach exampleCfg ?s0 s3" "sh_flush s3 = Closing" "sh_pc s3 = AtPop"
    using reach_env [OF 2(1) env_step.final_empty [OF 2(2)]] 2 by fastforce
  show ?thesis using reach_env [OF 3(1) env_step.close_queue [OF 3(2)]] 3 by fastforce
qed

theorem shipper_exits_witness:
  "\<exists>s s'. ship_reach exampleCfg (startShipper 0 0 emptyHealth) s \<and> (ship_step exampleCfg)\<^sup>*\<^sup>* s s'
     \<and> sh_pc s' = Exited \<and> pendingJobs s' = []"
proof -
  obtain s where s: "ship_reach exampleCfg (startShipper 0 0 emptyHealth) s" "sh_flush s = FlushDone"
    using exampleStopped by blast
  from shipper_exits [OF s(1) _ s(2)] s(1) show ?thesis by auto
qed

text \<open>
  C7: a request that records into a generation that is being stopped is never
  forgotten: every recorded row is flushed, delivered, counted as dropped, in the hands of the
  deliverer or still buffered, and once Stop, the flush loop and the requests are through, the
  deliverer runs until nothing is buffered.
\<close>

theorem retired_rows_settled:
  assumes "retire_reach cfg (servingState d h) s" and "rd_stop s = StopDone" and "rd_flushDone s"
  shows "rd_dropped s = d + of_int (rd_recorded s - rd_flushed s - rd_delivered s - rd_buffered s
                                     - handRows (rd_deliver s))
    \<and> (\<exists>s'. (retire_step cfg)\<^sup>*\<^sup>* s s' \<and> rd_deliver s' = NoDeliverer \<and> rd_buffered s' = 0
          \<and> rd_dropped s' = d + of_int (rd_recorded s' - rd_flushed s' - rd_delivered s'))"
proof -
  have inv: "retire_inv d s" using assms(1) by (rule retire_reach_inv)
  obtain s' where run: "(retire_step cfg)\<^sup>*\<^sup>* s s'" "retireWork s' = 0" "rd_stop s' = StopDone"
    using retirement_ends [OF inv assms(2,3)] by blast
  have "retire_inv d s'" using run(1) inv
    by (induction rule: rtranclp_induct) (auto intro: retire_step_inv)
  then have quiet: "rd_deliver s' = NoDeliverer" "rd_buffered s' = 0"
    "rd_dropped s' = d + of_int (rd_recorded s' - rd_flushed s' - rd_delivered s')"
    using retired_quiet [OF _ run(3)] retireWork_zero [OF run(2)] by simp_all
  have "rd_dropped s = d + of_int (rd_recorded s - rd_flushed s - rd_delivered s - rd_buffered s
      - handRows (rd_deliver s))"
    using inv unfolding retire_inv_def by (elim conjE)
  with run(1) quiet show ?thesis by (intro conjI exI [of _ s'])
qed

lemma exampleRetired:
  "\<exists>s. retire_reach exampleCfg (servingState 0 emptyHealth) s \<and> rd_stop s = StopDone
     \<and> rd_flushDone s \<and> rd_buffered s = 4"
proof -
  define s1 where "s1 = (servingState 0 emptyHealth)\<lparr>rd_flushDone := True\<rparr>"
  define s2 where "s2 = s1\<lparr>rd_buffered := rd_buffered s1 + 4, rd_recorded := rd_recorded s1 + 4,
    rd_recording := Suc (rd_recording s1)\<rparr>"
  define s3 where "s3 = s2\<lparr>rd_retired := True, rd_stop := Stored\<rparr>"
  define s4 where "s4 = (scheduleHTTPDeliveryLocked s3)\<lparr>rd_stop := StopDone\<rparr>"
  have "retire_reach exampleCfg (servingState 0 emptyHealth) s1" unfolding s1_def
    by (rule retire_more [OF retire_start retire_step.flush_done]) (simp add: servingState_def)
  then have "retire_reach exampleCfg (servingState 0 emptyHealth) s2" unfolding s2_def
    by (rule retire_request) (rule request_step.record_rows, simp)
  then have "retire_reach exampleCfg (servingState 0 emptyHealth) s3" unfolding s3_def
    by (rule retire_more [OF _ retire_step.stop_store]) (simp add: s2_def s1_def servingState_def)
  then have "retire_reach exampleCfg (servingState 0 emptyHealth) s4" unfolding s4_def
    by (rule retire_more [OF _ retire_step.stop_schedule]) (simp add: s3_def)
  moreover have "rd_stop s4 = StopDone" "rd_flushDone s4" "rd_buffered s4 = 4"
    by (simp_all add: s4_def s3_def s2_def s1_def scheduleHTTPDeliveryLocked_def servingState_def)
  ultimately show ?thesis by blast
qed

theorem retired_rows_settled_witness:
  "\<exists>s s'. rd_buffered s = 4 \<and> (retire_step exampleCfg)\<^sup>*\<^sup>* s s' \<and> rd_buffered s' = 0"
proof -
  obtain s where s: "retire_reach exampleCfg (servingState 0 emptyHealth) s" "rd_stop s = StopDone"
    "rd_flushDone s" "rd_buffered s = 4" using exampleRetired by blast
  from retired_rows_settled [OF s(1-3)] s(4) show ?thesis by blast
qed

section \<open>Overload control\<close>

definition hotSample :: levelSample where
  "hotSample = \<lparr>ls_throttlePermille = 400, ls_schedP99 = 0, ls_tte = -1, ls_hardCap = False\<rparr>"

definition coolSample :: levelSample where
  "coolSample = \<lparr>ls_throttlePermille = 0, ls_schedP99 = 0, ls_tte = -1, ls_hardCap = False\<rparr>"

definition brisk :: levelThresholds where
  "brisk = defaultLevelThresholds\<lparr>lt_enterSamples := 1, lt_dwell := 0, lt_shedExit := 0\<rparr>"

lemmas brisk_simps = brisk_def defaultLevelThresholds_def hotSample_def coolSample_def

lemma brisk_terms: "level2Term brisk hotSample" "level1Term brisk hotSample"
  "\<not> level2Term brisk coolSample" "\<not> level1Term brisk coolSample"
  by (simp_all add: level1Term_def level2Term_def sampleReasons_def brisk_simps)

lemma brisk_hot: "st_level (levelRun brisk [(hotSample, 1)]) = 2"
  by (simp add: levelRun_def nextLevel_def countSample_def Let_def brisk_terms calmTerm_def zeroLevel_def
      enterLevel_def) (simp add: brisk_simps)

text \<open>
  C33: the overload level rises only when the last samples, as many in a row as configured, all
  showed the term of the new level; it falls by exactly one, never before the dwell time, and
  only after an unbroken run of samples without level-2 terms (from 2) or of calm samples (from
  1) that began at least the exit time ago.
\<close>

theorem level_hysteresis:
  assumes "\<forall>(s, t) \<in> set (xs @ [(s, now)]). t \<noteq> 0"
  shows "(st_level (levelRun th (xs @ [(s, now)])) > st_level (levelRun th xs) \<longrightarrow>
      (\<exists>ys zs. xs @ [(s, now)] = ys @ zs \<and> int (length zs) \<ge> lt_enterSamples th
        \<and> (\<forall>z \<in> set zs. if st_level (levelRun th (xs @ [(s, now)])) = 2
              then level2Term th (fst z) else level1Term th (fst z))))
    \<and> (st_level (levelRun th (xs @ [(s, now)])) < st_level (levelRun th xs) \<longrightarrow>
      st_level (levelRun th (xs @ [(s, now)])) = st_level (levelRun th xs) - 1
      \<and> time_Sub now (st_since (levelRun th xs)) \<ge> lt_dwell th
      \<and> (\<exists>ys z zs. xs @ [(s, now)] = ys @ z # zs
          \<and> (\<forall>y \<in> set (z # zs). if st_level (levelRun th xs) = 2 then \<not> level2Term th (fst y)
                else calmTerm th (fst y))
          \<and> time_Sub now (snd z) \<ge> (if st_level (levelRun th xs) = 2 then lt_shedExit th
                else lt_conserveExit th)))"
  by (intro conjI impI level_rise level_fall assms)

lemma brisk_cool: "st_level (levelRun brisk ([(hotSample, 1)] @ [(coolSample, 2)])) = 1"
proof -
  define st where "st = levelRun brisk [(hotSample, 1)]"
  have "st_level st = 2" "st_l2ClearSince st = 0"
    using brisk_hot by (simp_all add: st_def levelRun_def nextLevel_counts countSample_def brisk_terms)
  moreover have "lt_dwell brisk \<le> time_Sub 2 (st_since st)"
  proof -
    have "st_since st = 1" unfolding st_def
      by (simp add: levelRun_def nextLevel_def countSample_def Let_def brisk_terms calmTerm_def zeroLevel_def
          enterLevel_def) (simp add: brisk_simps)
    then show ?thesis by (simp add: brisk_def time_Sub_def min_i64_def max_i64_def)
  qed
  ultimately have "st_level (nextLevel st coolSample 2 brisk) = 1"
    by (simp add: nextLevel_def countSample_def Let_def brisk_terms)
      (simp add: brisk_def time_Sub_def min_i64_def max_i64_def)
  then show ?thesis by (simp only: levelRun_snoc st_def)
qed

theorem level_hysteresis_witness:
  "(\<exists>zs. suffix zs [(hotSample, 1 :: gotime)] \<and> 1 \<le> length zs)
   \<and> lt_dwell brisk \<le> time_Sub 2 (st_since (levelRun brisk [(hotSample, 1)]))"
proof
  have "st_level (levelRun brisk ([] @ [(hotSample, 1)])) > st_level (levelRun brisk [])"
    using brisk_hot by (simp add: levelRun_def zeroLevel_def)
  with level_hysteresis [of "[]" hotSample 1 brisk] obtain ys zs where
    "[] @ [(hotSample, 1 :: gotime)] = ys @ zs" "int (length zs) \<ge> lt_enterSamples brisk" by auto
  then show "\<exists>zs. suffix zs [(hotSample, 1 :: gotime)] \<and> 1 \<le> length zs"
    by (intro exI [of _ zs]) (simp add: suffix_def brisk_def)
  have "st_level (levelRun brisk ([(hotSample, 1)] @ [(coolSample, 2)])) < st_level (levelRun brisk [(hotSample, 1)])"
    unfolding brisk_hot brisk_cool by simp
  with level_hysteresis [of "[(hotSample, 1)]" coolSample 2 brisk]
  show "lt_dwell brisk \<le> time_Sub 2 (st_since (levelRun brisk [(hotSample, 1)]))" by auto
qed

text \<open>
  C39: requests of the platform are never shed; whenever a navigation is shed, every other
  request would be, and whenever those are, so are static assets.
\<close>

theorem shed_in_order:
  assumes "sane inflight" "sane limit" "sane hardLimit" "0 \<le> inflight" "0 \<le> hardLimit"
  shows "\<not> fst (admissionShouldShed AdmitP0 inflight level limit hardLimit)
    \<and> (fst (admissionShouldShed AdmitP1 inflight level limit hardLimit) \<longrightarrow>
         fst (admissionShouldShed AdmitP2 inflight level limit hardLimit))
    \<and> (fst (admissionShouldShed AdmitP2 inflight level limit hardLimit) \<longrightarrow>
         fst (admissionShouldShed AdmitP3 inflight level limit hardLimit))"
  using shed_order [OF assms] p0_never_shed by simp

theorem shed_in_order_witness: "fst (admissionShouldShed AdmitP3 12 2 10 256)"
proof -
  have "fst (admissionShouldShed AdmitP2 12 2 10 256)" by (simp add: admissionShouldShed_def)
  then show ?thesis using shed_in_order [of 12 10 256 2] by (simp add: sane_def)
qed

definition exampleRequest :: httpRequest where
  "exampleRequest = \<lparr>rq_Method = ''GET'', rq_Path = ''/a.css'', rq_EscapedPath = ''/a.css'', rq_RawQuery = [],
     rq_Fragment = [], rq_RequestURI = ''/a.css?v=1'', rq_Proto = ''HTTP/1.1'', rq_ProtoMajor = 1, rq_ProtoMinor = 1, rq_ForceQuery = False, rq_Host = ''h'',
     rq_RemoteAddr = ''1.2.3.4:5'', rq_ContentLength = 0, rq_TransferEncoding = [], rq_Header = []\<rparr>"



definition idleAdmission :: admissionRun where
  "idleAdmission = \<lparr>ar_st = \<lparr>ad_inflight = 0, ad_limitNow = 0, ad_completions = 0, ad_latencyNs = 0,
     ad_hardCapHit = False, ad_counts = \<lparr>oc_wafSkippedDetect = 0, oc_wafSkippedStatic = 0, oc_wafWouldSkip = 0,
     oc_shed = [0, 0, 0, 0], oc_wouldShed = 0\<rparr>\<rparr>, ar_entered = [], ar_active = 0\<rparr>"






text \<open>
  C40: the keyword screen finds exactly the values that contain one of the keywords as
  a whole word.
\<close>

theorem keyword_scan_exact: "hasSQLKeyword v = (\<exists>w. wholeWord w v \<and> isKeyword w)"
  by (rule hasSQLKeyword_spec)

text \<open>
  C21: over any starts and stops of app generations, interleaved with the samplers' own steps, at
  most one sampler lives; one runs exactly while an app is live, and a first app that waits for
  the old sampler gets its own; the configuration in force is the newest live app's, and a load
  that fails after its app started restores the one before; the level is 0, 1 or 2.
\<close>

theorem one_sampler:
  assumes "rounds rnd" and "sampler_reach rnd mem (initSamplerRun ad) s"
  shows "(\<forall>j k. sr_pc s j \<notin> {Unborn, Gone} \<and> sr_pc s k \<notin> {Unborn, Gone} \<longrightarrow> j = k)
    \<and> (\<not> sr_waiting s \<longrightarrow> (samplerRunning s \<longleftrightarrow> oc_owners (sr_ctl s) \<noteq> []))
    \<and> (sr_waiting s \<longrightarrow> (\<exists>s'. sampler_reach rnd mem s s' \<and> \<not> sr_waiting s' \<and> samplerRunning s'))
    \<and> oc_cfg (sr_ctl s) = (if oc_owners (sr_ctl s) = [] then None
                           else resolveOverloadConfig rnd (oo_cfg (last (oc_owners (sr_ctl s)))) mem)
    \<and> (\<forall>cfg own c'. overloadRetain rnd mem cfg (sr_ctl s) = (own, c') \<longrightarrow>
         oc_owners (overloadRelease rnd mem own c') = oc_owners (sr_ctl s)
         \<and> oc_cfg (overloadRelease rnd mem own c') = oc_cfg (sr_ctl s))
    \<and> Level (sr_ctl s) \<in> {0, 1, 2} \<and> sampler_ok rnd (sr_state s)"
proof -
  have ok: "samples_ok rnd mem s" and go: "goroutines_ok s" using sampler_reach_inv [OF assms] by simp_all
  have reg: "registry_ok rnd mem (quiet (sr_ctl s))" using ok by (simp add: samples_ok_def)
  have "j = k" if "sr_pc s j \<notin> {Unborn, Gone}" "sr_pc s k \<notin> {Unborn, Gone}" for j k
    using that live_newest [OF go, of j] live_newest [OF go, of k] by simp
  moreover have "samplerRunning s \<longleftrightarrow> oc_owners (sr_ctl s) \<noteq> []" if "\<not> sr_waiting s"
    using that go by (auto simp: goroutines_ok_def newestStopped_def samplerRunning_def)
  moreover have "\<exists>s'. sampler_reach rnd mem s s' \<and> \<not> sr_waiting s' \<and> samplerRunning s'" if "sr_waiting s"
    using retain_completes [OF go that] by blast
  moreover have "oc_cfg (sr_ctl s) = (if oc_owners (sr_ctl s) = [] then None
      else resolveOverloadConfig rnd (oo_cfg (last (oc_owners (sr_ctl s)))) mem)"
    using reg by (simp add: registry_ok_def)
  moreover have "oc_owners (overloadRelease rnd mem own c') = oc_owners (sr_ctl s)
      \<and> oc_cfg (overloadRelease rnd mem own c') = oc_cfg (sr_ctl s)"
    if "overloadRetain rnd mem cfg (sr_ctl s) = (own, c')" for cfg own c'
    using failed_load_rolls_back [OF reg, of cfg own "quiet c'"] that quiet_retain [of rnd mem cfg "sr_ctl s"]
      quiet_release [of rnd mem own c'] by simp
  moreover have "Level (sr_ctl s) \<in> {0, 1, 2}" using ok by (auto simp: samples_ok_def Level_def split: option.split)
  moreover have "sampler_ok rnd (sr_state s)" using ok by (simp add: samples_ok_def)
  ultimately show ?thesis by blast
qed

theorem one_sampler_witness:
  "\<exists>s. sampler_reach (\<lambda>x. x) 0 (initSamplerRun (ar_st idleAdmission)) s \<and> \<not> sr_waiting s \<and> samplerRunning s"
proof -
  let ?s0 = "initSamplerRun (ar_st idleAdmission)"
  let ?s1 = "retainOwner (\<lambda>x. x) 0 None ?s0"
  let ?s2 = "launchSampler ?s1"
  have w: "\<not> sr_waiting ?s0" by (simp add: initSamplerRun_def)
  have w1: "sr_waiting ?s1" "samplerDone ?s1"
    by (simp_all add: retainOwner_def initSamplerRun_def initController_def samplerDone_def)
  have "sampler_reach (\<lambda>x. x) 0 ?s0 ?s2"
    using sampler_reach.sampler_more [OF sampler_reach.sampler_more [OF sampler_reach.sampler_start
      sampler_step.retain [OF w]] sampler_step.launch [OF w1]] .
  moreover have "\<not> sr_waiting ?s2" "oc_owners (sr_ctl ?s2) \<noteq> []"
    by (simp_all add: launchSampler_def retainOwner_def retain_owners)
  ultimately show ?thesis using one_sampler [OF rounds_id, of 0 "ar_st idleAdmission" ?s2] by blast
qed


section \<open>Managed-Header privacy\<close>


definition exampleSecret :: managedHeaderCredential where
  "exampleSecret = \<lparr>mc_Name = ''X-Key'', mc_Value = ''s3cret-token''\<rparr>"



lemma fold_examples:
  "foldASCII ''X-Key'' = ''x-key''" "foldASCII ''s3cret-token'' = ''s3cret-token''"
  "foldASCII ''S3cret-Token'' = ''s3cret-token''" "foldASCII ''S3cret-token'' = ''s3cret-token''" "foldASCII ''X-Keys'' = ''x-keys''"
  by code_simp+

lemma exampleSecret_ok: "pair_ok exampleSecret" "foldedValue exampleSecret = ''s3cret-token''" "foldedName exampleSecret = ''x-key''"
  by (simp_all add: pair_ok_def exampleSecret_def managedHeaderNameMaxBytes_def managedHeaderValueMaxBytes_def
      foldedValue_def foldedName_def fold_examples del: foldASCII_simps)


text \<open>
  C8: the tests of a compiled policy, with their length tables, hash maps and byte-pair
  filter, are the plain ones: a Header name or a whole field is managed exactly when it is one
  of the configured texts without regard to the case of letters, and the matcher fires exactly
  when the text contains a configured value of at least eight bytes, also with its plus signs
  read as spaces.
\<close>

theorem policy_tests_exact:
  assumes "\<forall>c \<in> set cs. pair_ok c"
  shows "let p = compileManagedHeaderPolicy unesc cs; V = foldedValue ` set cs
    in (managedName p s \<longleftrightarrow> s \<noteq> [] \<and> foldASCII s \<in> foldedName ` set cs)
       \<and> (equalsValue p s \<longleftrightarrow> s \<noteq> [] \<and> foldASCII s \<in> V)
       \<and> (findPattern (mp_contain p) s \<longleftrightarrow>
            (\<exists>v \<in> V. longValue v \<and> (sublist v (foldASCII s) \<or> CHR ''+'' \<in> set v \<and> sublist (spacedPlus v) (foldASCII s))))
       \<and> (findPattern (mp_containInUserAgent p) s \<longleftrightarrow> (\<exists>v \<in> uaValues (set cs). sublist v (foldASCII s)))"
  using compile_ok [OF assms, of unesc]
  by (simp only: Let_def managedName_iff equalsValue_iff contain_iff containInUserAgent_iff simp_thms)

theorem policy_tests_exact_witness:
  "equalsValue (compileManagedHeaderPolicy id [exampleSecret]) ''S3cret-Token''
   \<and> \<not> managedName (compileManagedHeaderPolicy id [exampleSecret]) ''X-Keys''"
  using policy_tests_exact [of "[exampleSecret]" id "''S3cret-Token''"] policy_tests_exact [of "[exampleSecret]" id "''X-Keys''"]
  by (simp add: Let_def exampleSecret_ok fold_examples del: foldASCII_simps)



text \<open>
  C9: however transactions are bound and released, a lookup never returns the state of another
  request: it finds an id exactly while a handle of it is live, and the state it returns is the
  one its only live handle was bound with; an id that two requests use returns none.
\<close>

theorem registry_isolates:
  assumes "registry_reach seed s"
  shows "(lookupState seed key (rr_reg s) = (None, False) \<longleftrightarrow> handlesOf (rr_live s) key = [])
    \<and> (\<forall>st b. lookupState seed key (rr_reg s) = (Some st, b) \<longrightarrow> (\<exists>ptr. handlesOf (rr_live s) key = [(key, st, ptr)]))"
  using lookup_isolated [OF assms] by blast

theorem registry_isolates_witness:
  "\<exists>s. registry_reach (\<lambda>_. 5) s \<and> rr_live s = [(''t'', True, 0)]
     \<and> lookupState (\<lambda>_. 5) ''t'' (rr_reg s) \<noteq> (None, False)"
proof -
  let ?s0 = "\<lparr>rr_reg = newManagedHeaderRegistry, rr_live = []\<rparr> :: bool registryRun"
  have r0: "registry_reach (\<lambda>_. 5) ?s0" by (rule registry_start)
  obtain r where b: "bindState (\<lambda>_. 5) ''t'' True (rr_reg ?s0) = (Some 0, r)"
    by (auto simp: bindState_def newManagedHeaderRegistry_def entryOf_def registryShard_def Let_def)
  from registry_more [OF r0 registry_step.binds [OF b]] have
    r1: "registry_reach (\<lambda>_. 5) \<lparr>rr_reg = r, rr_live = [(''t'', True, 0)]\<rparr>" by simp
  from registry_isolates [OF r1, of "''t''"] r1 show ?thesis by (intro exI [of _ "\<lparr>rr_reg = r, rr_live = [(''t'', True, 0)]\<rparr>"]) simp
qed

section \<open>Defense evidence\<close>

text \<open>
  C15: the evidence that the WAF's telemetry reads is the one captured from the
  request's variables: whatever Headers the client sent, in whatever case and number, the
  stamped request yields exactly the captured evidence, and it carries no control marker but
  those of the captured snapshot.
\<close>

lemma compilePlan_mode: "compilePlan unesc h = Inr p \<Longrightarrow> pl_mode p = dh_Mode h"
  by (auto simp: compilePlan_def split: if_splits sum.splits)

lemma clear_no_marker: "\<forall>(n, _) \<in> set (clearDefenseMarkers h). \<not> isDefenseMarker n"
  by (auto simp: clearDefenseMarkers_def)

theorem evidence_survives_forgery:
  assumes "dh_Mode hc = ''capture''" and "compilePlan unesc hc = Inr plan"
    and "distinct_keys (dh_CorazaRuleVars hc)" and "distinct_keys (dh_SkipCorazaRuleVars hc)" and "distinct_keys vs"
    and "serveEvidence unesc hc vs h (Some newHolder) = (h1, ho)"
    and "dh_Mode hs = ''stamp_waf''" and "compilePlan unesc hs = Inr stamp"
    and "serveEvidence unesc hs vs' h2 ho = (h3, ho')"
  shows "defenseEvidenceFromHeaders h3 = Some (sn_Evidence (capture plan vs))
    \<and> (\<forall>n \<in> keys h3. isDefenseMarker n \<longrightarrow>
         n = defenseEvidenceHeader \<or> n = defenseObserveHeader \<and> sn_ObserveCoraza (capture plan vs)
         \<or> n \<in> skipHeaderName ` set (sn_SkipCorazaRuleIDs (capture plan vs)))"
proof -
  have ho: "ho = Some (newHolder\<lparr>hd_snapshot := Some (capture plan vs)\<rparr>)"
    using assms(1,2,6) compilePlan_mode [OF assms(2)]
    by (auto simp: serveEvidence_def Let_def publishOwned_def newHolder_def)
  then have h3: "h3 = stampDefenseEvidence (capture plan vs) (clearDefenseMarkers h2)"
    using assms(7,8,9) compilePlan_mode [OF assms(8)]
    by (auto simp: serveEvidence_def Let_def sharedSnapshot_def newHolder_def)
  have "evidence_ok (sn_Evidence (capture plan vs))"
    using capture_ok [OF compilePlan_ok [OF assms(2,3,4)] assms(5)] .
  with h3 stamp_read_back [OF _ clear_no_marker] stamped_markers show ?thesis by blast
qed

definition captureHandler :: defenseEvidenceHandler where
  "captureHandler = \<lparr>dh_ManagedHeaders = [], dh_Mode = ''capture'', dh_HTTPVar = ''v'', dh_CorazaAllVar = [],
     dh_CorazaRuleVars = [], dh_ObserveCorazaVar = [], dh_SkipCorazaRuleVars = []\<rparr>"

definition stampHandler :: defenseEvidenceHandler where
  "stampHandler = captureHandler\<lparr>dh_Mode := ''stamp_waf'', dh_HTTPVar := []\<rparr>"

theorem evidence_survives_forgery_witness:
  "\<exists>h1 ho h3 ho'. serveEvidence id captureHandler [(''v'', VString ''true'')] [] (Some newHolder) = (h1, ho)
     \<and> serveEvidence id stampHandler [] [(''x-apx-defense-evidence'', [''http=0''])] ho = (h3, ho')
     \<and> defenseEvidenceFromHeaders h3 = Some \<lparr>de_HTTP = True, de_CorazaAll = False, de_CorazaRuleIDs = []\<rparr>"
proof -
  obtain plan where p: "compilePlan id captureHandler = Inr plan"
      "pl_httpVar plan = ''v''" "pl_allVar plan = []" "pl_rules plan = []" "pl_skips plan = []"
    by (simp add: compilePlan_def captureHandler_def compileGroup_def)
  obtain stamp where s: "compilePlan id stampHandler = Inr stamp"
    by (simp add: compilePlan_def stampHandler_def captureHandler_def compileGroup_def)
  obtain h1 ho where c: "serveEvidence id captureHandler [(''v'', VString ''true'')] [] (Some newHolder) = (h1, ho)"
    by (cases "serveEvidence id captureHandler [(''v'', VString ''true'')] [] (Some newHolder)")
  obtain h3 ho' where w: "serveEvidence id stampHandler [] [(''x-apx-defense-evidence'', [''http=0''])] ho = (h3, ho')"
    by (cases "serveEvidence id stampHandler [] [(''x-apx-defense-evidence'', [''http=0''])] ho")
  have "defenseEvidenceFromHeaders h3 = Some (sn_Evidence (capture plan [(''v'', VString ''true'')]))"
    using evidence_survives_forgery [OF _ p(1) _ _ _ c _ s w] by (simp add: captureHandler_def stampHandler_def)
  moreover have "sn_Evidence (capture plan [(''v'', VString ''true'')]) = \<lparr>de_HTTP = True, de_CorazaAll = False, de_CorazaRuleIDs = []\<rparr>"
    using p by (simp add: capture_def selectedIDs_def selectedVar_def varIs_def Let_def)
  ultimately show ?thesis using c w by auto
qed

text \<open>
  C14: the one pass over the request's variables, which marks the catalog's bit set and reads
  the bits back in order, selects exactly the rules and skips that probing every selector's
  variable selects, in the same order, whichever of the two the plan takes.
\<close>

theorem selector_scan_exact:
  assumes "compilePlan unesc h = Inr p" and "distinct_keys (dh_CorazaRuleVars h)" and "distinct_keys (dh_SkipCorazaRuleVars h)"
    and "distinct_keys vs"
  shows "selectedIDs p vs = (probeSelectors vs (pl_rules p), probeSelectors vs (pl_skips p))
    \<and> ascending (fst (selectedIDs p vs)) \<and> set (fst (selectedIDs p vs)) \<subseteq> set defenseCRSIDs"
  using selected_eq_probes [OF compilePlan_ok [OF assms(1-3)] assms(4)] probe_ok [of "pl_rules p" vs]
    compilePlan_ok [OF assms(1-3)] by (simp add: plan_ok_def)

theorem selector_scan_exact_witness:
  "\<exists>p. compilePlan id captureHandler = Inr p \<and> selectedIDs p [(''v'', VString ''true'')] = ([], [])"
proof -
  obtain p where p: "compilePlan id captureHandler = Inr p" "pl_rules p = []" "pl_skips p = []"
    by (simp add: compilePlan_def captureHandler_def compileGroup_def)
  from selector_scan_exact [OF p(1), of "[(''v'', VString ''true'')]"] p show ?thesis
    by (simp add: captureHandler_def probeSelectors_def)
qed

text \<open>
  C26: the evidence marker is read back as it was written, and the reader accepts no other text
  than a marker of evidence over the catalog; an exemption read from it is membership.
\<close>

theorem marker_round_trip:
  "(evidence_ok e \<longrightarrow> parseDefenseEvidenceMarker (evidenceMarker e) = Some e
      \<and> (corazaExempt e x \<longleftrightarrow> de_CorazaAll e \<or> x \<in> set (de_CorazaRuleIDs e)))
   \<and> (parseDefenseEvidenceMarker s = Some e' \<longrightarrow> evidenceMarker e' = s \<and> evidence_ok e')"
  using parse_marker marker_parse corazaExempt_iff by blast

theorem marker_round_trip_witness:
  "parseDefenseEvidenceMarker (evidenceMarker \<lparr>de_HTTP = True, de_CorazaAll = False, de_CorazaRuleIDs = []\<rparr>)
   = Some \<lparr>de_HTTP = True, de_CorazaAll = False, de_CorazaRuleIDs = []\<rparr>"
  using marker_round_trip [of "\<lparr>de_HTTP = True, de_CorazaAll = False, de_CorazaRuleIDs = []\<rparr>"]
  by (simp add: evidence_ok_def)

section \<open>Latency selection and path buckets\<close>

text \<open>
  C27: the selected upstream is available, no available upstream has a lower score at the time
  it was read, every available one before it in the pool scores strictly higher, and nothing is
  selected exactly when nothing is available.
\<close>

theorem least_latency_selected:
  "case lbSelectLowest rnd env dial av inflight pool of
     None \<Rightarrow> \<forall>up \<in> set pool. \<not> av up
   | Some up \<Rightarrow> \<exists>j < length pool. pool ! j = up \<and> av up
       \<and> (\<forall>i < length pool. av (pool ! i) \<longrightarrow>
            scoreAt rnd env dial inflight j up \<le> scoreAt rnd env dial inflight i (pool ! i))
       \<and> (\<forall>i < j. av (pool ! i) \<longrightarrow>
            scoreAt rnd env dial inflight j up < scoreAt rnd env dial inflight i (pool ! i))"
  using lbSelectLowest_least [of rnd env dial inflight av pool]
  by (auto simp: lbSelectLowest_def leastOf_def split: option.splits)

theorem least_latency_selected_witness:
  "lbSelectLowest id (\<lambda>_. (0, [])) id (\<lambda>u. u = ''b'') (\<lambda>_. 0) [''a'', ''b''] = Some ''b''"
  using least_latency_selected [where rnd = id and env = "\<lambda>_. (0, [])" and dial = id
      and av = "\<lambda>u. u = ''b''" and inflight = "\<lambda>_. 0" and pool = "[''a'', ''b'']"]
  by (auto split: option.splits)



section \<open>The HTTP handler\<close>

text \<open>
  C2: from \<open>Provision\<close> through any requests that the handler serves to the body of a flush: the
  body is read back, its row count is the number of lines, and the requests its counter rows
  report, with the overflow counter, are exactly the requests that were neither monitoring
  probes nor unrouted; and such a body is handed over unless all of them were lost to overflow.
\<close>

theorem served_requests_shipped:
  assumes "provision rnd getenv replaceAll ram rss sketch health c = Inr pv"
    and "a = fst (serveAll (statsAppRef rnd (pv_hashSalt pv) (app_machineID (pv_app pv)) (pv_modeV2 pv) telemetry evidenceV2)
                  xs (pv_app pv, seq))"
  shows "(\<forall>body n lease a'. drainAndEncode srt rst ret retW encodeOk httpOnly ts a = (Some (body, n, lease), a') \<longrightarrow>
        (\<exists>rows. readBatch body = Some rows \<and> n = int (length rows)
          \<and> sum_list (map shippedRequests rows) + overflow (app_http a) = of_nat (length (filter countedArrival xs))))
    \<and> (of_nat (length (filter countedArrival xs)) \<noteq> overflow (app_http a) \<longrightarrow>
        (\<exists>body n lease a'. drainAndEncode srt rst ret retW True httpOnly ts a = (Some (body, n, lease), a')))"
  by (intro conjI allI impI served_flush [OF assms])

definition exampleConfig :: statsConfig where
  "exampleConfig = \<lparr>sc_Ingest = Some exampleIngest, sc_ProxyServerID = 7, sc_HashSalt = [], sc_MachineID = ''m'',
     sc_Overload = None\<rparr>"

lemma exampleConfig_provisions:
  "\<exists>pv. provision id (\<lambda>_. []) id (0, True) None () emptyHealth exampleConfig = Inr pv \<and> pv_hashSalt pv = []
     \<and> \<not> pv_modeV2 pv \<and> app_http (pv_app pv) = newHttpState \<and> app_cfg (pv_app pv) = exampleCfg
     \<and> app_reqEvents (pv_app pv) = None"
  by (auto simp: provision_def exampleConfig_def exampleIngest_def resolveSecret_def requestEventsOf_def Validate_def Let_def
      split: prod.splits)

definition exampleFinished :: finishedRequest where
  "exampleFinished = \<lparr>fr_request = exampleRequest, fr_vars = [(''vhost_id'', VString ''7'')], fr_replacer = None,
     fr_holder = None, fr_trace = None, fr_ctxErr = False, fr_recorder = newRecorder, fr_respHeader = [],
     fr_servErr = None, fr_dur = 0, fr_before = None, fr_healthNow = 0, fr_keyNow = 0, fr_rowNow = 0,
     fr_unesc = id, fr_lower = id\<rparr>"

lemma exampleFinished_routed: "readVhostID (fr_vars exampleFinished) = Some 7"
  by (simp add: exampleFinished_def readVhostID_def ParseUint_def is_digit_def)

lemma exampleFinished_counted: "countedArrival (exampleRequest, exampleFinished, [], [])"
  by (simp add: countedArrival_def exampleFinished_routed headerGet_def exampleRequest_def)

lemma fresh_shard: "shards newHttpState ! shardForKey k = emptyShard"
  using shardForKey_lt [of k] by (simp add: newHttpState_def)

lemma first_record_fits: "overflow (Record exampleCfg k d newHttpState) = 0"
  unfolding Record_def Let_def fresh_shard
  by (simp add: newHttpState_def emptyShard_def setShard_def exampleIngest_def resolveIngest_def intDefault_def shardCount_def)

theorem served_requests_shipped_witness:
  "\<exists>(a :: unit statsApp) body n lease a' rows.
     drainAndEncode (\<lambda>_. []) id (\<lambda>_. False) False True True 0 a = (Some (body, n, lease), a')
     \<and> readBatch body = Some rows \<and> sum_list (map shippedRequests rows) = 1"
proof -
  obtain pv where pv: "provision id (\<lambda>_. []) id (0, True) None () emptyHealth exampleConfig = Inr pv"
    "pv_hashSalt pv = []" "\<not> pv_modeV2 pv" "app_http (pv_app pv) = newHttpState" "app_cfg (pv_app pv) = exampleCfg"
    "app_reqEvents (pv_app pv) = None"
    using exampleConfig_provisions by blast
  define xs where "xs = ([(exampleRequest, exampleFinished, [], [])] :: arrival list)"
  define a where "a = fst (serveAll (statsAppRef id (pv_hashSalt pv) (app_machineID (pv_app pv)) (pv_modeV2 pv) False False)
      xs (pv_app pv, 0))"
  have none: "overflow (app_http a) = 0"
    unfolding a_def xs_def serveAll_def serveStats_def
    using pv(2-) exampleFinished_routed
    by (simp add: recordRequest_calls recordCalls_def attemptCalls_def routedCalls_def clientCalls_def servedRequest_def
        exampleFinished_def exampleRequest_def headerGet_def readChallengeOutcome_def readEdgeVerifyOutcome_def
        domainHealthConfigurationKey_def varString_def domainHealthVar_def validDomainHealthKey_def statsAppRef_def
        RecordRequestEvent_def setGov_def finishRecord_def first_record_fits Let_def)
  have one: "of_nat (length (filter countedArrival xs)) = (1 :: u64)" by (simp add: xs_def exampleFinished_counted)
  note shipped = served_requests_shipped [OF pv(1) a_def, where encodeOk = True and srt = "\<lambda>_. []" and rst = id
      and ret = "\<lambda>_. False" and retW = False and httpOnly = True and ts = 0, unfolded none one]
  then obtain body n lease a' where "drainAndEncode (\<lambda>_. []) id (\<lambda>_. False) False True True 0 a = (Some (body, n, lease), a')"
    by auto
  with shipped show ?thesis by (metis add.right_neutral)
qed


text \<open>
  C10: recording a request is a fixed sequence of calls on the app that ends with \<open>finishHTTPRecord\<close>.
  A routed request is exactly one \<open>Record\<close>, an unrouted one none; any request-event row agrees
  with the counter of the same request; and a sequence number is used up only for a row of mode 2.
\<close>

theorem handler_effects:
  "\<exists>cs. recordRequest app q (a, seq) =
          (fold (applyCall app) cs a, if ar_RequestEventsModeV2 app \<and> logsRow app q then seq + 1 else seq)
     \<and> last cs = DoFinish \<and> length (filter isRecord cs) = (if readVhostID (fr_vars q) = None then 0 else 1)
     \<and> (\<forall>v. readVhostID (fr_vars q) = Some v \<longrightarrow>
          DoRecord (requestKey app q v) (requestDelta q) \<in> set cs
          \<and> (\<forall>row. DoEvent row \<in> set cs \<longrightarrow>
               re_VhostID row = v \<and> re_Status row = k_Status (requestKey app q v)
               \<and> re_Origin row = k_Origin (requestKey app q v) \<and> re_BytesOut row = d_BytesOut (requestDelta q)
               \<and> re_DurationUs row = d_DurationUs (requestDelta q)
               \<and> (re_V2 row \<longleftrightarrow> ar_RequestEventsModeV2 app)))"
proof (intro exI [of _ "recordCalls app q seq"] conjI allI impI)
  show "last (recordCalls app q seq) = DoFinish" by (simp add: recordCalls_def Let_def)
  show "length (filter isRecord (recordCalls app q seq)) = (if readVhostID (fr_vars q) = None then 0 else 1)"
    by (auto simp: recordCalls_def attemptCalls_def routedCalls_def clientCalls_def isRecord_def Let_def split: option.splits)
next
  fix v row
  assume v: "readVhostID (fr_vars q) = Some v" and "DoEvent row \<in> set (recordCalls app q seq)"
  then have "row = loggedRow app q seq"
    by (auto simp: recordCalls_def attemptCalls_def routedCalls_def clientCalls_def Let_def split: if_splits)
  with loggedRow_agrees [OF v, of app seq]
  show "re_VhostID row = v" "re_Status row = k_Status (requestKey app q v)"
    "re_Origin row = k_Origin (requestKey app q v)" "re_BytesOut row = d_BytesOut (requestDelta q)"
    "re_DurationUs row = d_DurationUs (requestDelta q)" "re_V2 row \<longleftrightarrow> ar_RequestEventsModeV2 app"
    by (simp_all add: Let_def requestKey_def)
qed (auto simp: recordRequest_calls recordCalls_def routedCalls_def Let_def)

theorem handler_effects_witness:
  "\<exists>cs. fst (recordRequest (statsAppRef id [] [] True False False) exampleFinished (exampleApp, 5))
       = fold (applyCall (statsAppRef id [] [] True False False)) cs exampleApp
     \<and> length (filter isRecord cs) = 1
     \<and> snd (recordRequest (statsAppRef id [] [] True False False) exampleFinished (exampleApp, 5)) = 6"
proof -
  let ?app = "statsAppRef id [] [] True False False :: unit statsApp appRef"
  have "ar_RequestEventsModeV2 ?app" by (simp add: statsAppRef_def)
  then have "logsRow ?app exampleFinished" by (simp add: logsRow_def exampleFinished_routed)
  moreover note \<open>ar_RequestEventsModeV2 ?app\<close>
  moreover obtain cs where "recordRequest ?app exampleFinished (exampleApp, 5) = (fold (applyCall ?app) cs exampleApp,
      if ar_RequestEventsModeV2 ?app \<and> logsRow ?app exampleFinished then 5 + 1 else 5)"
    "length (filter isRecord cs) = (if readVhostID (fr_vars exampleFinished) = None then 0 else 1)"
    using handler_effects [of ?app exampleFinished exampleApp 5] by blast
  ultimately show ?thesis by (intro exI [of _ cs]) (simp add: exampleFinished_routed)
qed

text \<open>
  C29: whatever the next handlers call on the wrapped writer, the recorded status is that of the first
  final call, informational headers before it reach the client in order, and no header after it
  does.
\<close>

theorem recorder_first_status:
  "case runRecorder calls of (w, sent) \<Rightarrow>
     rc_status w = headStatus calls \<and> (rc_wrote w \<longleftrightarrow> list_ex finalCall calls)
     \<and> (rc_hijacked w \<longleftrightarrow> CallHijack True \<in> set calls) \<and> sent = concat (map codeOf (headCalls calls))"
proof -
  note run = runRecorder_head [of calls]
  have "rc_status (fst (runRecorder calls)) = headStatus calls"
    "rc_wrote (fst (runRecorder calls)) = list_ex finalCall calls"
    "rc_hijacked (fst (runRecorder calls)) = (CallHijack True \<in> set calls)"
    "snd (runRecorder calls) = concat (map codeOf (headCalls calls))"
    by (subst run, simp)+
  then show ?thesis by (simp add: case_prod_beta)
qed

section \<open>Upstream failures and domain health\<close>




text \<open>
  C30: the health counter of any sequence of requests counts them all, its upstream successes and
  5xx are among its upstream responses, those among the routed ones, and routed ones and proxy
  errors together are at most the requests.
\<close>

theorem health_counters_ordered:
  assumes "length qs < 2 ^ 64"
  shows "let c = healthOf qs
    in unat (dc_RequestCount c) = length qs
       \<and> unat (dc_UpstreamSuccesses c) + unat (dc_Upstream5xx c) \<le> unat (dc_UpstreamResponses c)
       \<and> unat (dc_UpstreamResponses c) \<le> unat (dc_RoutingResponses c)
       \<and> unat (dc_RoutingResponses c) + unat (dc_ProxyErrors c) \<le> unat (dc_RequestCount c)"
  using healthOf_consistent [OF assms] by (simp add: health_consistent_def Let_def)

theorem health_counters_ordered_witness:
  "unat (dc_RequestCount (healthOf [exampleFinished, exampleFinished])) = 2"
  using health_counters_ordered [of "[exampleFinished, exampleFinished]"] by (simp add: Let_def)

section \<open>The life of a generation\<close>



text \<open>
  C19: after a reload the audit writer sees the new generation, the overload configuration is the new
  one's, the old generation is stopped and retired, the new one runs, and one release of memory
  is scheduled; a second \<open>Stop\<close> of the old generation changes nothing.
\<close>

theorem reload_hands_over:
  assumes "registry_ok rnd mem (pr_overload p)" and "old \<noteq> new"
    and "ge_owner (pr_gens p old) = Some own" and "own \<in> set (oc_owners (pr_overload p))"
    and "\<not> ge_stopped (pr_gens p old)"
  shows "let p' = reloadApp rnd mem cfg old new p
    in pr_corazaApp p' = Some new \<and> registry_ok rnd mem (pr_overload p')
       \<and> oc_cfg (pr_overload p') = resolveOverloadConfig rnd cfg mem
       \<and> ge_started (pr_gens p' new) \<and> \<not> ge_stopped (pr_gens p' new)
       \<and> ge_stopped (pr_gens p' old) \<and> ge_httpRetired (pr_gens p' old)
       \<and> fm_gen (pr_freeMem p') = fm_gen (pr_freeMem p) + 1
       \<and> stopApp rnd mem old p' = p'"
  using reload_outcome [OF assms, of cfg] stopApp_twice [of rnd mem old "startApp rnd mem cfg new (publishApp new p)"]
  by (simp add: Let_def reloadApp_def)

definition idleProcess :: process where
  "idleProcess = \<lparr>pr_corazaApp = None, pr_overload = initController, pr_freeMem = initFreeMem,
     pr_gens = (\<lambda>_. newGeneration)\<rparr>"

theorem reload_hands_over_witness:
  "\<exists>p' :: process. pr_corazaApp p' = Some 1 \<and> ge_stopped (pr_gens p' 0) \<and> \<not> ge_stopped (pr_gens p' 1)
     \<and> fm_gen (pr_freeMem p') = 1"
proof -
  obtain own c where ret: "overloadRetain id 0 None initController = (own, c)" by fastforce
  note c = registry_retain [OF registry_init ret]
  define p where "p = startApp id 0 None 0 (publishApp 0 idleProcess)"
  have p: "pr_overload p = c" "ge_owner (pr_gens p 0) = Some own" "\<not> ge_stopped (pr_gens p 0)"
    "fm_gen (pr_freeMem p) = 0"
    by (simp_all add: p_def startApp_def publishApp_def idleProcess_def newGeneration_def ret initFreeMem_def)
  let ?q = "reloadApp id 0 None 0 1 p"
  from reload_hands_over [of id 0 p 0 1 own None] c p have "pr_corazaApp ?q = Some 1 \<and> ge_stopped (pr_gens ?q 0)
    \<and> \<not> ge_stopped (pr_gens ?q 1) \<and> fm_gen (pr_freeMem ?q) = 1" by (simp add: Let_def)
  then show ?thesis by blast
qed



text \<open>
  C28: however schedules, timers and callbacks interleave, memory is released at most once per
  schedule and never by a superseded timer, and as long as the newest schedule has not been
  served its timer can still get to the call.
\<close>

theorem free_memory_once:
  assumes "free_reach n s" and "n < 2 ^ 64 - 1"
  shows "distinct (fm_calls s) \<and> length (fm_calls s) \<le> n
    \<and> (\<forall>g. g \<noteq> fm_gen s \<longrightarrow> fm_calls (freeCallback g s) = fm_calls s)
    \<and> (0 < n \<and> fm_gen s \<notin> set (fm_calls s) \<longrightarrow>
         (\<exists>s1 s2. (s1 = s \<or> free_step s s1) \<and> free_step s1 s2 \<and> fm_calls s2 = fm_gen s # fm_calls s))"
proof -
  note inv = free_reach_inv [OF assms]
  have d: "distinct (fm_calls s)" using inv by (simp add: free_inv_def)
  have "\<forall>g \<in> set (fm_calls s). 0 < unat g \<and> unat g \<le> n" using inv unfolding free_inv_def by blast
  then have "unat ` set (fm_calls s) \<subseteq> {1..n}" by (metis atLeastAtMost_iff image_subsetI Suc_leI One_nat_def)
  then have "card (unat ` set (fm_calls s)) \<le> n" using card_mono [of "{1..n}"] by fastforce
  moreover have "card (unat ` set (fm_calls s)) = card (set (fm_calls s))"
    by (intro card_image inj_onI) (simp add: word_unat_eq_iff)
  ultimately have "length (fm_calls s) \<le> n" using d by (simp add: distinct_card)
  moreover have "fm_calls (freeCallback g s) = fm_calls s" if "g \<noteq> fm_gen s" for g
    using that by (simp add: freeCallback_def Let_def)
  ultimately show ?thesis using d free_progress [OF inv] by blast
qed

theorem free_memory_once_witness:
  "length (fm_calls (scheduleFreeOSMemory initFreeMem)) \<le> 1
   \<and> (\<exists>s1 s2. (s1 = scheduleFreeOSMemory initFreeMem \<or> free_step (scheduleFreeOSMemory initFreeMem) s1)
        \<and> free_step s1 s2 \<and> fm_calls s2 = [1])"
proof -
  have s: "fm_gen (scheduleFreeOSMemory initFreeMem) = 1" "fm_calls (scheduleFreeOSMemory initFreeMem) = []"
    "fm_gen initFreeMem = 0" by (simp_all add: scheduleFreeOSMemory_def initFreeMem_def)
  have "free_reach 1 (scheduleFreeOSMemory initFreeMem)"
    using free_reach.step [OF free_reach.start free_step.schedule] s by simp
  from free_memory_once [OF this] s show ?thesis by simp
qed

end
